(* ===== verification/Prelude.thy ===== *)
theory Prelude
  imports Main "HOL-Library.Stream"
begin

text \<open>
  The vocabulary the components share: the parts of Go's \<^verbatim>\<open>errors\<close>, \<^verbatim>\<open>fmt\<close>,
  \<^verbatim>\<open>strings\<close>, slices and \<^verbatim>\<open>math/rand\<close> the sources use, written out as total HOL
  functions, and the list and map lemmas every component proof needs.
  A Go string is a \<^typ>\<open>string\<close>: a sequence of bytes.
\<close>

section \<open>Errors\<close>

text \<open>
  A Go \<^verbatim>\<open>error\<close> is an interface value: \<open>err_kind\<close> is its dynamic type or, for a sentinel such as
  \<^verbatim>\<open>http.ErrServerClosed\<close>, its identity; \<open>Error\<close> is what the method \<^verbatim>\<open>Error()\<close> answers.
\<close>

datatype err = Err (err_kind: string) (Error: string)

text \<open>A call that may fail: \<open>Inl e\<close> is the error return, \<open>Inr v\<close> the value with a nil error.\<close>

type_synonym 'a res = "err + 'a"

definition errors_New :: "string \<Rightarrow> err" where
  "errors_New msg = Err ''*errors.errorString'' msg"

lemma Error_errors_New [simp]: "Error (errors_New msg) = msg"
  by (simp add: errors_New_def)

section \<open>Formatting\<close>

definition digit :: "nat \<Rightarrow> char" where
  "digit n = char_of (48 + n)"

fun show_nat :: "nat \<Rightarrow> string" where
  "show_nat n = (if n < 10 then [digit n] else show_nat (n div 10) @ [digit (n mod 10)])"

declare show_nat.simps [simp del]

definition show_int :: "int \<Rightarrow> string" where
  "show_int i = (if i < 0 then CHR ''-'' # show_nat (nat (- i)) else show_nat (nat i))"

definition lower_hex :: "nat \<Rightarrow> char" where
  "lower_hex n = (if n < 10 then digit n else char_of (87 + n))"

text \<open>
  \<^verbatim>\<open>strconv.Quote\<close> byte by byte. For a byte of 128 or more this writes \<^verbatim>\<open>\xHH\<close>, which is what
  Quote does outside well-formed UTF-8; the names that reach a \<^verbatim>\<open>%q\<close> here are ASCII.
\<close>

definition quote_char :: "char \<Rightarrow> string" where
  "quote_char c =
     (let n = of_char c :: nat in
      if n = 34 then [CHR 0x5C, CHR 0x22]
      else if n = 92 then [CHR 0x5C, CHR 0x5C]
      else if 32 \<le> n \<and> n < 127 then [c]
      else if n = 7 then [CHR 0x5C, CHR ''a'']
      else if n = 8 then [CHR 0x5C, CHR ''b'']
      else if n = 12 then [CHR 0x5C, CHR ''f'']
      else if n = 10 then [CHR 0x5C, CHR ''n'']
      else if n = 13 then [CHR 0x5C, CHR ''r'']
      else if n = 9 then [CHR 0x5C, CHR ''t'']
      else if n = 11 then [CHR 0x5C, CHR ''v'']
      else [CHR 0x5C, CHR ''x'', lower_hex (n div 16), lower_hex (n mod 16)])"

definition Quote :: "string \<Rightarrow> string" where
  "Quote s = CHR 0x22 # concat (map quote_char s) @ [CHR 0x22]"

text \<open>
  \<^verbatim>\<open>fmt.Sprintf\<close> for the verbs the sources use. An operand that does not fit its verb is
  printed as Go's \<^verbatim>\<open>%!v(BAD)\<close> family does; no call of the sources gets there.
\<close>

datatype farg = Str string | Dec int

fun verb :: "char \<Rightarrow> farg \<Rightarrow> string" where
  "verb v (Str x) = (if v = CHR ''s'' then x
     else if v = CHR ''q'' then Quote x else ''%!'' @ [v] @ ''(string='' @ x @ '')'')"
| "verb v (Dec i) = (if v = CHR ''d'' then show_int i
     else ''%!'' @ [v] @ ''(int='' @ show_int i @ '')'')"

fun Sprintf :: "string \<Rightarrow> farg list \<Rightarrow> string" where
  "Sprintf [] as = []"
| "Sprintf [c] as = (if c = CHR ''%'' then ''%!(NOVERB)'' else [c])"
| "Sprintf (c # v # cs) as =
     (if c = CHR ''%''
      then (if v = CHR ''%'' then CHR ''%'' # Sprintf cs as
            else (case as of
                    [] \<Rightarrow> ''%!'' @ [v] @ ''(MISSING)'' @ Sprintf cs []
                  | a # as' \<Rightarrow> verb v a @ Sprintf cs as'))
      else c # Sprintf (v # cs) as)"

text \<open>Without a \<^verbatim>\<open>%w\<close> verb, and the sources have none, \<^verbatim>\<open>fmt.Errorf\<close> makes a plain error.\<close>

definition Errorf :: "string \<Rightarrow> farg list \<Rightarrow> err" where
  "Errorf fmt as = errors_New (Sprintf fmt as)"

lemma Error_Errorf [simp]: "Error (Errorf fmt as) = Sprintf fmt as"
  by (simp add: Errorf_def)

lemma show_nat_nonempty [simp]: "show_nat n \<noteq> []"
  by (subst show_nat.simps) simp

lemma show_int_nonempty [simp]: "show_int i \<noteq> []"
  by (simp add: show_int_def)

section \<open>Strings\<close>

definition HasPrefix :: "string \<Rightarrow> string \<Rightarrow> bool" where
  "HasPrefix s p \<longleftrightarrow> length p \<le> length s \<and> take (length p) s = p"

definition HasSuffix :: "string \<Rightarrow> string \<Rightarrow> bool" where
  "HasSuffix s p \<longleftrightarrow> length p \<le> length s \<and> drop (length s - length p) s = p"

definition TrimPrefix :: "string \<Rightarrow> string \<Rightarrow> string" where
  "TrimPrefix s p = (if HasPrefix s p then drop (length p) s else s)"

lemma HasPrefix_append [simp]: "HasPrefix (p @ s) p"
  by (simp add: HasPrefix_def)

lemma HasPrefix_iff: "HasPrefix s p \<longleftrightarrow> (\<exists>t. s = p @ t)"
proof
  assume "HasPrefix s p"
  then have "s = p @ drop (length p) s"
    by (simp add: HasPrefix_def) (metis append_take_drop_id)
  then show "\<exists>t. s = p @ t" ..
qed (auto simp: HasPrefix_def)

lemma HasSuffix_iff: "HasSuffix s p \<longleftrightarrow> (\<exists>t. s = t @ p)"
proof
  assume "HasSuffix s p"
  then have "s = take (length s - length p) s @ p"
    by (simp add: HasSuffix_def) (metis append_take_drop_id)
  then show "\<exists>t. s = t @ p" ..
qed (auto simp: HasSuffix_def)

lemma TrimPrefix_append [simp]: "TrimPrefix (p @ s) p = s"
  by (simp add: TrimPrefix_def)

text \<open>
  \<open>Cut c s\<close> splits at the first \<open>c\<close>: what is before it, and what follows it when there is one
  (\<^verbatim>\<open>strings.Index\<close> followed by the two slices).
\<close>

definition Cut :: "char \<Rightarrow> string \<Rightarrow> string \<times> string option" where
  "Cut c s = (takeWhile (\<lambda>x. x \<noteq> c) s,
     (case dropWhile (\<lambda>x. x \<noteq> c) s of [] \<Rightarrow> None | _ # r \<Rightarrow> Some r))"

lemma Cut_none: "c \<notin> set s \<Longrightarrow> Cut c s = (s, None)"
proof -
  assume "c \<notin> set s"
  then have "takeWhile (\<lambda>x. x \<noteq> c) s = s" and "dropWhile (\<lambda>x. x \<noteq> c) s = []"
    by (auto simp: takeWhile_eq_all_conv dropWhile_eq_Nil_conv)
  then show ?thesis by (simp only: Cut_def list.case)
qed

lemma Cut_some: "c \<notin> set p \<Longrightarrow> Cut c (p @ c # s) = (p, Some s)"
proof -
  assume "c \<notin> set p"
  then have "\<forall>x \<in> set p. x \<noteq> c" by auto
  then show ?thesis by (simp add: Cut_def takeWhile_append2 dropWhile_append2)
qed

fun Split :: "char \<Rightarrow> string \<Rightarrow> string list" where
  "Split c [] = [[]]"
| "Split c (x # xs) =
     (if x = c then [] # Split c xs
      else (case Split c xs of [] \<Rightarrow> [[x]] | w # ws \<Rightarrow> (x # w) # ws))"

definition is_space :: "char \<Rightarrow> bool" where
  "is_space c \<longleftrightarrow> c \<in> {CHR '' '', CHR 0x09, CHR 0x0A, CHR 0x0B, CHR 0x0C, CHR 0x0D}"

definition TrimSpace :: "string \<Rightarrow> string" where
  "TrimSpace s = rev (dropWhile is_space (rev (dropWhile is_space s)))"

definition is_upper :: "char \<Rightarrow> bool" where
  "is_upper c \<longleftrightarrow> (65::nat) \<le> of_char c \<and> of_char c \<le> (90::nat)"

definition is_lower :: "char \<Rightarrow> bool" where
  "is_lower c \<longleftrightarrow> (97::nat) \<le> of_char c \<and> of_char c \<le> (122::nat)"

definition is_digit :: "char \<Rightarrow> bool" where
  "is_digit c \<longleftrightarrow> (48::nat) \<le> of_char c \<and> of_char c \<le> (57::nat)"

definition lower :: "char \<Rightarrow> char" where
  "lower c = (if is_upper c then char_of (of_char c + (32::nat)) else c)"

definition upper :: "char \<Rightarrow> char" where
  "upper c = (if is_lower c then char_of (of_char c - (32::nat)) else c)"

definition ToLower :: "string \<Rightarrow> string" where
  "ToLower s = map lower s"

fun Join :: "string list \<Rightarrow> string \<Rightarrow> string" where
  "Join [] sep = []"
| "Join [x] sep = x"
| "Join (x # y # ys) sep = x @ sep @ Join (y # ys) sep"

section \<open>Slices\<close>

text \<open>\<open>remove_at i s\<close> is \<^verbatim>\<open>append(s[:i], s[i+1:]...)\<close>.\<close>

definition remove_at :: "nat \<Rightarrow> 'a list \<Rightarrow> 'a list" where
  "remove_at i xs = take i xs @ drop (Suc i) xs"

lemma length_remove_at [simp]: "i < length xs \<Longrightarrow> length (remove_at i xs) = length xs - 1"
  by (auto simp: remove_at_def)

lemma set_remove_at_subset: "set (remove_at i xs) \<subseteq> set xs"
  by (auto simp: remove_at_def dest: in_set_takeD in_set_dropD)

lemma remove_at_split: "i < length xs \<Longrightarrow> xs = take i xs @ xs ! i # drop (Suc i) xs"
  by (simp add: Cons_nth_drop_Suc)

lemma in_remove_at: "i < length xs \<Longrightarrow> x \<in> set xs \<Longrightarrow> x \<noteq> xs ! i \<Longrightarrow> x \<in> set (remove_at i xs)"
  by (metis Un_iff remove_at_def remove_at_split set_ConsD set_append)

section \<open>Random numbers\<close>

text \<open>
  \<^verbatim>\<open>rand.Intn(n)\<close> answers some number below a positive \<open>n\<close>. The source of randomness is an
  arbitrary infinite stream of draws, so that a statement over all streams is a statement over
  all the choices the code can make.
\<close>

type_synonym rng = "nat stream"

definition Intn :: "nat \<Rightarrow> rng \<Rightarrow> nat \<times> rng" where
  "Intn n r = (shd r mod n, stl r)"

lemma Intn_less: "0 < n \<Longrightarrow> Intn n r = (i, r') \<Longrightarrow> i < n"
  by (auto simp: Intn_def)

lemma Intn_any: "i < n \<Longrightarrow> Intn n (i ## r) = (i, r)"
  by (simp add: Intn_def)

section \<open>Maps\<close>

text \<open>Reading a Go map of slices: a missing key reads as the nil slice.\<close>

definition lookup_slice :: "('k \<Rightarrow> 'v list option) \<Rightarrow> 'k \<Rightarrow> 'v list" where
  "lookup_slice m k = (case m k of None \<Rightarrow> [] | Some vs \<Rightarrow> vs)"

lemma lookup_slice_upd [simp]:
  "lookup_slice (m(k \<mapsto> vs)) k' = (if k' = k then vs else lookup_slice m k')"
  by (simp add: lookup_slice_def)

lemma lookup_slice_empty [simp]: "lookup_slice Map.empty k = []"
  by (simp add: lookup_slice_def)

section \<open>Keys\<close>

text \<open>
  \<^verbatim>\<open>types.NamespacedName\<close> of apimachinery: the namespace and name of a cluster object. Its method
  \<^verbatim>\<open>String\<close> is library code and a parameter of the definitions that use it.
\<close>

record NamespacedName =
  Namespace :: string
  Name :: string

end
