(* ===== verification/Session_Manager.thy ===== *)
theory Session_Manager
  imports Prelude "HOL-Library.Multiset"
begin

text \<open>
  \<^verbatim>\<open>src/pkg/hub/cluster/session_manager.go\<close>: the registry of the yamux sessions that the agents of
  the member clusters opened, and the dialling of a member cluster over one of them.

  The state is the map from cluster ids to session lists (\<open>sessionLists\<close>), the source of random
  indices and the world \<open>'w\<close> outside the program, in which the yamux sessions live. A session is
  the address of a \<^verbatim>\<open>yamux.Session\<close>, a connection the address of a stream. Each operation holds the
  mutex from its first to its last statement, so it is one atomic step of the state.
  \<^verbatim>\<open>Session.Open\<close> and \<^verbatim>\<open>Session.Close\<close> belong to yamux and are the parameter \<open>yx\<close>; the id of a
  cluster is \<^verbatim>\<open>NamespacedName.String()\<close> of apimachinery, the parameter \<open>ks\<close>. Log output is left out.
\<close>

section \<open>State\<close>

type_synonym session = nat
type_synonym conn = nat

record 'w yamux =
  Open :: "session \<Rightarrow> 'w \<Rightarrow> conn res \<times> 'w"
  Close :: "session \<Rightarrow> 'w \<Rightarrow> 'w"

record sessionManager =
  sessionLists :: "string \<Rightarrow> session list option"

definition NewSessionManager :: sessionManager where
  "NewSessionManager = \<lparr>sessionLists = Map.empty\<rparr>"

text \<open>A running hub: its session manager, its random numbers, and the world it acts on.\<close>

record 'w hub =
  mgr :: sessionManager
  rand :: rng
  world :: 'w

text \<open>The sessions a hub holds for a cluster id.\<close>

definition sessions :: "sessionManager \<Rightarrow> string \<Rightarrow> session list" where
  "sessions m cid = lookup_slice (sessionLists m) cid"

section \<open>Operations\<close>

definition AddClusterSession ::
    "(NamespacedName \<Rightarrow> string) \<Rightarrow> NamespacedName \<Rightarrow> session \<Rightarrow> sessionManager \<Rightarrow> sessionManager" where
  "AddClusterSession ks key s m =
     (let cid = ks key;
          ss = (case sessionLists m cid of None \<Rightarrow> [] | Some ss \<Rightarrow> ss);
          ss = ss @ [s]
      in m\<lparr>sessionLists := (sessionLists m)(cid \<mapsto> ss)\<rparr>)"

text \<open>
  The loop of \<^verbatim>\<open>DialCluster\<close>: \<open>ss\<close> is its local slice. A session that does not open is closed and
  cut out of the slice, which is stored back before the next round.
\<close>

function dialLoop :: "'w yamux \<Rightarrow> string \<Rightarrow> session list \<Rightarrow> 'w hub \<Rightarrow> conn res \<times> 'w hub" where
  "dialLoop yx cid ss h =
     (if ss = [] then (Inl (Errorf ''no session found for cluster %q'' [Str cid]), h)
      else let (idx, r) = Intn (length ss) (rand h);
               (res, w) = Open yx (ss ! idx) (world h)
           in (case res of
                 Inl err \<Rightarrow>
                   let w = Close yx (ss ! idx) w;
                       ss = remove_at idx ss
                   in dialLoop yx cid ss
                        \<lparr>mgr = (mgr h)\<lparr>sessionLists := (sessionLists (mgr h))(cid \<mapsto> ss)\<rparr>,
                         rand = r, world = w\<rparr>
               | Inr conn \<Rightarrow> (Inr conn, h\<lparr>rand := r, world := w\<rparr>)))"
  by pat_completeness auto
termination
  by (relation "measure (\<lambda>(yx, cid, ss, h). length ss)")
     (auto simp: Intn_def)

declare dialLoop.simps [simp del]

text \<open>One round of the loop, by what it meets.\<close>

lemma dialLoop_Nil [simp]:
  "dialLoop yx cid [] h = (Inl (Errorf ''no session found for cluster %q'' [Str cid]), h)"
  by (simp add: dialLoop.simps)

lemma dialLoop_opened:
  "ss \<noteq> [] \<Longrightarrow> Intn (length ss) (rand h) = (idx, r) \<Longrightarrow>
     Open yx (ss ! idx) (world h) = (Inr c, w) \<Longrightarrow>
     dialLoop yx cid ss h = (Inr c, h\<lparr>rand := r, world := w\<rparr>)"
  by (simp add: dialLoop.simps [of yx cid ss h])

lemma dialLoop_dropped:
  "ss \<noteq> [] \<Longrightarrow> Intn (length ss) (rand h) = (idx, r) \<Longrightarrow>
     Open yx (ss ! idx) (world h) = (Inl e, w) \<Longrightarrow>
     dialLoop yx cid ss h = dialLoop yx cid (remove_at idx ss)
       \<lparr>mgr = (mgr h)\<lparr>sessionLists := (sessionLists (mgr h))(cid \<mapsto> remove_at idx ss)\<rparr>,
        rand = r, world = Close yx (ss ! idx) w\<rparr>"
  by (simp add: dialLoop.simps [of yx cid ss h] Let_def)

definition DialCluster ::
    "(NamespacedName \<Rightarrow> string) \<Rightarrow> 'w yamux \<Rightarrow> NamespacedName \<Rightarrow> 'w hub \<Rightarrow> conn res \<times> 'w hub" where
  "DialCluster ks yx key h =
     (let cid = ks key;
          ss = lookup_slice (sessionLists (mgr h)) cid
      in dialLoop yx cid ss h)"


text \<open>What the connect handler does to a hub: it registers a session and touches nothing else.\<close>

definition add_session :: "(NamespacedName \<Rightarrow> string) \<Rightarrow> NamespacedName \<Rightarrow> session \<Rightarrow> 'w hub \<Rightarrow> 'w hub" where
  "add_session ks key s h = h\<lparr>mgr := AddClusterSession ks key s (mgr h)\<rparr>"

text \<open>
  The Go interface \<^verbatim>\<open>SessionManager\<close>, through which the handlers use the session manager, and the
  session manager behind it.
\<close>

record ('c, 's) SessionManager =
  ifAddClusterSession :: "NamespacedName \<Rightarrow> session \<Rightarrow> 's \<Rightarrow> 's"
  ifDialCluster :: "NamespacedName \<Rightarrow> 's \<Rightarrow> 'c res \<times> 's"

definition sessionManager_I :: "(NamespacedName \<Rightarrow> string) \<Rightarrow> 'w yamux \<Rightarrow> (conn, 'w hub) SessionManager" where
  "sessionManager_I ks yx = \<lparr>ifAddClusterSession = add_session ks, ifDialCluster = DialCluster ks yx\<rparr>"

section \<open>What dialling promises\<close>

text \<open>
  The abstract view of the sessions of one cluster is a multiset: neither the order nor the index
  of a session means anything to a client. \<open>dial_spec yx cid M w res M' w'\<close> describes one call: it
  opens a stream on some session of \<open>M\<close>; a session that fails is closed and gone; with no session
  left the call fails.
\<close>

inductive dial_spec ::
    "'w yamux \<Rightarrow> string \<Rightarrow> session multiset \<Rightarrow> 'w \<Rightarrow> conn res \<Rightarrow> session multiset \<Rightarrow> 'w \<Rightarrow> bool"
  for yx :: "'w yamux" and cid :: string where
  exhausted: "dial_spec yx cid {#} w (Inl (Errorf ''no session found for cluster %q'' [Str cid])) {#} w"
| opened: "s \<in># M \<Longrightarrow> Open yx s w = (Inr c, w') \<Longrightarrow> dial_spec yx cid M w (Inr c) M w'"
| dropped: "s \<in># M \<Longrightarrow> Open yx s w = (Inl e, w1) \<Longrightarrow>
     dial_spec yx cid (M - {#s#}) (Close yx s w1) res M' w' \<Longrightarrow> dial_spec yx cid M w res M' w'"


lemma dial_spec_sub: "dial_spec yx cid M w res M' w' \<Longrightarrow> M' \<subseteq># M"
  by (induction rule: dial_spec.induct) (auto intro: subset_mset.trans)

text \<open>A failed call has dropped every session, and its error is the one that names the cluster.\<close>

lemma dial_spec_error:
  "dial_spec yx cid M w res M' w' \<Longrightarrow> res = Inl e \<Longrightarrow>
     M' = {#} \<and> e = Errorf ''no session found for cluster %q'' [Str cid]"
  by (induction rule: dial_spec.induct) auto

text \<open>A stream that was handed out was opened on a session that is still registered.\<close>

lemma dial_spec_opened:
  "dial_spec yx cid M w res M' w' \<Longrightarrow> res = Inr c \<Longrightarrow> \<exists>s w0. s \<in># M' \<and> Open yx s w0 = (Inr c, w')"
  by (induction rule: dial_spec.induct) auto

text \<open>A session that opens in every state of the world is never dropped, and makes the call succeed.\<close>

definition live :: "'w yamux \<Rightarrow> session \<Rightarrow> bool" where
  "live yx s \<longleftrightarrow> (\<forall>w. \<exists>c w'. Open yx s w = (Inr c, w'))"

lemma liveD: "live yx s \<Longrightarrow> Open yx s w \<noteq> (Inl e, w')"
  by (metis Inl_Inr_False live_def prod.inject)

lemma dial_spec_keeps_live:
  "dial_spec yx cid M w res M' w' \<Longrightarrow> live yx s \<Longrightarrow> s \<in># M \<Longrightarrow> s \<in># M'"
proof (induction rule: dial_spec.induct)
  case (dropped t M w e w1 res M' w')
  from dropped.prems(1) dropped.hyps(2) have "s \<noteq> t" by (auto dest: liveD)
  with dropped.prems(2) have "s \<in># M - {#t#}" by (simp add: in_diff_count)
  with dropped show ?case by blast
qed simp_all

lemma dial_spec_live:
  "dial_spec yx cid M w res M' w' \<Longrightarrow> live yx s \<Longrightarrow> s \<in># M \<Longrightarrow> \<exists>c. res = Inr c"
  by (metis Inr_Inl_False dial_spec_error dial_spec_keeps_live empty_iff old.sum.exhaust
      set_mset_empty)

section \<open>The loop implements it\<close>

lemma count_le_1_distinct: "(\<And>s. count (mset xs) s \<le> 1) \<Longrightarrow> distinct xs"
proof (induction xs)
  case (Cons x xs)
  have c: "count (mset xs) x = 0" using Cons.prems [of x] by simp
  then have "x \<notin> set xs" by (simp add: count_mset_0_iff)
  moreover have "count (mset xs) s \<le> 1" for s
    using Cons.prems [of s] c by (cases "x = s") (simp_all del: count_mset_0_iff)
  ultimately show ?case using Cons.IH by simp
qed simp

lemma distinct_sub:
  assumes "mset xs \<subseteq># mset ys" and "distinct ys"
  shows "distinct xs"
proof (rule count_le_1_distinct)
  fix s
  have "count (mset xs) s \<le> count (mset ys) s" by (rule mset_subset_eq_count [OF assms(1)])
  also have "\<dots> \<le> 1" using assms(2) by (simp add: distinct_count_atmost_1)
  finally show "count (mset xs) s \<le> 1" .
qed

lemma mset_remove_at: "i < length ss \<Longrightarrow> mset (remove_at i ss) = mset ss - {#ss ! i#}"
proof -
  assume "i < length ss"
  then have "mset ss = mset (take i ss @ ss ! i # drop (Suc i) ss)"
    by (metis remove_at_split)
  then show ?thesis by (simp add: remove_at_def)
qed

lemma lookup_hub_upd [simp]:
  "sessions (m\<lparr>sessionLists := (sessionLists m)(cid \<mapsto> ss)\<rparr>) i = (if i = cid then ss else sessions m i)"
  by (simp add: sessions_def)

lemma dialLoop_spec:
  assumes "dialLoop yx cid ss h = (res, h')" and "sessions (mgr h) cid = ss"
  shows "dial_spec yx cid (mset ss) (world h) res (mset (sessions (mgr h') cid)) (world h')
    \<and> (\<forall>i. i \<noteq> cid \<longrightarrow> sessions (mgr h') i = sessions (mgr h) i)"
  using assms
proof (induction yx cid ss h arbitrary: res h' rule: dialLoop.induct)
  case (1 yx cid ss h)
  show ?case
  proof (cases "ss = []")
    case True
    with 1 show ?thesis by (auto intro: dial_spec.exhausted)
  next
    case False
    obtain idx r where i: "Intn (length ss) (rand h) = (idx, r)" by fastforce
    with False have idx: "idx < length ss" using Intn_less by blast
    then have mem: "ss ! idx \<in># mset ss" by simp
    obtain ores w where o: "Open yx (ss ! idx) (world h) = (ores, w)" by fastforce
    show ?thesis
    proof (cases ores)
      case (Inr c)
      have "dial_spec yx cid (mset ss) (world h) (Inr c) (mset ss) w"
        by (rule dial_spec.opened [OF mem o [unfolded Inr]])
      with 1 o Inr show ?thesis by (auto simp: dialLoop_opened [OF False i])
    next
      case (Inl e)
      let ?h = "\<lparr>mgr = (mgr h)\<lparr>sessionLists := (sessionLists (mgr h))(cid \<mapsto> remove_at idx ss)\<rparr>,
        rand = r, world = Close yx (ss ! idx) w\<rparr>"
      from 1 False i o Inl have "dialLoop yx cid (remove_at idx ss) ?h = (res, h')"
        by (simp add: dialLoop_dropped [OF False i])
      then have IH: "dial_spec yx cid (mset (remove_at idx ss)) (Close yx (ss ! idx) w) res
          (mset (sessions (mgr h') cid)) (world h')
        \<and> (\<forall>i. i \<noteq> cid \<longrightarrow> sessions (mgr h') i = sessions (mgr h) i)"
        using "1.IH" [OF False i [symmetric] refl o [symmetric] refl Inl refl refl] by simp
      then have "dial_spec yx cid (mset ss) (world h) res (mset (sessions (mgr h') cid)) (world h')"
        by (intro dial_spec.dropped [OF mem o [unfolded Inl]]) (simp add: mset_remove_at [OF idx])
      with IH show ?thesis by blast
    qed
  qed
qed


text \<open>
  Conversely every behaviour the abstract specification allows is one the code shows for some
  random numbers: the choice among the live sessions of a cluster is not restricted in any way.
\<close>

lemma dial_spec_realised:
  assumes "dial_spec yx cid M w res M' w'"
    and "mset ss = M" and "world h = w" and "sessions (mgr h) cid = ss"
  shows "\<exists>r h'. dialLoop yx cid ss (h\<lparr>rand := r\<rparr>) = (res, h')
    \<and> mset (sessions (mgr h') cid) = M' \<and> world h' = w'"
  using assms
proof (induction arbitrary: ss h rule: dial_spec.induct)
  case (exhausted w)
  then show ?case by simp
next
  case (opened s M w c w')
  then obtain i where i: "i < length ss" "ss ! i = s" by (metis in_set_conv_nth set_mset_mset)
  then have "ss \<noteq> []" by auto
  from dialLoop_opened [OF this, of "h\<lparr>rand := i ## undefined\<rparr>" i undefined yx c w' cid] opened i
  show ?case
    by (intro exI [of _ "i ## undefined"] exI [of _ "h\<lparr>rand := undefined, world := w'\<rparr>"])
       (simp add: Intn_any)
next
  case (dropped s M w e w1 res M' w')
  then obtain i where i: "i < length ss" "ss ! i = s" by (metis in_set_conv_nth set_mset_mset)
  then have ne: "ss \<noteq> []" by auto
  let ?g = "\<lparr>mgr = (mgr h)\<lparr>sessionLists := (sessionLists (mgr h))(cid \<mapsto> remove_at i ss)\<rparr>,
        rand = rand h, world = Close yx s w1\<rparr>"
  have "mset (remove_at i ss) = M - {#s#}" using i dropped.prems by (simp add: mset_remove_at)
  from dropped.IH [OF this, of ?g] obtain r h' where r:
    "dialLoop yx cid (remove_at i ss) (?g\<lparr>rand := r\<rparr>) = (res, h')"
    "mset (sessions (mgr h') cid) = M'" "world h' = w'" by auto
  have "Open yx (ss ! i) (world (h\<lparr>rand := i ## r\<rparr>)) = (Inl e, w1)"
    using dropped.hyps(2) dropped.prems i by simp
  moreover have "Intn (length ss) (rand (h\<lparr>rand := i ## r\<rparr>)) = (i, r)"
    using i by (simp add: Intn_any)
  ultimately have "dialLoop yx cid ss (h\<lparr>rand := i ## r\<rparr>) = (res, h')"
    using i r by (simp add: dialLoop_dropped [OF ne])
  with r show ?case by blast
qed


section \<open>The interface\<close>

text \<open>
  The Go interface \<^verbatim>\<open>SessionManager\<close> as its clients rely on it: \<open>held\<close> is the abstract view of the
  provider's state, \<open>outside\<close> the world that \<^verbatim>\<open>yamux\<close> acts on.
\<close>

locale session_manager =
  fixes add :: "NamespacedName \<Rightarrow> session \<Rightarrow> 's \<Rightarrow> 's"
    and dial :: "NamespacedName \<Rightarrow> 's \<Rightarrow> conn res \<times> 's"
    and ks :: "NamespacedName \<Rightarrow> string"
    and yx :: "'w yamux"
    and held :: "'s \<Rightarrow> string \<Rightarrow> session multiset"
    and outside :: "'s \<Rightarrow> 'w"
  assumes add_held: "held (add k s h) i = (if i = ks k then add_mset s (held h i) else held h i)"
    and add_outside: "outside (add k s h) = outside h"
    and dial_held: "dial k h = (r, h') \<Longrightarrow>
      dial_spec yx (ks k) (held h (ks k)) (outside h) r (held h' (ks k)) (outside h')"
    and dial_other: "dial k h = (r, h') \<Longrightarrow> i \<noteq> ks k \<Longrightarrow> held h' i = held h i"
begin

lemma dial_sub: "dial k h = (r, h') \<Longrightarrow> held h' i \<subseteq># held h i"
  by (cases "i = ks k") (auto dest: dial_held dial_spec_sub simp: dial_other)

lemma dial_live: "live yx s \<Longrightarrow> s \<in># held h (ks k) \<Longrightarrow> \<exists>c h'. dial k h = (Inr c, h')"
  by (metis dial_held dial_spec_live surj_pair)

lemma dial_keeps_live: "dial k h = (r, h') \<Longrightarrow> live yx s \<Longrightarrow> s \<in># held h i \<Longrightarrow> s \<in># held h' i"
  by (cases "i = ks k") (auto dest: dial_held intro: dial_spec_keeps_live simp: dial_other)

lemma dial_error:
  "dial k h = (Inl e, h') \<Longrightarrow>
     held h' (ks k) = {#} \<and> e = Errorf ''no session found for cluster %q'' [Str (ks k)]"
  by (drule dial_held) (auto dest: dial_spec_error)

lemma dial_opened:
  "dial k h = (Inr c, h') \<Longrightarrow>
     \<exists>s w0. s \<in># held h (ks k) \<and> s \<in># held h' (ks k) \<and> Open yx s w0 = (Inr c, outside h')"
  by (frule dial_held) (auto dest!: dial_spec_opened dest: dial_sub mset_subset_eqD)

end

definition held :: "'w hub \<Rightarrow> string \<Rightarrow> session multiset" where
  "held h cid = mset (sessions (mgr h) cid)"

lemma sessions_Add:
  "sessions (AddClusterSession ks k s m) i =
     (if i = ks k then sessions m i @ [s] else sessions m i)"
  by (simp add: AddClusterSession_def sessions_def lookup_slice_def Let_def split: option.split)

lemma DialCluster_loop: "DialCluster ks yx k h = dialLoop yx (ks k) (sessions (mgr h) (ks k)) h"
  by (simp add: DialCluster_def sessions_def Let_def)

interpretation sm: session_manager "add_session ks" "DialCluster ks yx" ks yx held world
  for ks and yx :: "'w yamux"
proof unfold_locales
  fix k :: NamespacedName and h h' :: "'w hub" and r i and s :: session
  show "held (add_session ks k s h) i = (if i = ks k then add_mset s (held h i) else held h i)"
    by (simp add: held_def add_session_def sessions_Add)
  show "world (add_session ks k s h) = world h"
    by (simp add: add_session_def)
  assume d: "DialCluster ks yx k h = (r, h')"
  show "dial_spec yx (ks k) (held h (ks k)) (world h) r (held h' (ks k)) (world h')"
    using dialLoop_spec [OF d [unfolded DialCluster_loop] refl] by (simp add: held_def)
  assume "i \<noteq> ks k"
  then show "held h' i = held h i"
    using dialLoop_spec [OF d [unfolded DialCluster_loop] refl] by (simp add: held_def)
qed

section \<open>Interleavings\<close>

text \<open>
  Handlers run concurrently, and the mutex makes each operation one step. A step registers any session
  under any cluster, dials a cluster, or lets the world change (agents come and go). The second component
  is a ghost: the log of every registration, newest first.
\<close>

inductive hub_step ::
    "(NamespacedName \<Rightarrow> string) \<Rightarrow> 'w yamux \<Rightarrow> 'w hub \<times> (NamespacedName \<times> session) list \<Rightarrow>
       'w hub \<times> (NamespacedName \<times> session) list \<Rightarrow> bool"
  for ks :: "NamespacedName \<Rightarrow> string" and yx :: "'w yamux" where
  register: "hub_step ks yx (h, log) (add_session ks k s h, (k, s) # log)"
| dial: "DialCluster ks yx k h = (r, h') \<Longrightarrow> hub_step ks yx (h, log) (h', log)"
| elsewhere: "hub_step ks yx (h, log) (h\<lparr>world := w\<rparr>, log)"

inductive hub_reachable ::
    "(NamespacedName \<Rightarrow> string) \<Rightarrow> 'w yamux \<Rightarrow> 'w hub \<times> (NamespacedName \<times> session) list \<Rightarrow> bool"
  for ks :: "NamespacedName \<Rightarrow> string" and yx :: "'w yamux" where
  start: "hub_reachable ks yx (\<lparr>mgr = NewSessionManager, rand = r, world = w\<rparr>, [])"
| step: "hub_reachable ks yx a \<Longrightarrow> hub_step ks yx a b \<Longrightarrow> hub_reachable ks yx b"

text \<open>The sessions registered under an id, by whatever key.\<close>

definition logged :: "(NamespacedName \<Rightarrow> string) \<Rightarrow> (NamespacedName \<times> session) list \<Rightarrow> string \<Rightarrow> session multiset" where
  "logged ks log cid = mset (map snd (filter (\<lambda>p. ks (fst p) = cid) log))"

lemma logged_Nil [simp]: "logged ks [] cid = {#}"
  by (simp add: logged_def)

lemma logged_Cons [simp]:
  "logged ks ((k, s) # log) cid = (if ks k = cid then add_mset s (logged ks log cid) else logged ks log cid)"
  by (simp add: logged_def)

lemma logged_mem: "s \<in># logged ks log cid \<longleftrightarrow> (\<exists>k. ks k = cid \<and> (k, s) \<in> set log)"
  by (force simp: logged_def)

text \<open>What holds in every state: a session is held as often as it was registered, at most, and only there.\<close>

definition hub_inv :: "(NamespacedName \<Rightarrow> string) \<Rightarrow> 'w hub \<times> (NamespacedName \<times> session) list \<Rightarrow> bool" where
  "hub_inv ks a \<longleftrightarrow> (\<forall>cid. held (fst a) cid \<subseteq># logged ks (snd a) cid)"

lemma hub_inv_start: "hub_inv ks (\<lparr>mgr = NewSessionManager, rand = r, world = w\<rparr>, [])"
  by (simp add: hub_inv_def held_def sessions_def NewSessionManager_def)

lemma hub_inv_step: "hub_step ks yx a b \<Longrightarrow> hub_inv ks a \<Longrightarrow> hub_inv ks b"
proof (induction rule: hub_step.induct)
  case (register h log k s)
  then show ?case by (auto simp: hub_inv_def sm.add_held)
next
  case (dial k h r h' log)
  then show ?case
    using sm.dial_sub [OF dial.hyps] by (auto simp: hub_inv_def intro: subset_mset.trans)
next
  case (elsewhere h log w)
  then show ?case by (simp add: hub_inv_def held_def)
qed

lemma hub_reachable_inv: "hub_reachable ks yx a \<Longrightarrow> hub_inv ks a"
  by (induction rule: hub_reachable.induct) (auto intro: hub_inv_start hub_inv_step)

text \<open>
  The id of a cluster as apimachinery documents it: namespace and name with a slash between them. A
  namespace has no slash, so two clusters never have the same id.
\<close>

definition slash_free :: "NamespacedName \<Rightarrow> bool" where
  "slash_free k \<longleftrightarrow> CHR 0x2F \<notin> set (Namespace k)"

definition String_doc :: "(NamespacedName \<Rightarrow> string) \<Rightarrow> bool" where
  "String_doc ks \<longleftrightarrow> (\<forall>k. ks k = Namespace k @ ''/'' @ Name k)"

lemma split_unique: "a @ x # b = c @ x # d \<Longrightarrow> x \<notin> set a \<Longrightarrow> x \<notin> set c \<Longrightarrow> a = c \<and> b = d"
  by (induction a arbitrary: c) (auto simp: Cons_eq_append_conv)

lemma String_inj: "String_doc ks \<Longrightarrow> slash_free k \<Longrightarrow> slash_free k' \<Longrightarrow> ks k = ks k' \<Longrightarrow> k = k'"
  unfolding String_doc_def slash_free_def by (cases k, cases k') (auto dest: split_unique)

lemma logged_own:
  assumes "String_doc ks" and "\<forall>p \<in> set log. slash_free (fst p)" and "slash_free k"
  shows "logged ks log (ks k) = mset (map snd (filter (\<lambda>p. fst p = k) log))"
proof -
  have "(ks (fst p) = ks k) = (fst p = k)" if "p \<in> set log" for p
    using String_inj [OF assms(1) _ assms(3)] assms(2) that by metis
  then have "filter (\<lambda>p. ks (fst p) = ks k) log = filter (\<lambda>p. fst p = k) log" by (rule filter_cong [OF refl])
  then show ?thesis by (simp add: logged_def)
qed

lemma registered_once: "distinct (map snd log) \<Longrightarrow> (k, s) \<in> set log \<Longrightarrow> (k', s) \<in> set log \<Longrightarrow> k = k'"
  by (induction log) (force simp: image_iff)+

section \<open>Properties\<close>

text \<open>
  C7: \<open>DialCluster\<close> and its abstract specification describe the same behaviours. Over all random
  numbers, the results, the sessions left registered for the cluster and the effects on the world
  are exactly those \<open>dial_spec\<close> allows: some registered session is opened, sessions that fail are
  closed and dropped, and which session is tried first is unrestricted.
\<close>

theorem DialCluster_refines:
  "(\<exists>r h'. DialCluster ks yx k (h\<lparr>rand := r\<rparr>) = (res, h') \<and> held h' (ks k) = M' \<and> world h' = w')
   \<longleftrightarrow> dial_spec yx (ks k) (held h (ks k)) (world h) res M' w'"
proof
  assume "\<exists>r h'. DialCluster ks yx k (h\<lparr>rand := r\<rparr>) = (res, h') \<and> held h' (ks k) = M' \<and> world h' = w'"
  then show "dial_spec yx (ks k) (held h (ks k)) (world h) res M' w'"
    by (auto dest: sm.dial_held simp: held_def)
next
  assume "dial_spec yx (ks k) (held h (ks k)) (world h) res M' w'"
  from dial_spec_realised [OF this, of "sessions (mgr h) (ks k)" h]
  show "\<exists>r h'. DialCluster ks yx k (h\<lparr>rand := r\<rparr>) = (res, h') \<and> held h' (ks k) = M' \<and> world h' = w'"
    by (simp add: held_def DialCluster_loop)
qed

text \<open>A small yamux for the witnesses: session 7 is dead, every other session opens.\<close>

definition demo_yamux :: "nat yamux" where
  "demo_yamux = \<lparr>Open = (\<lambda>s w. if s = 7 then (Inl (errors_New ''session shutdown''), w) else (Inr (100 + s), Suc w)),
     Close = (\<lambda>s w. w)\<rparr>"

definition demo_key :: NamespacedName where
  "demo_key = \<lparr>Namespace = ''default'', Name = ''sample''\<rparr>"

definition demo_ks :: "NamespacedName \<Rightarrow> string" where
  "demo_ks k = Namespace k @ ''/'' @ Name k"

definition demo_hub :: "nat hub" where
  "demo_hub = add_session demo_ks demo_key 3 (add_session demo_ks demo_key 7
     \<lparr>mgr = NewSessionManager, rand = sconst 0, world = 0\<rparr>)"

lemma demo_live: "s \<noteq> 7 \<Longrightarrow> live demo_yamux s"
  by (simp add: live_def demo_yamux_def)

lemma demo_held: "held demo_hub (demo_ks demo_key) = {#3, 7#}"
  by (simp add: demo_hub_def sm.add_held)
     (simp add: held_def sessions_def NewSessionManager_def)

text \<open>
  When dialling a cluster fails, every session it had was found dead and is gone, the error
  names the cluster, and the sessions of all other clusters are as they were.
\<close>

lemma DialCluster_fails:
  assumes "DialCluster ks yx k h = (Inl e, h')"
  shows "sessions (mgr h') (ks k) = []
    \<and> Error e = ''no session found for cluster '' @ Quote (ks k)
    \<and> (\<forall>i. i \<noteq> ks k \<longrightarrow> held h' i = held h i)"
  using sm.dial_error [OF assms] sm.dial_other [OF assms] by (simp add: held_def)

lemma demo_reachable: "hub_reachable demo_ks demo_yamux (demo_hub, [(demo_key, 3), (demo_key, 7)])"
  unfolding demo_hub_def
  by (rule hub_reachable.step [OF hub_reachable.step [OF hub_reachable.start]]; rule hub_step.register)

lemma demo_String: "String_doc demo_ks"
  by (simp add: String_doc_def demo_ks_def)

text \<open>
  C13: Whatever is registered and dialled, a cluster holds only sessions that were registered for this very
  cluster, namespace and name, and none more often than it was registered; so as long as no session is
  registered twice, each is held once and by one cluster only.
\<close>

theorem sessions_disjoint:
  assumes "hub_reachable ks yx (h, log)" and "String_doc ks" and "\<forall>p \<in> set log. slash_free (fst p)"
    and "slash_free k"
  shows "mset (sessions (mgr h) (ks k)) \<subseteq># mset (map snd (filter (\<lambda>p. fst p = k) log))
    \<and> (distinct (map snd log) \<longrightarrow> distinct (sessions (mgr h) (ks k))
         \<and> (\<forall>k'. slash_free k' \<longrightarrow> k' \<noteq> k \<longrightarrow> set (sessions (mgr h) (ks k)) \<inter> set (sessions (mgr h) (ks k')) = {}))"
proof (intro conjI impI allI)
  have own: "mset (sessions (mgr h) (ks j)) \<subseteq># mset (map snd (filter (\<lambda>p. fst p = j) log))" if "slash_free j" for j
    using hub_reachable_inv [OF assms(1)] unfolding hub_inv_def held_def fst_conv snd_conv
    by (metis logged_own [OF assms(2,3) that])
  from own [OF assms(4)] show "mset (sessions (mgr h) (ks k)) \<subseteq># mset (map snd (filter (\<lambda>p. fst p = k) log))" .
  assume d: "distinct (map snd log)"
  then have "distinct (map snd (filter (\<lambda>p. fst p = k) log))" by (rule distinct_map_filter)
  from distinct_sub [OF own [OF assms(4)] this] show "distinct (sessions (mgr h) (ks k))" .
  fix k' assume k': "slash_free k'" "k' \<noteq> k"
  have "(j, s) \<in> set log" if "slash_free j" "s \<in> set (sessions (mgr h) (ks j))" for j s
    using mset_subset_eqD [OF own [OF that(1)], of s] that(2) by auto
  then show "set (sessions (mgr h) (ks k)) \<inter> set (sessions (mgr h) (ks k')) = {}"
    using registered_once [OF d] assms(4) k' by blast
qed

theorem sessions_disjoint_witness:
  "mset (sessions (mgr demo_hub) (demo_ks demo_key)) \<subseteq># {#3, 7#} \<and> distinct (sessions (mgr demo_hub) (demo_ks demo_key))"
proof -
  have k: "slash_free demo_key" by (simp add: slash_free_def demo_key_def)
  then have "\<forall>p \<in> set [(demo_key, 3 :: session), (demo_key, 7)]. slash_free (fst p)" by simp
  from sessions_disjoint [OF demo_reachable demo_String this k] show ?thesis by simp
qed

lemma hub_step_keeps_live:
  "hub_step ks yx a b \<Longrightarrow> live yx s \<Longrightarrow> s \<in># held (fst a) i \<Longrightarrow> s \<in># held (fst b) i"
proof (induction rule: hub_step.induct)
  case (register h log k t)
  then show ?case by (auto simp: sm.add_held)
next
  case (dial k h r h' log)
  then show ?case using sm.dial_keeps_live [OF dial.hyps dial.prems(1)] by simp
next
  case (elsewhere h log w)
  then show ?case by (simp add: held_def)
qed

lemma hub_steps_keep_live:
  assumes "(hub_step ks yx)\<^sup>*\<^sup>* a b" and "live yx s" and "s \<in># held (fst a) i"
  shows "s \<in># held (fst b) i"
  using assms by (induction rule: rtranclp_induct) (auto intro: hub_step_keeps_live)

text \<open>
  A session that can be opened keeps its cluster reachable. Through any number of steps, registrations
  and dials by any handler included, it stays registered, and in every state on the way dialling the cluster
  succeeds, however many dead sessions are registered beside it and whichever the random numbers pick first.
\<close>

lemma live_session_serves:
  assumes "(hub_step ks yx)\<^sup>*\<^sup>* (h, log) (h', log')" and "live yx s" and "s \<in># held h (ks k)"
  shows "s \<in># held h' (ks k) \<and> (\<exists>c h''. DialCluster ks yx k h' = (Inr c, h'') \<and> s \<in># held h'' (ks k))"
proof -
  have s: "s \<in># held h' (ks k)" using hub_steps_keep_live [OF assms(1,2)] assms(3) by simp
  with sm.dial_live [where ks = ks and k = k, OF assms(2) s] sm.dial_keeps_live assms(2) show ?thesis by blast
qed

end
