(* ===== verification/Session_Locking.thy ===== *)
theory Session_Locking
  imports Session_Manager
begin

text \<open>
  The session manager with its mutex: the goroutines of \<^verbatim>\<open>src/pkg/hub/cluster/session_manager.go\<close> statement by
  statement, so that goroutines block on the mutex and the world changes while one of them waits in
  \<^verbatim>\<open>Session.Open\<close> or \<^verbatim>\<open>Session.Close\<close>. Every such run is equivalent to the calls made one after the other
  (\<open>calls_linearise\<close>), which is what \<open>Session_Manager\<close> and the theories on top of it assume.
\<close>

section \<open>Goroutines\<close>

text \<open>
  Where a goroutine is: outside of the session manager; before \<^verbatim>\<open>Lock\<close> of one of the two methods; behind it. In
  \<open>Loop\<close> it is at the head of the loop with its local slice, in \<open>Closing\<close> the session at an index has refused.
\<close>

datatype thread =
    Idle
  | AtAdd NamespacedName session
  | InAdd NamespacedName session
  | AtDial NamespacedName
  | Loop NamespacedName "session list"
  | Closing NamespacedName "session list" nat

text \<open>The calls that have returned, newest first, are a ghost.\<close>

datatype call = Added NamespacedName session | Dialled NamespacedName "conn res"

record 'w locked =
  mutex :: "nat option"
  thread_at :: "nat \<Rightarrow> thread"
  shared :: "'w hub"
  calls :: "call list"

text \<open>A step is one of a goroutine, or a change of the world outside (\<open>None\<close>).\<close>

inductive lock_step ::
    "(NamespacedName \<Rightarrow> string) \<Rightarrow> 'w yamux \<Rightarrow> nat option \<Rightarrow> 'w locked \<Rightarrow> 'w locked \<Rightarrow> bool"
  for ks yx where
  call_add: "thread_at a t = Idle \<Longrightarrow> lock_step ks yx (Some t) a (a\<lparr>thread_at := (thread_at a)(t := AtAdd k s)\<rparr>)"
| lock_add: "thread_at a t = AtAdd k s \<Longrightarrow> mutex a = None \<Longrightarrow>
     lock_step ks yx (Some t) a (a\<lparr>mutex := Some t, thread_at := (thread_at a)(t := InAdd k s)\<rparr>)"
| add: "thread_at a t = InAdd k s \<Longrightarrow>
     lock_step ks yx (Some t) a
       (a\<lparr>mutex := None, thread_at := (thread_at a)(t := Idle), shared := add_session ks k s (shared a),
          calls := Added k s # calls a\<rparr>)"
| call_dial: "thread_at a t = Idle \<Longrightarrow> lock_step ks yx (Some t) a (a\<lparr>thread_at := (thread_at a)(t := AtDial k)\<rparr>)"
| lock_dial: "thread_at a t = AtDial k \<Longrightarrow> mutex a = None \<Longrightarrow>
     lock_step ks yx (Some t) a
       (a\<lparr>mutex := Some t,
          thread_at := (thread_at a)(t := Loop k (lookup_slice (sessionLists (mgr (shared a))) (ks k)))\<rparr>)"
| no_session: "thread_at a t = Loop k [] \<Longrightarrow>
     lock_step ks yx (Some t) a
       (a\<lparr>mutex := None, thread_at := (thread_at a)(t := Idle),
          calls := Dialled k (Inl (Errorf ''no session found for cluster %q'' [Str (ks k)])) # calls a\<rparr>)"
| opened: "thread_at a t = Loop k ss \<Longrightarrow> ss \<noteq> [] \<Longrightarrow> Intn (length ss) (rand (shared a)) = (idx, r) \<Longrightarrow>
     Open yx (ss ! idx) (world (shared a)) = (Inr c, w) \<Longrightarrow>
     lock_step ks yx (Some t) a
       (a\<lparr>mutex := None, thread_at := (thread_at a)(t := Idle), shared := (shared a)\<lparr>rand := r, world := w\<rparr>,
          calls := Dialled k (Inr c) # calls a\<rparr>)"
| refused: "thread_at a t = Loop k ss \<Longrightarrow> ss \<noteq> [] \<Longrightarrow> Intn (length ss) (rand (shared a)) = (idx, r) \<Longrightarrow>
     Open yx (ss ! idx) (world (shared a)) = (Inl e, w) \<Longrightarrow>
     lock_step ks yx (Some t) a
       (a\<lparr>thread_at := (thread_at a)(t := Closing k ss idx), shared := (shared a)\<lparr>rand := r, world := w\<rparr>\<rparr>)"
| closed: "thread_at a t = Closing k ss idx \<Longrightarrow>
     lock_step ks yx (Some t) a
       (a\<lparr>thread_at := (thread_at a)(t := Loop k (remove_at idx ss)),
          shared := (shared a)\<lparr>mgr := (mgr (shared a))\<lparr>sessionLists :=
              (sessionLists (mgr (shared a)))(ks k \<mapsto> remove_at idx ss)\<rparr>,
            world := Close yx (ss ! idx) (world (shared a))\<rparr>\<rparr>)"
| elsewhere: "lock_step ks yx None a (a\<lparr>shared := (shared a)\<lparr>world := w\<rparr>\<rparr>)"

inductive lock_reachable :: "(NamespacedName \<Rightarrow> string) \<Rightarrow> 'w yamux \<Rightarrow> rng \<Rightarrow> 'w locked \<Rightarrow> bool"
  for ks yx r0 where
  start: "lock_reachable ks yx r0
     \<lparr>mutex = None, thread_at = (\<lambda>_. Idle), shared = \<lparr>mgr = NewSessionManager, rand = r0, world = w\<rparr>, calls = []\<rparr>"
| step: "lock_reachable ks yx r0 a \<Longrightarrow> lock_step ks yx l a b \<Longrightarrow> lock_reachable ks yx r0 b"

fun critical :: "thread \<Rightarrow> bool" where
  "critical (InAdd k s) = True"
| "critical (Loop k ss) = True"
| "critical (Closing k ss idx) = True"
| "critical _ = False"

section \<open>Calls one after the other\<close>

text \<open>
  While a call waits the world changes. A call that is made in one step sees the same if the world of its
  step holds a list of the worlds in which its calls of yamux are made.
\<close>

definition at_worlds :: "'w yamux \<Rightarrow> ('w \<times> 'w list) yamux" where
  "at_worlds yx =
     \<lparr>Open = (\<lambda>s (w, vs). case vs of
          [] \<Rightarrow> (let (res, w) = Open yx s w in (res, (w, [])))
        | v # vs \<Rightarrow> (let (res, w) = Open yx s v in (res, (w, vs)))),
      Close = (\<lambda>s (w, vs). case vs of [] \<Rightarrow> (Close yx s w, []) | v # vs \<Rightarrow> (Close yx s v, vs))\<rparr>"

lemma at_worlds_Cons [simp]:
  "Open (at_worlds yx) s (w, v # vs) = (fst (Open yx s v), (snd (Open yx s v), vs))"
  "Close (at_worlds yx) s (w, v # vs) = (Close yx s v, vs)"
  by (simp_all add: at_worlds_def split: prod.split)

text \<open>What the calls, made one after the other, make of session manager and random numbers.\<close>

inductive sequential ::
    "(NamespacedName \<Rightarrow> string) \<Rightarrow> 'w yamux \<Rightarrow> sessionManager \<times> rng \<Rightarrow> call list \<Rightarrow> sessionManager \<times> rng \<Rightarrow> bool"
  for ks yx a where
  none: "sequential ks yx a [] a"
| added: "sequential ks yx a cs (m, r) \<Longrightarrow> sequential ks yx a (Added k s # cs) (AddClusterSession ks k s m, r)"
| dialled: "sequential ks yx a cs (m, r) \<Longrightarrow>
     DialCluster ks (at_worlds yx) k \<lparr>mgr = m, rand = r, world = wv\<rparr> = (res, h) \<Longrightarrow>
     sequential ks yx a (Dialled k res # cs) (mgr h, rand h)"

section \<open>A call in progress\<close>

text \<open>
  \<open>so_far k m r f\<close>: the dial that began with \<open>m\<close> and \<open>r\<close> has, in the worlds it met so far, come to where \<open>f\<close>
  is what it has still to do.
\<close>

definition so_far ::
    "(NamespacedName \<Rightarrow> string) \<Rightarrow> 'w yamux \<Rightarrow> NamespacedName \<Rightarrow> sessionManager \<Rightarrow> rng \<Rightarrow>
       ('w \<times> 'w list \<Rightarrow> conn res \<times> ('w \<times> 'w list) hub) \<Rightarrow> bool" where
  "so_far ks yx k m r f \<longleftrightarrow>
     (\<exists>w vs. \<forall>us. \<exists>w'. DialCluster ks (at_worlds yx) k \<lparr>mgr = m, rand = r, world = (w, vs @ us)\<rparr> = f (w', us))"

lemma so_far_start:
  "so_far ks yx k m r (\<lambda>W. dialLoop (at_worlds yx) (ks k) (lookup_slice (sessionLists m) (ks k)) \<lparr>mgr = m, rand = r, world = W\<rparr>)"
  unfolding so_far_def
  by (rule exI [of _ undefined], rule exI [of _ "[]"]) (auto simp: DialCluster_def Let_def)

lemma so_far_step:
  assumes "so_far ks yx k m r f" and "\<And>w us. \<exists>w'. f (w, v # us) = g (w', us)"
  shows "so_far ks yx k m r g"
proof -
  obtain w vs where d: "\<And>us. \<exists>w'. DialCluster ks (at_worlds yx) k \<lparr>mgr = m, rand = r, world = (w, vs @ us)\<rparr> = f (w', us)"
    using assms(1) unfolding so_far_def by blast
  have "\<exists>w'. DialCluster ks (at_worlds yx) k \<lparr>mgr = m, rand = r, world = (w, (vs @ [v]) @ us)\<rparr> = g (w', us)" for us
    using d [of "v # us"] assms(2) by (metis append.assoc append_Cons append_Nil)
  then show ?thesis unfolding so_far_def by blast
qed

lemma so_far_end:
  assumes "so_far ks yx k m r f" and "\<And>w. f (w, us) = (res, h w)"
  shows "\<exists>wv w. DialCluster ks (at_worlds yx) k \<lparr>mgr = m, rand = r, world = wv\<rparr> = (res, h w)"
  using assms unfolding so_far_def by metis

text \<open>What is left of a dial at the head of the loop, and after a session has refused.\<close>

definition loop_rest :: "(NamespacedName \<Rightarrow> string) \<Rightarrow> 'w yamux \<Rightarrow> NamespacedName \<Rightarrow> session list \<Rightarrow> 'w hub \<Rightarrow>
    'w \<times> 'w list \<Rightarrow> conn res \<times> ('w \<times> 'w list) hub" where
  "loop_rest ks yx k ss h W = dialLoop (at_worlds yx) (ks k) ss \<lparr>mgr = mgr h, rand = rand h, world = W\<rparr>"

definition closing_rest :: "(NamespacedName \<Rightarrow> string) \<Rightarrow> 'w yamux \<Rightarrow> NamespacedName \<Rightarrow> session list \<Rightarrow> nat \<Rightarrow> 'w hub \<Rightarrow>
    'w \<times> 'w list \<Rightarrow> conn res \<times> ('w \<times> 'w list) hub" where
  "closing_rest ks yx k ss idx h W = dialLoop (at_worlds yx) (ks k) (remove_at idx ss)
     \<lparr>mgr = (mgr h)\<lparr>sessionLists := (sessionLists (mgr h))(ks k \<mapsto> remove_at idx ss)\<rparr>, rand = rand h,
      world = Close (at_worlds yx) (ss ! idx) W\<rparr>"

fun progress ::
    "(NamespacedName \<Rightarrow> string) \<Rightarrow> 'w yamux \<Rightarrow> sessionManager \<Rightarrow> rng \<Rightarrow> 'w hub \<Rightarrow> thread \<Rightarrow> bool" where
  "progress ks yx m r h (Loop k ss) = so_far ks yx k m r (loop_rest ks yx k ss h)"
| "progress ks yx m r h (Closing k ss idx) = so_far ks yx k m r (closing_rest ks yx k ss idx h)"
| "progress ks yx m r h _ = (mgr h = m \<and> rand h = r)"

text \<open>
  The invariant: the goroutine that holds the mutex is the only one behind a \<^verbatim>\<open>Lock\<close>, and session manager and
  random numbers are those of the calls that have returned, one after the other, and of what the call in
  progress has done since.
\<close>

definition lock_inv :: "(NamespacedName \<Rightarrow> string) \<Rightarrow> 'w yamux \<Rightarrow> rng \<Rightarrow> 'w locked \<Rightarrow> bool" where
  "lock_inv ks yx r0 a \<longleftrightarrow> (\<forall>t. critical (thread_at a t) \<longleftrightarrow> mutex a = Some t)
     \<and> (\<exists>m r. sequential ks yx (NewSessionManager, r0) (calls a) (m, r)
          \<and> progress ks yx m r (shared a) (case mutex a of None \<Rightarrow> Idle | Some t \<Rightarrow> thread_at a t))"

lemma lock_invI:
  assumes "\<And>t. critical (thread_at a t) \<longleftrightarrow> mutex a = Some t"
    and "sequential ks yx (NewSessionManager, r0) (calls a) (m, r)"
    and "progress ks yx m r (shared a) (case mutex a of None \<Rightarrow> Idle | Some t \<Rightarrow> thread_at a t)"
  shows "lock_inv ks yx r0 a"
  using assms unfolding lock_inv_def by blast

lemma lock_invE:
  assumes "lock_inv ks yx r0 a"
  obtains m r where "\<And>t. critical (thread_at a t) \<longleftrightarrow> mutex a = Some t"
    and "sequential ks yx (NewSessionManager, r0) (calls a) (m, r)"
    and "progress ks yx m r (shared a) (case mutex a of None \<Rightarrow> Idle | Some t \<Rightarrow> thread_at a t)"
  using assms unfolding lock_inv_def by blast

lemma progress_world [simp]: "progress ks yx m r (h\<lparr>world := w\<rparr>) p = progress ks yx m r h p"
  by (cases p) (simp_all add: loop_rest_def [abs_def] closing_rest_def [abs_def])

lemma progress_quiet: "\<not> critical p \<or> (\<exists>k s. p = InAdd k s) \<Longrightarrow> progress ks yx m r h p \<longleftrightarrow> mgr h = m \<and> rand h = r"
  by (cases p) auto

lemma loop_refused:
  assumes "ss \<noteq> []" and "Intn (length ss) (rand h) = (idx, r)" and "Open yx (ss ! idx) (world h) = (Inl e, v)"
  shows "loop_rest ks yx k ss h (w, world h # us) = closing_rest ks yx k ss idx (h\<lparr>rand := r, world := x\<rparr>) (v, us)"
  unfolding loop_rest_def closing_rest_def using assms by (subst dialLoop_dropped [OF assms(1)]) simp_all

lemma loop_opened:
  assumes "ss \<noteq> []" and "Intn (length ss) (rand h) = (idx, r)" and "Open yx (ss ! idx) (world h) = (Inr c, v)"
  shows "loop_rest ks yx k ss h (w, [world h]) = (Inr c, \<lparr>mgr = mgr h, rand = r, world = (v, [])\<rparr>)"
proof -
  have "Open (at_worlds yx) (ss ! idx) (world \<lparr>mgr = mgr h, rand = rand h, world = (w, [world h])\<rparr>) = (Inr c, (v, []))"
    by (simp add: assms(3))
  from dialLoop_opened [OF assms(1) _ this] assms(2) show ?thesis by (simp add: loop_rest_def)
qed

lemma closing_closed:
  "closing_rest ks yx k ss idx h (w, world h # us) =
     loop_rest ks yx k (remove_at idx ss) (h\<lparr>mgr := (mgr h)\<lparr>sessionLists := (sessionLists (mgr h))(ks k \<mapsto> remove_at idx ss)\<rparr>,
       world := x\<rparr>) (Close yx (ss ! idx) (world h), us)"
  by (simp add: closing_rest_def loop_rest_def)

lemma lock_inv_quiet:
  assumes "lock_inv ks yx r0 a" and "\<not> critical (thread_at a t)" and "\<not> critical p"
  shows "lock_inv ks yx r0 (a\<lparr>thread_at := (thread_at a)(t := p)\<rparr>)"
  using assms(1)
proof (rule lock_invE)
  fix m r
  assume c: "\<And>t. critical (thread_at a t) \<longleftrightarrow> mutex a = Some t"
    and q: "sequential ks yx (NewSessionManager, r0) (calls a) (m, r)"
      "progress ks yx m r (shared a) (case mutex a of None \<Rightarrow> Idle | Some t \<Rightarrow> thread_at a t)"
  have "mutex a \<noteq> Some t" using c [of t] assms(2) by simp
  then show ?thesis
    by (intro lock_invI [where m = m and r = r]) (use assms(3) c q in \<open>auto split: option.splits\<close>)
qed

text \<open>A goroutine gets the mutex, goes on behind it, and gives it back with its call returned.\<close>

lemma lock_inv_acquire:
  assumes "lock_inv ks yx r0 a" and "mutex a = None" and "critical p"
    and "progress ks yx (mgr (shared a)) (rand (shared a)) (shared a) p"
  shows "lock_inv ks yx r0 (a\<lparr>mutex := Some t, thread_at := (thread_at a)(t := p)\<rparr>)"
  using assms(1)
proof (rule lock_invE)
  fix m r
  assume c: "\<And>t. critical (thread_at a t) \<longleftrightarrow> mutex a = Some t"
    and q: "sequential ks yx (NewSessionManager, r0) (calls a) (m, r)"
      "progress ks yx m r (shared a) (case mutex a of None \<Rightarrow> Idle | Some t \<Rightarrow> thread_at a t)"
  show ?thesis
    by (rule lock_invI [where m = m and r = r]) (use assms(2-4) c q in auto)
qed

lemma lock_inv_internal:
  assumes "lock_inv ks yx r0 a" and "critical (thread_at a t)" and "critical p"
    and "\<And>m r. progress ks yx m r (shared a) (thread_at a t) \<Longrightarrow> progress ks yx m r h p"
  shows "lock_inv ks yx r0 (a\<lparr>thread_at := (thread_at a)(t := p), shared := h\<rparr>)"
  using assms(1)
proof (rule lock_invE)
  fix m r
  assume c: "\<And>t. critical (thread_at a t) \<longleftrightarrow> mutex a = Some t"
    and q: "sequential ks yx (NewSessionManager, r0) (calls a) (m, r)"
      "progress ks yx m r (shared a) (case mutex a of None \<Rightarrow> Idle | Some t \<Rightarrow> thread_at a t)"
  have "mutex a = Some t" using assms(2) c by simp
  then show ?thesis
    by (intro lock_invI [where m = m and r = r]) (use assms(3,4) c q in auto)
qed

lemma lock_inv_release:
  assumes "lock_inv ks yx r0 a" and "critical (thread_at a t)"
    and "\<And>m r. sequential ks yx (NewSessionManager, r0) (calls a) (m, r) \<Longrightarrow> progress ks yx m r (shared a) (thread_at a t) \<Longrightarrow>
      sequential ks yx (NewSessionManager, r0) (c # calls a) (mgr h, rand h)"
  shows "lock_inv ks yx r0 (a\<lparr>mutex := None, thread_at := (thread_at a)(t := Idle), shared := h, calls := c # calls a\<rparr>)"
  using assms(1)
proof (rule lock_invE)
  fix m r
  assume c: "\<And>t. critical (thread_at a t) \<longleftrightarrow> mutex a = Some t"
    and q: "sequential ks yx (NewSessionManager, r0) (calls a) (m, r)"
      "progress ks yx m r (shared a) (case mutex a of None \<Rightarrow> Idle | Some t \<Rightarrow> thread_at a t)"
  have "mutex a = Some t" using assms(2) c by simp
  with assms(3) [OF q(1)] c q(2) show ?thesis
    by (intro lock_invI [where m = "mgr h" and r = "rand h"]) auto
qed

text \<open>The two ways in which a dial returns.\<close>

lemma dial_ends_empty:
  assumes "sequential ks yx b cs (m, r)" and "progress ks yx m r h (Loop k [])"
  shows "sequential ks yx b (Dialled k (Inl (Errorf ''no session found for cluster %q'' [Str (ks k)])) # cs) (mgr h, rand h)"
proof -
  let ?e = "Inl (Errorf ''no session found for cluster %q'' [Str (ks k)])"
  have "so_far ks yx k m r (loop_rest ks yx k [] h)" using assms(2) by simp
  from so_far_end [OF this, of "[]" ?e "\<lambda>w. \<lparr>mgr = mgr h, rand = rand h, world = (w, [])\<rparr>"]
  obtain wv w where "DialCluster ks (at_worlds yx) k \<lparr>mgr = m, rand = r, world = wv\<rparr> =
      (?e, \<lparr>mgr = mgr h, rand = rand h, world = (w, [])\<rparr>)"
    by (auto simp: loop_rest_def)
  from sequential.dialled [OF assms(1) this] show ?thesis by simp
qed

lemma dial_ends_opened:
  assumes "sequential ks yx b cs (m, r)" and "progress ks yx m r h (Loop k ss)"
    and "ss \<noteq> []" and "Intn (length ss) (rand h) = (idx, r')" and "Open yx (ss ! idx) (world h) = (Inr c, w')"
  shows "sequential ks yx b (Dialled k (Inr c) # cs) (mgr h, r')"
proof -
  have "so_far ks yx k m r (loop_rest ks yx k ss h)" using assms(2) by simp
  from so_far_end [OF this, of "[world h]" "Inr c" "\<lambda>w. \<lparr>mgr = mgr h, rand = r', world = (w', [])\<rparr>"]
  obtain wv where "DialCluster ks (at_worlds yx) k \<lparr>mgr = m, rand = r, world = wv\<rparr> =
      (Inr c, \<lparr>mgr = mgr h, rand = r', world = (w', [])\<rparr>)"
    using loop_opened [OF assms(3-5)] by auto
  from sequential.dialled [OF assms(1) this] show ?thesis by simp
qed

lemma lock_inv_step: "lock_step ks yx l a b \<Longrightarrow> lock_inv ks yx r0 a \<Longrightarrow> lock_inv ks yx r0 b"
proof (induction rule: lock_step.induct)
  case (call_add a t k s)
  then show ?case by (intro lock_inv_quiet) simp_all
next
  case (call_dial a t k)
  then show ?case by (intro lock_inv_quiet) simp_all
next
  case (lock_add a t k s)
  then show ?case by (intro lock_inv_acquire) simp_all
next
  case (add a t k s)
  then show ?case
    by (intro lock_inv_release) (auto simp: add_session_def intro: sequential.added)
next
  case (lock_dial a t k)
  then show ?case
    using so_far_start [of ks yx k] by (intro lock_inv_acquire) (simp_all add: loop_rest_def [abs_def])
next
  case (no_session a t k)
  let ?c = "Dialled k (Inl (Errorf ''no session found for cluster %q'' [Str (ks k)]))"
  have "lock_inv ks yx r0 (a\<lparr>mutex := None, thread_at := (thread_at a)(t := Idle), shared := shared a, calls := ?c # calls a\<rparr>)"
    by (rule lock_inv_release [OF no_session.prems])
       (use no_session.hyps dial_ends_empty in \<open>simp_all del: progress.simps\<close>)
  then show ?case by simp
next
  case (opened a t k ss idx r c w)
  then show ?case
    using dial_ends_opened by (intro lock_inv_release) simp_all
next
  case (refused a t k ss idx r e w)
  have "so_far ks yx k m r' (closing_rest ks yx k ss idx ((shared a)\<lparr>rand := r, world := w\<rparr>))"
    if "so_far ks yx k m r' (loop_rest ks yx k ss (shared a))" for m r'
    using that by (rule so_far_step [where v = "world (shared a)"]) (blast intro: loop_refused [OF refused.hyps(2-4)])
  with refused show ?case by (intro lock_inv_internal) simp_all
next
  case (closed a t k ss idx)
  let ?h = "(shared a)\<lparr>mgr := (mgr (shared a))\<lparr>sessionLists := (sessionLists (mgr (shared a)))(ks k \<mapsto> remove_at idx ss)\<rparr>,
      world := Close yx (ss ! idx) (world (shared a))\<rparr>"
  have "so_far ks yx k m r (loop_rest ks yx k (remove_at idx ss) ?h)"
    if "so_far ks yx k m r (closing_rest ks yx k ss idx (shared a))" for m r
    using so_far_step [OF that, where v = "world (shared a)"] closing_closed [of ks yx k ss idx "shared a"] by blast
  with closed show ?case by (intro lock_inv_internal) simp_all
next
  case (elsewhere a w)
  then show ?case by (elim lock_invE, intro lock_invI) (auto split: option.splits)
qed

lemma lock_inv_reachable: "lock_reachable ks yx r0 a \<Longrightarrow> lock_inv ks yx r0 a"
proof (induction rule: lock_reachable.induct)
  case (start w)
  show ?case
    by (rule lock_invI [where m = NewSessionManager and r = r0]) (simp_all add: sequential.none)
qed (rule lock_inv_step)

section \<open>Waiting for a call\<close>

text \<open>A goroutine behind a \<^verbatim>\<open>Lock\<close> can always go on.\<close>

lemma critical_can_step:
  assumes "critical (thread_at b t)"
  shows "\<exists>c. lock_step ks yx (Some t) b c"
proof (cases "thread_at b t")
  case (InAdd k s)
  from lock_step.add [OF this] show ?thesis ..
next
  case (Closing k ss idx)
  from lock_step.closed [OF this] show ?thesis ..
next
  case (Loop k ss)
  obtain idx r where i: "Intn (length ss) (rand (shared b)) = (idx, r)" by fastforce
  obtain res v where o: "Open yx (ss ! idx) (world (shared b)) = (res, v)" by fastforce
  show ?thesis
  proof (cases "ss = []")
    case True
    from lock_step.no_session [OF Loop [unfolded True]] show ?thesis ..
  next
    case False
    show ?thesis
    proof (cases res)
      case (Inl e)
      from lock_step.refused [OF Loop False i o [unfolded Inl]] show ?thesis ..
    next
      case (Inr c)
      from lock_step.opened [OF Loop False i o [unfolded Inr]] show ?thesis ..
    qed
  qed
qed (use assms in simp_all)

text \<open>Steps of all goroutines but one, and of the world.\<close>

definition other_step ::
    "(NamespacedName \<Rightarrow> string) \<Rightarrow> 'w yamux \<Rightarrow> nat \<Rightarrow> 'w locked \<Rightarrow> 'w locked \<Rightarrow> bool" where
  "other_step ks yx t a b \<longleftrightarrow> (\<exists>l. l \<noteq> Some t \<and> lock_step ks yx l a b)"

text \<open>What others can do while a goroutine holds the mutex: enter a method and wait.\<close>

definition waits_for :: "nat \<Rightarrow> 'w locked \<Rightarrow> 'w locked \<Rightarrow> bool" where
  "waits_for t a b \<longleftrightarrow> mutex b = Some t \<and> thread_at b t = thread_at a t \<and> calls b = calls a
     \<and> mgr (shared b) = mgr (shared a) \<and> rand (shared b) = rand (shared a)"

lemma waits_for_step:
  assumes "lock_step ks yx l b c" and "l \<noteq> Some t" and "mutex b = Some t"
    and "\<And>u. critical (thread_at b u) \<longleftrightarrow> mutex b = Some u" and "waits_for t a b"
  shows "waits_for t a c"
proof -
  have n: "\<not> critical (thread_at b u)" if "l = Some u" for u using that assms(2-4) by auto
  from assms(1,2,3,5) n show ?thesis
    by (induction rule: lock_step.induct) (auto simp: waits_for_def)
qed

lemma waits_for_steps:
  assumes "(other_step ks yx t)\<^sup>*\<^sup>* a b" and "lock_inv ks yx r0 a" and "mutex a = Some t"
  shows "lock_inv ks yx r0 b \<and> waits_for t a b"
  using assms
proof (induction rule: rtranclp_induct)
  case base
  then show ?case by (simp add: waits_for_def)
next
  case (step b c)
  then obtain l where l: "l \<noteq> Some t" "lock_step ks yx l b c" unfolding other_step_def by blast
  from step have i: "lock_inv ks yx r0 b" and w: "waits_for t a b" by blast+
  have "critical (thread_at b u) \<longleftrightarrow> mutex b = Some u" for u using i unfolding lock_inv_def by blast
  from waits_for_step [OF l(2,1) _ this w] w have "waits_for t a c" by (simp add: waits_for_def)
  with lock_inv_step [OF l(2) i] show ?case by blast
qed

section \<open>What the calls have in common\<close>

text \<open>A session is held for a cluster only if a call has registered it there.\<close>

lemma sequential_held:
  "sequential ks yx (NewSessionManager, r0) cs b \<Longrightarrow> s \<in> set (sessions (fst b) i) \<Longrightarrow> \<exists>k. Added k s \<in> set cs \<and> ks k = i"
proof (induction rule: sequential.induct)
  case none
  then show ?case by (simp add: sessions_def NewSessionManager_def lookup_slice_def)
next
  case (added cs m r k t)
  then show ?case by (auto simp: sessions_Add split: if_splits)
next
  case (dialled cs m r k wv res h)
  have "held h i \<subseteq># held \<lparr>mgr = m, rand = r, world = wv\<rparr> i" by (rule sm.dial_sub [OF dialled.hyps(2)])
  then have "s \<in> set (sessions m i)" using dialled.prems by (auto simp: held_def dest: mset_subset_eqD)
  with dialled.IH show ?case by auto
qed

lemma sequential_suffix:
  "sequential ks yx a cs b \<Longrightarrow> cs = ds @ es \<Longrightarrow> \<exists>c. sequential ks yx a es c"
proof (induction arbitrary: ds rule: sequential.induct)
  case none
  then have "es = []" by simp
  then show ?case using sequential.none by blast
next
  case (added cs m r k s)
  then show ?case by (cases ds) (auto intro: sequential.added)
next
  case (dialled cs m r k wv res h)
  then show ?case by (cases ds) (auto intro: sequential.dialled)
qed

lemma at_worlds_opens: "Open (at_worlds yx) s W = (Inr c, W') \<Longrightarrow> \<exists>w w'. Open yx s w = (Inr c, w')"
  by (cases W) (fastforce simp: at_worlds_def split: list.splits prod.splits)

inductive_cases sequential_dialledE: "sequential ks yx a (Dialled k res # cs) b"

lemma sequential_opened:
  assumes "sequential ks yx (NewSessionManager, r0) (Dialled k (Inr c) # cs) b"
  shows "\<exists>s w w' k'. Open yx s w = (Inr c, w') \<and> Added k' s \<in> set cs \<and> ks k' = ks k"
  using assms
proof (rule sequential_dialledE)
  fix m r wv h
  assume q: "sequential ks yx (NewSessionManager, r0) cs (m, r)"
    and d: "DialCluster ks (at_worlds yx) k \<lparr>mgr = m, rand = r, world = wv\<rparr> = (Inr c, h)"
  obtain s W where s: "s \<in># held \<lparr>mgr = m, rand = r, world = wv\<rparr> (ks k)" "Open (at_worlds yx) s W = (Inr c, world h)"
    using sm.dial_opened [OF d] by blast
  obtain w w' where "Open yx s w = (Inr c, w')" using at_worlds_opens [OF s(2)] by blast
  moreover obtain k' where "Added k' s \<in> set cs" "ks k' = ks k"
    using sequential_held [OF q, of s "ks k"] s(1) by (auto simp: held_def)
  ultimately show ?thesis by blast
qed

section \<open>Properties\<close>

text \<open>
  C8: The mutex makes the methods of the session manager atomic. However goroutines and the world outside
  interleave between their statements, no two goroutines are behind a \<^verbatim>\<open>Lock\<close> at the same time, and the
  calls that have returned had the results, and whenever the mutex is free left the sessions, of
  \<open>AddClusterSession\<close> and \<open>DialCluster\<close> executed one after the other in the order of their returns, each
  dial in worlds it has met.
\<close>

theorem calls_linearise:
  assumes "lock_reachable ks yx r0 a"
  shows "(\<forall>t u. critical (thread_at a t) \<and> critical (thread_at a u) \<longrightarrow> t = u)
    \<and> (\<exists>m r. sequential ks yx (NewSessionManager, r0) (calls a) (m, r)
         \<and> (mutex a = None \<longrightarrow> mgr (shared a) = m \<and> rand (shared a) = r))"
  using lock_inv_reachable [OF assms]
proof (rule lock_invE)
  fix m r
  assume c: "\<And>t. critical (thread_at a t) \<longleftrightarrow> mutex a = Some t"
    and q: "sequential ks yx (NewSessionManager, r0) (calls a) (m, r)"
      "progress ks yx m r (shared a) (case mutex a of None \<Rightarrow> Idle | Some t \<Rightarrow> thread_at a t)"
  have "mutex a = None \<longrightarrow> mgr (shared a) = m \<and> rand (shared a) = r" using q(2) by auto
  with q(1) c show ?thesis by auto
qed

text \<open>The hub of the witnesses: an agent connects, then its cluster is dialled.\<close>

definition demo_empty_hub :: "nat hub" where
  "demo_empty_hub = \<lparr>mgr = NewSessionManager, rand = sconst 0, world = 0\<rparr>"

definition demo_dialling :: "nat locked" where
  "demo_dialling = \<lparr>mutex = Some 1, thread_at = (\<lambda>_. Idle)(1 := Loop demo_key [3]),
     shared = add_session demo_ks demo_key 3 demo_empty_hub, calls = [Added demo_key 3]\<rparr>"

lemma demo_dialling_reachable: "lock_reachable demo_ks demo_yamux (sconst 0) demo_dialling"
proof -
  let ?R = "lock_reachable demo_ks demo_yamux (sconst 0)"
  let ?h = "add_session demo_ks demo_key 3 demo_empty_hub"
  have "?R \<lparr>mutex = None, thread_at = (\<lambda>_. Idle), shared = demo_empty_hub, calls = []\<rparr>"
    unfolding demo_empty_hub_def by (rule lock_reachable.start)
  from lock_reachable.step [OF this lock_step.call_add [where t = 1 and k = demo_key and s = 3]]
  have "?R \<lparr>mutex = None, thread_at = (\<lambda>_. Idle)(1 := AtAdd demo_key 3), shared = demo_empty_hub, calls = []\<rparr>" by simp
  from lock_reachable.step [OF this lock_step.lock_add [where t = 1]]
  have "?R \<lparr>mutex = Some 1, thread_at = (\<lambda>_. Idle)(1 := InAdd demo_key 3), shared = demo_empty_hub, calls = []\<rparr>" by simp
  from lock_reachable.step [OF this lock_step.add [where t = 1]]
  have "?R \<lparr>mutex = None, thread_at = (\<lambda>_. Idle)(1 := Idle), shared = ?h, calls = [Added demo_key 3]\<rparr>" by simp
  from lock_reachable.step [OF this lock_step.call_dial [where t = 1 and k = demo_key]]
  have "?R \<lparr>mutex = None, thread_at = (\<lambda>_. Idle)(1 := AtDial demo_key), shared = ?h, calls = [Added demo_key 3]\<rparr>" by simp
  moreover have "lookup_slice (sessionLists (mgr ?h)) (demo_ks demo_key) = [3]"
    by (simp add: add_session_def AddClusterSession_def Let_def demo_empty_hub_def NewSessionManager_def lookup_slice_def)
  ultimately show ?thesis
    using lock_reachable.step [OF _ lock_step.lock_dial [where t = 1 and k = demo_key], of demo_ks demo_yamux "sconst 0"
      "\<lparr>mutex = None, thread_at = (\<lambda>_. Idle)(1 := AtDial demo_key), shared = ?h, calls = [Added demo_key 3]\<rparr>"]
    by (simp add: demo_dialling_def)
qed

theorem calls_linearise_witness:
  "\<exists>m r. sequential demo_ks demo_yamux (NewSessionManager, sconst 0) [Added demo_key 3] (m, r)"
  using calls_linearise [OF demo_dialling_reachable] by (auto simp: demo_dialling_def)

text \<open>
  C26: A dial that waits holds up the whole hub. While one goroutine is behind the \<^verbatim>\<open>Lock\<close>, which it keeps
  during the calls of \<^verbatim>\<open>Session.Open\<close> and \<^verbatim>\<open>Session.Close\<close>, all that the others can do is to enter a method and
  wait: until it goes on, no call for any cluster returns and no session is registered. It is always able
  to go on once the call of yamux returns.
\<close>

theorem open_blocks_all_clusters:
  assumes "lock_reachable ks yx r0 a" and "mutex a = Some t" and "(other_step ks yx t)\<^sup>*\<^sup>* a b"
  shows "calls b = calls a \<and> mgr (shared b) = mgr (shared a) \<and> thread_at b t = thread_at a t
    \<and> (\<forall>u. critical (thread_at b u) \<longrightarrow> u = t) \<and> (\<exists>c. lock_step ks yx (Some t) b c)"
proof -
  have b: "lock_inv ks yx r0 b" and w: "waits_for t a b"
    using waits_for_steps [OF assms(3) lock_inv_reachable [OF assms(1)] assms(2)] by blast+
  have c: "critical (thread_at b u) \<longleftrightarrow> mutex b = Some u" for u using b unfolding lock_inv_def by blast
  have m: "mutex b = Some t" using w by (simp add: waits_for_def)
  have "\<exists>c. lock_step ks yx (Some t) b c" by (rule critical_can_step) (use c [of t] m in simp)
  with w c m show ?thesis by (simp add: waits_for_def)
qed

theorem open_blocks_all_clusters_witness:
  "\<exists>b. (other_step demo_ks demo_yamux 1)\<^sup>*\<^sup>* demo_dialling b \<and> thread_at b 2 = AtAdd \<lparr>Namespace = ''x'', Name = ''y''\<rparr> 8
     \<and> calls b = [Added demo_key 3]"
proof -
  let ?k = "\<lparr>Namespace = ''x'', Name = ''y''\<rparr>"
  let ?b = "demo_dialling\<lparr>thread_at := (thread_at demo_dialling)(2 := AtAdd ?k 8)\<rparr>"
  have "thread_at demo_dialling 2 = Idle" by (simp add: demo_dialling_def)
  then have "lock_step demo_ks demo_yamux (Some 2) demo_dialling ?b" by (rule lock_step.call_add)
  then have "other_step demo_ks demo_yamux 1 demo_dialling ?b"
    unfolding other_step_def by (intro exI [of _ "Some 2"] conjI) simp_all
  then have s: "(other_step demo_ks demo_yamux 1)\<^sup>*\<^sup>* demo_dialling ?b" by (rule r_into_rtranclp)
  have "mutex demo_dialling = Some 1" by (simp add: demo_dialling_def)
  from open_blocks_all_clusters [OF demo_dialling_reachable this s]
  have "calls ?b = calls demo_dialling" by (rule conjunct1)
  then have "calls ?b = [Added demo_key 3]" by (simp add: demo_dialling_def)
  moreover have "thread_at ?b 2 = AtAdd ?k 8" by simp
  ultimately show ?thesis using s by blast
qed

text \<open>
  C10: Every stream that a dial has returned, in whatever interleaving of the statements of all goroutines,
  was opened on a session that had been registered before under the id of the same cluster; and if no
  session is registered twice (\<^verbatim>\<open>yamux.Server\<close> allocates each anew), under the id of no other cluster, ever.
\<close>

theorem streams_isolated:
  assumes "lock_reachable ks yx r0 a" and "calls a = ds @ Dialled k (Inr c) # cs"
  shows "\<exists>s w w' k'. Open yx s w = (Inr c, w') \<and> Added k' s \<in> set cs \<and> ks k' = ks k
    \<and> ((\<forall>i j. Added i s \<in> set (calls a) \<and> Added j s \<in> set (calls a) \<longrightarrow> i = j) \<longrightarrow>
         (\<forall>i. Added i s \<in> set (calls a) \<longrightarrow> ks i = ks k))"
  using lock_inv_reachable [OF assms(1)]
proof (rule lock_invE)
  fix m r
  assume "sequential ks yx (NewSessionManager, r0) (calls a) (m, r)"
  then obtain b where "sequential ks yx (NewSessionManager, r0) (Dialled k (Inr c) # cs) b"
    using sequential_suffix assms(2) by blast
  from sequential_opened [OF this] obtain s w w' k' where
    s: "Open yx s w = (Inr c, w')" "Added k' s \<in> set cs" "ks k' = ks k" by blast
  moreover have "Added k' s \<in> set (calls a)" using s(2) assms(2) by simp
  ultimately show ?thesis by blast
qed

theorem streams_isolated_witness:
  "\<exists>b s. lock_step demo_ks demo_yamux (Some 1) demo_dialling b \<and> calls b = [Dialled demo_key (Inr 103), Added demo_key 3]
     \<and> Added demo_key s \<in> set (calls demo_dialling) \<and> (\<exists>w w'. Open demo_yamux s w = (Inr 103, w'))"
proof -
  obtain r where i: "Intn (length [3 :: nat]) (rand (shared demo_dialling)) = (0, r)"
    by (simp add: demo_dialling_def Intn_def add_session_def demo_empty_hub_def)
  have t: "thread_at demo_dialling 1 = Loop demo_key [3]" by (simp add: demo_dialling_def)
  have o: "Open demo_yamux ([3] ! 0) (world (shared demo_dialling)) = (Inr 103, Suc (world (shared demo_dialling)))"
    by (simp add: demo_yamux_def)
  obtain b where b: "lock_step demo_ks demo_yamux (Some 1) demo_dialling b"
    and c: "calls b = Dialled demo_key (Inr 103) # calls demo_dialling"
    using lock_step.opened [OF t _ i o] by fastforce
  have c': "calls b = [] @ Dialled demo_key (Inr 103) # [Added demo_key 3]" using c by (simp add: demo_dialling_def)
  from streams_isolated [OF lock_reachable.step [OF demo_dialling_reachable b] c'] b c' show ?thesis
    by (auto simp: demo_dialling_def)
qed

end
