(* ===== verification/Session_Progress.thy ===== *)
theory Session_Progress
  imports Session_Locking
begin

text \<open>
  Nobody waits forever for the mutex of \<^verbatim>\<open>src/pkg/hub/cluster/session_manager.go\<close>: while no new call is made, the
  goroutines of \<open>Session_Locking\<close> have only a bounded number of steps left, one of them can always go on as long as
  a call is pending, and so all calls return. The measure is what every goroutine has still to do and two steps
  for every session, since each may turn out to be dead.
\<close>

section \<open>Sums over what is in use\<close>

text \<open>The sum of \<open>w\<close> over the places where \<open>f\<close> is not \<open>z\<close>.\<close>

definition used_sum :: "'b \<Rightarrow> ('b \<Rightarrow> nat) \<Rightarrow> ('a \<Rightarrow> 'b) \<Rightarrow> nat" where
  "used_sum z w f = (\<Sum>x\<in>{x. f x \<noteq> z}. w (f x))"

lemma used_sum_on:
  assumes "finite A" and "{x. f x \<noteq> z} \<subseteq> A" and "w z = 0"
  shows "used_sum z w f = (\<Sum>x\<in>A. w (f x))"
  unfolding used_sum_def by (rule sum.mono_neutral_left) (use assms in auto)

lemma finite_used_upd: "finite {x. f x \<noteq> z} \<Longrightarrow> finite {x. (f(y := v)) x \<noteq> z}"
  by (rule finite_subset [of _ "insert y {x. f x \<noteq> z}"]) auto

lemma used_sum_upd:
  assumes "finite {x. f x \<noteq> z}" and "w z = 0"
  shows "used_sum z w (f(y := v)) + w (f y) = used_sum z w f + w v"
proof -
  let ?A = "insert y {x. f x \<noteq> z}"
  have A: "finite ?A" "y \<in> ?A" using assms(1) by simp_all
  have "used_sum z w (f(y := v)) = (\<Sum>x\<in>?A. w ((f(y := v)) x))" by (rule used_sum_on [where w = w, OF A(1)]) (use assms(2) in auto)
  also have "\<dots> = w v + (\<Sum>x\<in>?A - {y}. w (f x))" by (simp only: sum.remove [OF A]) simp
  finally have "used_sum z w (f(y := v)) = w v + (\<Sum>x\<in>?A - {y}. w (f x))" .
  moreover have "used_sum z w f = w (f y) + (\<Sum>x\<in>?A - {y}. w (f x))"
    by (simp only: used_sum_on [where w = w and f = f and z = z, OF A(1) subset_insertI assms(2)] sum.remove [OF A])
  ultimately show ?thesis by simp
qed

section \<open>The work that is left\<close>

fun thread_work :: "thread \<Rightarrow> nat" where
  "thread_work (AtAdd k s) = 4"
| "thread_work (InAdd k s) = 3"
| "thread_work (AtDial k) = 2"
| "thread_work (Loop k ss) = 1"
| "thread_work _ = 0"

definition slice_length :: "session list option \<Rightarrow> nat" where
  "slice_length l = (case l of None \<Rightarrow> 0 | Some ss \<Rightarrow> length ss)"

text \<open>How many sessions a session manager holds for all clusters together, and how many calls are pending.\<close>

definition total_sessions :: "sessionManager \<Rightarrow> nat" where
  "total_sessions m = used_sum None slice_length (sessionLists m)"

definition pending :: "'w locked \<Rightarrow> nat set" where
  "pending a = {t. thread_at a t \<noteq> Idle}"

definition lock_work :: "'w locked \<Rightarrow> nat" where
  "lock_work a = used_sum Idle thread_work (thread_at a) + 2 * total_sessions (mgr (shared a))"

lemma slice_length_simps [simp]: "slice_length None = 0" "slice_length (Some ss) = length ss"
  by (simp_all add: slice_length_def)

lemma slice_length_lookup: "slice_length (m k) = length (lookup_slice m k)"
  by (simp add: slice_length_def lookup_slice_def split: option.split)

text \<open>
  What holds of every state: finitely many goroutines are busy, finitely many clusters have a list, and the
  local slice of a dial is the list that is stored, an index into it one of a session.
\<close>

definition slice_ok :: "(NamespacedName \<Rightarrow> string) \<Rightarrow> sessionManager \<Rightarrow> thread \<Rightarrow> bool" where
  "slice_ok ks m p = (case p of
       Loop k ss \<Rightarrow> sessions m (ks k) = ss
     | Closing k ss idx \<Rightarrow> sessions m (ks k) = ss \<and> idx < length ss
     | _ \<Rightarrow> True)"

definition work_inv :: "(NamespacedName \<Rightarrow> string) \<Rightarrow> 'w locked \<Rightarrow> bool" where
  "work_inv ks a \<longleftrightarrow> (\<forall>t. critical (thread_at a t) \<longleftrightarrow> mutex a = Some t)
     \<and> finite (pending a) \<and> finite (dom (sessionLists (mgr (shared a))))
     \<and> (\<forall>t. slice_ok ks (mgr (shared a)) (thread_at a t))"


lemma work_inv_other:
  assumes "work_inv ks a" and "critical (thread_at a t)" and "u \<noteq> t"
  shows "\<not> critical (thread_at a u)"
  using assms unfolding work_inv_def by (metis option.inject)

lemma slice_ok_quiet [simp]: "\<not> critical p \<Longrightarrow> slice_ok ks m p"
  by (cases p) (simp_all add: slice_ok_def)

text \<open>A step of a goroutine that keeps the invariant: it changes one place and, if it is behind the \<^verbatim>\<open>Lock\<close>, the lists.\<close>

lemma work_inv_move:
  assumes "work_inv ks a" and "thread_at b = (thread_at a)(t := p)" and "critical p \<longleftrightarrow> mutex b = Some t"
    and "\<And>u. u \<noteq> t \<Longrightarrow> mutex b = Some u \<longleftrightarrow> mutex a = Some u"
    and "finite (dom (sessionLists (mgr (shared b))))" and "slice_ok ks (mgr (shared b)) p"
    and "mgr (shared b) = mgr (shared a) \<or> critical (thread_at a t)"
  shows "work_inv ks b"
proof -
  have "slice_ok ks (mgr (shared b)) (thread_at a u)" if "u \<noteq> t" for u
    using assms(7)
  proof
    assume "mgr (shared b) = mgr (shared a)"
    then show ?thesis using assms(1) by (simp add: work_inv_def)
  next
    assume "critical (thread_at a t)"
    from work_inv_other [OF assms(1) this that] show ?thesis by simp
  qed
  moreover have "finite {t. thread_at a t \<noteq> Idle}" using assms(1) by (simp add: work_inv_def pending_def)
  from finite_used_upd [OF this, of t p] have "finite (pending b)" by (simp add: pending_def assms(2))
  moreover have "critical (thread_at a u) \<longleftrightarrow> mutex a = Some u" for u using assms(1) by (simp add: work_inv_def)
  ultimately show ?thesis using assms(2-6) by (simp add: work_inv_def)
qed

lemma work_invD:
  assumes "work_inv ks a"
  shows "critical (thread_at a t) \<longleftrightarrow> mutex a = Some t" and "finite (pending a)"
    and "finite (dom (sessionLists (mgr (shared a))))" and "slice_ok ks (mgr (shared a)) (thread_at a t)"
  using assms unfolding work_inv_def by blast+

lemma work_inv_step: "lock_step ks yx l a b \<Longrightarrow> work_inv ks a \<Longrightarrow> work_inv ks b"
proof (induction rule: lock_step.induct)
  case (call_add a t k s)
  with work_invD(1) [OF call_add(2), of t] work_invD(3) [OF call_add(2)] show ?case
    by (intro work_inv_move [OF call_add(2), where t = t]) auto
next
  case (lock_add a t k s)
  with work_invD(1) [OF lock_add(3), of t] work_invD(3) [OF lock_add(3)] show ?case
    by (intro work_inv_move [OF lock_add(3), where t = t]) (auto simp: slice_ok_def)
next
  case (add a t k s)
  with work_invD(1) [OF add(2), of t] work_invD(3) [OF add(2)] show ?case
    by (intro work_inv_move [OF add(2), where t = t]) (auto simp: add_session_def AddClusterSession_def Let_def)
next
  case (call_dial a t k)
  with work_invD(1) [OF call_dial(2), of t] work_invD(3) [OF call_dial(2)] show ?case
    by (intro work_inv_move [OF call_dial(2), where t = t]) auto
next
  case (lock_dial a t k)
  with work_invD(1) [OF lock_dial(3), of t] work_invD(3) [OF lock_dial(3)] show ?case
    by (intro work_inv_move [OF lock_dial(3), where t = t]) (auto simp: slice_ok_def sessions_def)
next
  case (no_session a t k)
  with work_invD(1) [OF no_session(2), of t] work_invD(3) [OF no_session(2)] show ?case
    by (intro work_inv_move [OF no_session(2), where t = t]) auto
next
  case (opened a t k ss idx r c w)
  with work_invD(1) [OF opened(5), of t] work_invD(3) [OF opened(5)] show ?case
    by (intro work_inv_move [OF opened(5), where t = t]) auto
next
  case (refused a t k ss idx r e w)
  with work_invD(1,4) [OF refused(5), of t] work_invD(3) [OF refused(5)] Intn_less [of "length ss" "rand (shared a)" idx r]
  show ?case
    by (intro work_inv_move [OF refused(5), where t = t]) (auto simp: slice_ok_def)
next
  case (closed a t k ss idx)
  with work_invD(1,4) [OF closed(2), of t] work_invD(3) [OF closed(2)] show ?case
    by (intro work_inv_move [OF closed(2), where t = t]) (auto simp: slice_ok_def sessions_def lookup_slice_def)
next
  case (elsewhere a w)
  then show ?case by (simp add: work_inv_def pending_def)
qed

lemma work_inv_reachable: "lock_reachable ks yx r0 a \<Longrightarrow> work_inv ks a"
proof (induction rule: lock_reachable.induct)
  case (start w)
  show ?case by (simp add: work_inv_def pending_def NewSessionManager_def)
qed (rule work_inv_step)

section \<open>Every step uses up work\<close>

lemma work_upd:
  assumes "work_inv ks a" and "thread_at b = (thread_at a)(t := p)"
  shows "used_sum Idle thread_work (thread_at b) + thread_work (thread_at a t) =
    used_sum Idle thread_work (thread_at a) + thread_work p"
  using used_sum_upd [where f = "thread_at a" and z = Idle and w = thread_work and y = t and v = p]
    work_invD(2) [OF assms(1)] by (simp add: assms(2) pending_def)

lemma total_sessions_upd:
  assumes "finite (dom (sessionLists m))" and "sessionLists m' = (sessionLists m)(cid \<mapsto> ss)"
  shows "total_sessions m' + length (sessions m cid) = total_sessions m + length ss"
  using used_sum_upd [where f = "sessionLists m" and z = None and w = slice_length and y = cid and v = "Some ss"] assms
  by (simp add: total_sessions_def sessions_def dom_def slice_length_lookup [of "sessionLists m"])

lemma lock_work_less:
  assumes "work_inv ks a" and "thread_at b = (thread_at a)(t := p)"
    and "thread_work p + 2 * total_sessions (mgr (shared b))
      < thread_work (thread_at a t) + 2 * total_sessions (mgr (shared a))"
  shows "lock_work b < lock_work a"
  using work_upd [OF assms(1,2)] assms(3) by (simp add: lock_work_def)

lemma goroutine_step_work:
  "lock_step ks yx l a b \<Longrightarrow> l = Some t \<Longrightarrow> thread_at a t \<noteq> Idle \<Longrightarrow> work_inv ks a \<Longrightarrow> lock_work b < lock_work a"
proof (induction rule: lock_step.induct)
  case (add a u k s)
  have "total_sessions (AddClusterSession ks k s (mgr (shared a))) + length (sessions (mgr (shared a)) (ks k)) =
      total_sessions (mgr (shared a)) + length (sessions (mgr (shared a)) (ks k) @ [s])"
    by (rule total_sessions_upd [OF work_invD(3) [OF add.prems(3)]])
      (simp add: AddClusterSession_def Let_def sessions_def lookup_slice_def)
  then show ?case
    by (intro lock_work_less [OF add.prems(3), where t = u and p = Idle]) (use add.hyps in \<open>simp_all add: add_session_def\<close>)
next
  case (closed a u k ss idx)
  have "sessions (mgr (shared a)) (ks k) = ss" "idx < length ss"
    using work_invD(4) [OF closed.prems(3), of u] closed.hyps by (simp_all add: slice_ok_def)
  with total_sessions_upd [where cid = "ks k" and ss = "remove_at idx ss", OF work_invD(3) [OF closed.prems(3)],
      of "(mgr (shared a))\<lparr>sessionLists := (sessionLists (mgr (shared a)))(ks k \<mapsto> remove_at idx ss)\<rparr>"]
  show ?case
    by (intro lock_work_less [OF closed.prems(3), where t = u and p = "Loop k (remove_at idx ss)"]) (use closed.hyps in simp_all)
next
  case (elsewhere a w)
  then show ?case by simp
qed (rule lock_work_less, assumption, simp, simp)+

lemma world_step_work: "lock_step ks yx l a b \<Longrightarrow> l = None \<Longrightarrow>
    lock_work b = lock_work a \<and> pending b = pending a \<and> calls b = calls a"
  by (induction rule: lock_step.induct) (simp_all add: lock_work_def pending_def)

text \<open>A call that is no longer pending has returned.\<close>

lemma pending_upd:
  assumes "finite (pending a)" and "thread_at b = (thread_at a)(t := p)" and "thread_at a t \<noteq> Idle"
  shows "card (pending b) = (if p = Idle then card (pending a) - 1 else card (pending a))" and "card (pending a) > 0"
proof -
  have t: "t \<in> pending a" using assms(3) by (simp add: pending_def)
  with assms(1) show "card (pending a) > 0" by (auto simp: card_gt_0_iff)
  have "pending b = (if p = Idle then pending a - {t} else pending a)"
    using assms(2,3) by (auto simp: pending_def)
  with t assms(1) show "card (pending b) = (if p = Idle then card (pending a) - 1 else card (pending a))" by simp
qed

lemma goroutine_step_calls:
  assumes "lock_step ks yx (Some t) a b" and "thread_at a t \<noteq> Idle" and "finite (pending a)"
  shows "length (calls b) + card (pending b) = length (calls a) + card (pending a)"
proof -
  have "\<exists>p. thread_at b = (thread_at a)(t := p) \<and> length (calls b) = (if p = Idle then Suc (length (calls a)) else length (calls a))"
    using assms(1,2) by cases auto
  then obtain p where p: "thread_at b = (thread_at a)(t := p)"
    "length (calls b) = (if p = Idle then Suc (length (calls a)) else length (calls a))" by blast
  show ?thesis using pending_upd [OF assms(3) p(1) assms(2)] p(2) by auto
qed

section \<open>Runs without new calls\<close>

text \<open>\<open>drains n a b\<close>: goroutines that are in a method make \<open>n\<close> steps, the world outside any number.\<close>

inductive drains :: "(NamespacedName \<Rightarrow> string) \<Rightarrow> 'w yamux \<Rightarrow> nat \<Rightarrow> 'w locked \<Rightarrow> 'w locked \<Rightarrow> bool"
  for ks yx where
  none: "drains ks yx 0 a a"
| works: "drains ks yx n a b \<Longrightarrow> t \<in> pending b \<Longrightarrow> lock_step ks yx (Some t) b c \<Longrightarrow> drains ks yx (Suc n) a c"
| meanwhile: "drains ks yx n a b \<Longrightarrow> lock_step ks yx None b c \<Longrightarrow> drains ks yx n a c"

lemma drains_work:
  "drains ks yx n a b \<Longrightarrow> work_inv ks a \<Longrightarrow> work_inv ks b \<and> n + lock_work b \<le> lock_work a
     \<and> length (calls b) + card (pending b) = length (calls a) + card (pending a)"
proof (induction rule: drains.induct)
  case (works n a b t c)
  then have b: "work_inv ks b" "thread_at b t \<noteq> Idle" by (simp_all add: pending_def)
  from work_inv_step [OF works.hyps(3) b(1)] goroutine_step_work [OF works.hyps(3) refl b(2,1)]
    goroutine_step_calls [OF works.hyps(3) b(2) work_invD(2) [OF b(1)]] works show ?case by simp
next
  case (meanwhile n a b c)
  with world_step_work [OF meanwhile.hyps(2) refl] work_inv_step [OF meanwhile.hyps(2)] show ?case by simp
qed simp

lemma lock_work_bound: "work_inv ks a \<Longrightarrow> lock_work a \<le> 4 * card (pending a) + 2 * total_sessions (mgr (shared a))"
proof -
  have "thread_work p \<le> 4" for p by (cases p) simp_all
  then have "used_sum Idle thread_work (thread_at a) \<le> (\<Sum>t\<in>pending a. 4)"
    unfolding used_sum_def pending_def by (rule sum_mono)
  then show ?thesis by (simp add: lock_work_def)
qed

text \<open>As long as a call is pending, some goroutine can go on: the one with the mutex, or any if it is free.\<close>

lemma pending_can_step:
  assumes "work_inv ks a" and "pending a \<noteq> {}"
  shows "\<exists>t c. t \<in> pending a \<and> lock_step ks yx (Some t) a c"
proof (cases "mutex a")
  case (Some t)
  then have c: "critical (thread_at a t)" using work_invD(1) [OF assms(1), of t] by simp
  then have "t \<in> pending a" by (auto simp: pending_def)
  with critical_can_step [OF c] show ?thesis by blast
next
  case None
  obtain t where t: "t \<in> pending a" using assms(2) by blast
  have "\<not> critical (thread_at a t)" using work_invD(1) [OF assms(1), of t] None by simp
  with t have "\<exists>c. lock_step ks yx (Some t) a c"
    using lock_step.lock_add [where a = a and t = t, OF _ None] lock_step.lock_dial [where a = a and t = t, OF _ None]
    by (cases "thread_at a t") (auto simp: pending_def)
  with t show ?thesis by blast
qed

lemma drains_trans: "drains ks yx m b c \<Longrightarrow> drains ks yx n a b \<Longrightarrow> drains ks yx (n + m) a c"
  by (induction rule: drains.induct) (auto intro: drains.intros)

lemma some_run_drains: "work_inv ks a \<Longrightarrow> \<exists>n b. drains ks yx n a b \<and> pending b = {}"
proof (induction "lock_work a" arbitrary: a rule: less_induct)
  case less
  show ?case
  proof (cases "pending a = {}")
    case True
    then show ?thesis using drains.none by blast
  next
    case False
    obtain t c where t: "t \<in> pending a" "lock_step ks yx (Some t) a c" using pending_can_step [OF less.prems False] by blast
    have "lock_work c < lock_work a" by (rule goroutine_step_work [OF t(2) refl _ less.prems]) (use t in \<open>simp add: pending_def\<close>)
    from less.hyps [OF this work_inv_step [OF t(2) less.prems]] obtain n b where "drains ks yx n c b" "pending b = {}" by blast
    with drains_trans [OF _ drains.works [OF drains.none t]] show ?thesis by blast
  qed
qed

section \<open>Properties\<close>

text \<open>
  C9: Every call of the session manager returns. From any state that goroutines can get into, as long as no new call is
  made, they make at most four steps for each pending call and two for each session, whatever the world outside
  does in between; while a call is pending, some goroutine can go on; and when none is pending, all of them have
  returned. A call of yamux is one step here: one that never returns is the subject of \<open>open_blocks_all_clusters\<close>.
\<close>

theorem calls_complete:
  assumes "lock_reachable ks yx r0 a" and "drains ks yx n a b"
  shows "n \<le> 4 * card (pending a) + 2 * total_sessions (mgr (shared a))
    \<and> (pending b \<noteq> {} \<longrightarrow> (\<exists>t c. t \<in> pending b \<and> lock_step ks yx (Some t) b c))
    \<and> (pending b = {} \<longrightarrow> length (calls b) = length (calls a) + card (pending a))"
proof -
  note a = work_inv_reachable [OF assms(1)]
  from drains_work [OF assms(2) a] have b: "work_inv ks b" "n + lock_work b \<le> lock_work a"
    "length (calls b) + card (pending b) = length (calls a) + card (pending a)" by blast+
  show ?thesis using b(2,3) lock_work_bound [OF a] pending_can_step [OF b(1)] by auto
qed

theorem calls_complete_witness:
  "\<exists>n b. drains demo_ks demo_yamux n demo_dialling b \<and> n \<le> 6 \<and> pending b = {} \<and> length (calls b) = 2"
proof -
  obtain n b where b: "drains demo_ks demo_yamux n demo_dialling b" "pending b = {}"
    using some_run_drains [OF work_inv_reachable [OF demo_dialling_reachable]] by blast
  have p: "pending demo_dialling = {1}" by (auto simp: pending_def demo_dialling_def)
  have "sessionLists (mgr (shared demo_dialling)) = Map.empty(demo_ks demo_key \<mapsto> [3])"
    by (simp add: demo_dialling_def add_session_def AddClusterSession_def Let_def demo_empty_hub_def NewSessionManager_def)
  moreover have "{x. (Map.empty(demo_ks demo_key \<mapsto> [3 :: session])) x \<noteq> None} = {demo_ks demo_key}" by auto
  ultimately have "total_sessions (mgr (shared demo_dialling)) = 1" by (simp add: total_sessions_def used_sum_def)
  with calls_complete [OF demo_dialling_reachable b(1)] b p show ?thesis
    by (intro exI [of _ n] exI [of _ b]) (simp add: demo_dialling_def)
qed

end
