(* ===== verification/Go_Url.thy ===== *)
theory Go_Url
  imports Prelude
begin

text \<open>
  The part of Go's \<^verbatim>\<open>net/url\<close> the sources rely on: percent-encoding, the two representations of a
  path (\<open>Path\<close>, decoded, and \<open>RawPath\<close>, the encoding it came in), \<^verbatim>\<open>url.Parse\<close> for hierarchical
  URLs, and \<^verbatim>\<open>URL.Query().Get\<close>. Go 1.16 semantics (\<^verbatim>\<open>src/build/*/Dockerfile\<close> builds with 1.16.6).
\<close>

section \<open>Percent-encoding\<close>

datatype encoding = encodePath | encodeHost | encodeQueryComponent

definition is_alnum :: "char \<Rightarrow> bool" where
  "is_alnum c \<longleftrightarrow> is_upper c \<or> is_lower c \<or> is_digit c"

definition shouldEscape :: "char \<Rightarrow> encoding \<Rightarrow> bool" where
  "shouldEscape c mode =
     (if is_alnum c then False
      else if mode = encodeHost \<and> c \<in> set (CHR 0x27 # CHR 0x22 # ''!$&()*+,;=:[]<>'') then False
      else if c \<in> set ''-_.~'' then False
      else if c \<in> set ''$&+,/:;=?@'' \<and> mode = encodePath then c = CHR ''?''
      else True)"

definition upper_hex :: "nat \<Rightarrow> char" where
  "upper_hex n = (if n < 10 then digit n else char_of (55 + n))"

definition ishex :: "char \<Rightarrow> bool" where
  "ishex c \<longleftrightarrow> is_digit c \<or> (97::nat) \<le> of_char c \<and> of_char c \<le> (102::nat)
     \<or> (65::nat) \<le> of_char c \<and> of_char c \<le> (70::nat)"

definition unhex :: "char \<Rightarrow> nat" where
  "unhex c = (if is_digit c then of_char c - 48
     else if (97::nat) \<le> of_char c then of_char c - 87 else of_char c - 55)"

definition escape_char :: "encoding \<Rightarrow> char \<Rightarrow> string" where
  "escape_char mode c =
     (if c = CHR '' '' \<and> mode = encodeQueryComponent then ''+''
      else if shouldEscape c mode
      then [CHR ''%'', upper_hex (of_char c div 16), upper_hex (of_char c mod 16)]
      else [c])"

definition escape :: "string \<Rightarrow> encoding \<Rightarrow> string" where
  "escape s mode = concat (map (escape_char mode) s)"

definition EscapeError :: "string \<Rightarrow> err" where
  "EscapeError s = Err ''url.EscapeError'' (''invalid URL escape '' @ Quote s)"

definition InvalidHostError :: "string \<Rightarrow> err" where
  "InvalidHostError s =
     Err ''url.InvalidHostError'' (''invalid character '' @ Quote s @ '' in host name'')"

text \<open>In a host, only \<^verbatim>\<open>%25\<close> and encodings of bytes of 128 and more are decoded.\<close>

fun unescape :: "string \<Rightarrow> encoding \<Rightarrow> string res" where
  "unescape [] mode = Inr []"
| "unescape (c # s) mode =
     (if c = CHR ''%'' then
        (case s of
           a # b # t \<Rightarrow>
             (if \<not> (ishex a \<and> ishex b) then Inl (EscapeError [c, a, b])
              else if mode = encodeHost \<and> unhex a < 8 \<and> [a, b] \<noteq> ''25'' then Inl (EscapeError [c, a, b])
              else map_sum id ((#) (char_of (16 * unhex a + unhex b))) (unescape t mode))
         | _ \<Rightarrow> Inl (EscapeError (c # s)))
      else if c = CHR ''+'' \<and> mode = encodeQueryComponent then map_sum id ((#) (CHR '' '')) (unescape s mode)
      else if mode = encodeHost \<and> (of_char c :: nat) < 128 \<and> shouldEscape c mode
      then Inl (InvalidHostError [c])
      else map_sum id ((#) c) (unescape s mode))"

definition validEncodedPath :: "string \<Rightarrow> bool" where
  "validEncodedPath s \<longleftrightarrow>
     (\<forall>c \<in> set s. c \<in> set (CHR 0x27 # ''!$&()*+,;=:@[]%'') \<or> \<not> shouldEscape c encodePath)"

text \<open>Decoding undoes encoding.\<close>

lemma of_char_less [simp]: "(of_char c :: nat) < 256"
  by (metis mod_less_divisor of_char_mod_256 zero_less_numeral)

lemma digit_hex: "n < 10 \<Longrightarrow> of_char (digit n) = (48 + n :: nat)"
  by (simp add: digit_def)

lemma hex_roundtrip: "n < 16 \<Longrightarrow> ishex (upper_hex n) \<and> unhex (upper_hex n) = n"
  by (auto simp: ishex_def unhex_def upper_hex_def digit_hex is_digit_def)

lemma unescape_escape: "mode \<noteq> encodeHost \<Longrightarrow> unescape (escape s mode) mode = Inr s"
proof (induction s)
  case Nil
  then show ?case by (simp add: escape_def)
next
  case (Cons c s)
  have hi: "(of_char c :: nat) div 16 < 16" and lo: "(of_char c :: nat) mod 16 < 16"
    using of_char_less [of c] by (simp_all add: less_mult_imp_div_less)
  have esc: "escape (c # s) mode = escape_char mode c @ escape s mode" by (simp add: escape_def)
  have "\<not> shouldEscape c mode \<Longrightarrow> c \<noteq> CHR ''%'' \<and> (mode = encodeQueryComponent \<longrightarrow> c \<noteq> CHR ''+'')"
    using Cons.prems by (auto simp: shouldEscape_def is_alnum_def is_upper_def is_lower_def is_digit_def)
  then show ?case
    using Cons hex_roundtrip [OF hi] hex_roundtrip [OF lo]
    by (auto simp: esc escape_char_def)
qed


section \<open>URLs\<close>

record URL =
  Scheme :: string
  Host :: string
  Path :: string
  RawPath :: string
  RawQuery :: string

text \<open>
  \<^verbatim>\<open>URL.setPath\<close>: the decoded path, and the given one only if it is not the default encoding.
\<close>

definition setPath :: "string \<Rightarrow> URL \<Rightarrow> URL res" where
  "setPath p u = (case unescape p encodePath of
       Inl e \<Rightarrow> Inl e
     | Inr path \<Rightarrow> Inr (u\<lparr>Path := path, RawPath := (if p = escape path encodePath then [] else p)\<rparr>))"

definition EscapedPath :: "URL \<Rightarrow> string" where
  "EscapedPath u =
     (if RawPath u \<noteq> [] \<and> validEncodedPath (RawPath u) \<and> unescape (RawPath u) encodePath = Inr (Path u)
      then RawPath u
      else if Path u = ''*'' then ''*''
      else escape (Path u) encodePath)"

text \<open>\<open>RequestURI\<close> is what a client writes into the request line.\<close>

definition RequestURI :: "URL \<Rightarrow> string" where
  "RequestURI u =
     (let p = EscapedPath u; p = (if p = [] then ''/'' else p)
      in p @ (if RawQuery u = [] then [] else CHR ''?'' # RawQuery u))"

text \<open>
  \<^verbatim>\<open>url.Parse\<close> for a URL that has a scheme and an authority, the only kind the sources give it:
  control bytes are refused, the fragment is cut off (its own decoding error is not modelled), the
  query follows the first \<^verbatim>\<open>?\<close>, the authority ends at the first \<^verbatim>\<open>/\<close>. The port, if there is one,
  is decimal; an IPv6 address needs its brackets to be told from a port. A user-info part is cut
  off: no caller reads it.
\<close>

definition isCTL :: "char \<Rightarrow> bool" where
  "isCTL c \<longleftrightarrow> (of_char c :: nat) < 32 \<or> (of_char c :: nat) = 127"

definition parse_error :: "string \<Rightarrow> string \<Rightarrow> err" where
  "parse_error u msg = Err ''*url.Error'' (Sprintf ''parse %q: %s'' [Str u, Str msg])"

text \<open>The text after the last \<open>c\<close>, with what stands before it.\<close>

definition CutLast :: "char \<Rightarrow> string \<Rightarrow> (string \<times> string) option" where
  "CutLast c s = (case dropWhile (\<lambda>x. x \<noteq> c) (rev s) of
       [] \<Rightarrow> None
     | _ # r \<Rightarrow> Some (rev r, rev (takeWhile (\<lambda>x. x \<noteq> c) (rev s))))"

definition parseHost :: "string \<Rightarrow> string res" where
  "parseHost host =
     (if HasPrefix host ''['' then
        (case CutLast (CHR '']'') host of
           None \<Rightarrow> Inl (errors_New ''missing ']' in host'')
         | Some (_, colonPort) \<Rightarrow>
             (if colonPort = [] \<or> hd colonPort = CHR '':'' \<and> list_all is_digit (tl colonPort)
              then unescape host encodeHost
              else Inl (Errorf ''invalid port %q after host'' [Str colonPort])))
      else (case CutLast (CHR '':'') host of
           None \<Rightarrow> unescape host encodeHost
         | Some (_, port) \<Rightarrow>
             (if list_all is_digit port then unescape host encodeHost
              else Inl (Errorf ''invalid port %q after host'' [Str (CHR '':'' # port)]))))"

definition scheme_char :: "char \<Rightarrow> bool" where
  "scheme_char c \<longleftrightarrow> is_alnum c \<or> c \<in> set ''+-.''"

definition url_Parse :: "string \<Rightarrow> URL res" where
  "url_Parse raw =
     (let u = fst (Cut (CHR ''#'') raw);
          scheme = takeWhile scheme_char u; rest = dropWhile scheme_char u
      in if list_ex isCTL u then Inl (parse_error raw ''net/url: invalid control character in URL'')
         else if scheme = [] \<or> \<not> (is_upper (hd scheme) \<or> is_lower (hd scheme)) \<or> \<not> HasPrefix rest ''://''
         then Inl (parse_error raw ''not an absolute hierarchical URL'')
         else let (before, query) = Cut (CHR ''?'') (drop 3 rest);
                  authority = takeWhile (\<lambda>c. c \<noteq> CHR ''/'') before;
                  path = dropWhile (\<lambda>c. c \<noteq> CHR ''/'') before;
                  hostport = (case CutLast (CHR ''@'') authority of None \<Rightarrow> authority | Some (_, h) \<Rightarrow> h)
              in case parseHost hostport of
                   Inl e \<Rightarrow> Inl (parse_error raw (Error e))
                 | Inr host \<Rightarrow>
                     (case setPath path \<lparr>Scheme = ToLower scheme, Host = host, Path = [], RawPath = [],
                              RawQuery = (case query of None \<Rightarrow> [] | Some q \<Rightarrow> q)\<rparr> of
                        Inl e \<Rightarrow> Inl (parse_error raw (Error e))
                      | Inr v \<Rightarrow> Inr v))"


text \<open>
  \<^verbatim>\<open>URL.Query()\<close> parses the raw query and drops the pairs that do not decode; \<^verbatim>\<open>Get\<close> answers the
  first value of a key, or the empty string. Go 1.16 separates pairs at \<^verbatim>\<open>&\<close> and at \<^verbatim>\<open>;\<close>.
\<close>

fun SplitAny :: "char list \<Rightarrow> string \<Rightarrow> string list" where
  "SplitAny seps [] = [[]]"
| "SplitAny seps (x # xs) =
     (if x \<in> set seps then [] # SplitAny seps xs
      else (case SplitAny seps xs of [] \<Rightarrow> [[x]] | w # ws \<Rightarrow> (x # w) # ws))"

definition query_pair :: "string \<Rightarrow> (string \<times> string) option" where
  "query_pair kv =
     (if kv = [] then None
      else let (k, v) = Cut (CHR ''='') kv
           in case unescape k encodeQueryComponent of
                Inl _ \<Rightarrow> None
              | Inr key \<Rightarrow>
                  (case unescape (case v of None \<Rightarrow> [] | Some x \<Rightarrow> x) encodeQueryComponent of
                     Inl _ \<Rightarrow> None
                   | Inr val \<Rightarrow> Some (key, val)))"

definition parseQuery :: "string \<Rightarrow> (string \<times> string) list" where
  "parseQuery q = List.map_filter query_pair (SplitAny ''&;'' q)"

definition query_Get :: "URL \<Rightarrow> string \<Rightarrow> string" where
  "query_Get u key = (case map_of (parseQuery (RawQuery u)) key of None \<Rightarrow> [] | Some v \<Rightarrow> v)"

section \<open>Facts about the pieces\<close>

text \<open>A path survives the wire: what the server decodes is the path the client had.\<close>

lemma unescape_EscapedPath: "unescape (EscapedPath u) encodePath = Inr (Path u)"
  by (simp add: EscapedPath_def unescape_escape)

lemma SplitAny_none: "\<forall>c \<in> set s. c \<notin> set seps \<Longrightarrow> SplitAny seps s = [s]"
  by (induction s) auto

text \<open>
  Names made of unreserved bytes (the names of Kubernetes objects, UUIDs, IPv4 addresses) are their
  own encoding.
\<close>

definition unreserved :: "char \<Rightarrow> bool" where
  "unreserved c \<longleftrightarrow> is_alnum c \<or> c \<in> set ''-_.~''"

definition plain :: "string \<Rightarrow> bool" where
  "plain s \<longleftrightarrow> list_all unreserved s"

lemma plain_append [simp]: "plain (s @ t) \<longleftrightarrow> plain s \<and> plain t"
  by (simp add: plain_def)

lemma unreserved_noescape: "unreserved c \<Longrightarrow> \<not> shouldEscape c mode"
  by (auto simp: unreserved_def shouldEscape_def)

lemma unreserved_reserved [simp]:
  "\<not> unreserved (CHR '' '')" "\<not> unreserved (CHR ''!'')" "\<not> unreserved (CHR ''#'')"
  "\<not> unreserved (CHR ''$'')" "\<not> unreserved (CHR ''%'')" "\<not> unreserved (CHR ''&'')"
  "\<not> unreserved (CHR ''('')" "\<not> unreserved (CHR '')'')" "\<not> unreserved (CHR ''*'')"
  "\<not> unreserved (CHR ''+'')" "\<not> unreserved (CHR '','')" "\<not> unreserved (CHR ''/'')"
  "\<not> unreserved (CHR '':'')" "\<not> unreserved (CHR '';'')" "\<not> unreserved (CHR ''='')"
  "\<not> unreserved (CHR ''?'')" "\<not> unreserved (CHR ''@'')" "\<not> unreserved (CHR ''['')"
  "\<not> unreserved (CHR '']'')" "\<not> unreserved (CHR ''<'')" "\<not> unreserved (CHR ''>'')"
  "\<not> unreserved (CHR 0x22)" "\<not> unreserved (CHR 0x27)"
  by (simp_all add: unreserved_def is_alnum_def is_upper_def is_lower_def is_digit_def)

lemma plain_not: "plain s \<Longrightarrow> \<not> unreserved c \<Longrightarrow> c \<notin> set s"
  by (auto simp: plain_def list_all_iff)

lemma unreserved_not_ctl: "unreserved c \<Longrightarrow> \<not> isCTL c"
  by (auto simp: unreserved_def isCTL_def is_alnum_def is_upper_def is_lower_def is_digit_def)

lemma shouldEscape_space [simp]: "shouldEscape CHR '' '' mode"
  by (simp add: shouldEscape_def is_alnum_def is_upper_def is_lower_def is_digit_def)

lemma escape_noescape: "\<forall>c \<in> set s. \<not> shouldEscape c mode \<Longrightarrow> escape s mode = s"
  by (induction s) (auto simp: escape_def escape_char_def)

lemma unescape_noescape:
  "\<forall>c \<in> set s. \<not> shouldEscape c mode \<Longrightarrow> mode \<noteq> encodeHost \<Longrightarrow> unescape s mode = Inr s"
  by (metis escape_noescape unescape_escape)

lemma unescape_host:
  "\<forall>c \<in> set s. \<not> shouldEscape c encodeHost \<Longrightarrow> CHR ''%'' \<notin> set s \<Longrightarrow> unescape s encodeHost = Inr s"
  by (induction s) auto

lemma plain_query: "plain s \<Longrightarrow> unescape s encodeQueryComponent = Inr s"
  by (rule unescape_noescape) (auto simp: plain_def list_all_iff unreserved_noescape)

text \<open>The query of a single pair whose value is plain reads back as that value.\<close>

lemma query_Get_single:
  assumes "plain k" and "plain v" and "RawQuery u = k @ CHR ''='' # v"
  shows "query_Get u k = v"
proof -
  have nm: "c \<in> set (k @ v) \<Longrightarrow> c \<notin> set ''&;=''" for c
    using assms(1,2) plain_not [of k] plain_not [of v] by auto
  then have "SplitAny ''&;'' (k @ CHR ''='' # v) = [k @ CHR ''='' # v]"
    by (intro SplitAny_none) auto
  moreover have "query_pair (k @ CHR ''='' # v) = Some (k, v)"
    using assms plain_not [OF assms(1), of "CHR ''=''"]
    by (simp add: query_pair_def Cut_some plain_query)
  ultimately show ?thesis
    by (simp add: query_Get_def parseQuery_def assms(3) List.map_filter_def)
qed

text \<open>A value ends at the first separator: what follows it belongs to other pairs.\<close>

lemma SplitAny_first: "\<forall>c \<in> set s. c \<notin> set seps \<Longrightarrow> x \<in> set seps \<Longrightarrow> SplitAny seps (s @ x # t) = s # SplitAny seps t"
  by (induction s) auto

lemma query_Get_first:
  assumes "plain k" and "plain v" and "RawQuery u = k @ CHR ''='' # v @ CHR ''&'' # rest"
  shows "query_Get u k = v"
proof -
  have nm: "c \<in> set (k @ v) \<Longrightarrow> c \<notin> set ''&;=''" for c
    using assms(1,2) plain_not [of k] plain_not [of v] by auto
  then have "SplitAny ''&;'' ((k @ CHR ''='' # v) @ CHR ''&'' # rest) = (k @ CHR ''='' # v) # SplitAny ''&;'' rest"
    by (intro SplitAny_first) auto
  moreover have "query_pair (k @ CHR ''='' # v) = Some (k, v)"
    using assms plain_not [OF assms(1), of "CHR ''=''"]
    by (simp add: query_pair_def Cut_some plain_query)
  ultimately show ?thesis
    by (simp add: query_Get_def parseQuery_def assms(3) List.map_filter_def)
qed

definition path_plain :: "string \<Rightarrow> bool" where
  "path_plain p \<longleftrightarrow> (\<forall>c \<in> set p. unreserved c \<or> c = CHR ''/'') \<and> (p = [] \<or> hd p = CHR ''/'')"

lemma slash_noescape: "\<not> shouldEscape (CHR ''/'') encodePath"
  by (simp add: shouldEscape_def)

lemma path_plain_noescape: "path_plain p \<Longrightarrow> c \<in> set p \<Longrightarrow> \<not> shouldEscape c encodePath"
  by (cases "c = CHR ''/''") (auto simp: path_plain_def unreserved_noescape slash_noescape)

lemma setPath_plain: "path_plain p \<Longrightarrow> setPath p u = Inr (u\<lparr>Path := p, RawPath := []\<rparr>)"
  by (simp add: setPath_def unescape_noescape escape_noescape path_plain_noescape)

lemma CutLast_some: "c \<notin> set t \<Longrightarrow> CutLast c (s @ c # t) = Some (s, t)"
proof -
  assume "c \<notin> set t"
  then have "\<forall>x \<in> set (rev t). x \<noteq> c" by auto
  then show ?thesis
    by (simp add: CutLast_def takeWhile_append2 dropWhile_append2 del: set_rev)
qed

lemma CutLast_none: "c \<notin> set s \<Longrightarrow> CutLast c s = None"
proof -
  assume "c \<notin> set s"
  then have "dropWhile (\<lambda>x. x \<noteq> c) (rev s) = []" by (auto simp: dropWhile_eq_Nil_conv)
  then show ?thesis by (simp only: CutLast_def list.case)
qed

text \<open>
  An authority \<^verbatim>\<open>name:port\<close>, as \<^verbatim>\<open>ListPeers\<close> writes it for an IPv4 peer and, without brackets, for an IPv6
  peer: the last colon is the one before the port.
\<close>

definition ip_text :: "string \<Rightarrow> bool" where
  "ip_text s \<longleftrightarrow> list_all (\<lambda>c. unreserved c \<or> c = CHR '':'') s"

lemma plain_ip_text: "plain s \<Longrightarrow> ip_text s"
  by (auto simp: plain_def ip_text_def list_all_iff)

definition hostport_ok :: "string \<Rightarrow> bool" where
  "hostport_ok h \<longleftrightarrow> (case CutLast (CHR '':'') h of
     None \<Rightarrow> False | Some (ip, port) \<Rightarrow> h = ip @ CHR '':'' # port \<and> ip_text ip \<and> list_all is_digit port)"

lemma hostport_okE:
  assumes "hostport_ok h"
  obtains ip port where "h = ip @ CHR '':'' # port" "ip_text ip" "list_all is_digit port"
  using assms by (auto simp: hostport_ok_def split: option.splits)

lemma is_digit_unreserved: "is_digit c \<Longrightarrow> unreserved c"
  by (simp add: unreserved_def is_alnum_def)

lemma digits_plain: "list_all is_digit s \<Longrightarrow> plain s"
  by (auto simp: plain_def list_all_iff is_digit_unreserved)

lemma hostport_chars: "hostport_ok h \<Longrightarrow> c \<in> set h \<Longrightarrow> unreserved c \<or> c = CHR '':''"
  by (erule hostport_okE) (auto simp: ip_text_def list_all_iff is_digit_unreserved)

lemma hostport_not: "hostport_ok h \<Longrightarrow> \<not> unreserved c \<Longrightarrow> c \<noteq> CHR '':'' \<Longrightarrow> c \<notin> set h"
  using hostport_chars by blast

lemma colon_noescape: "\<not> shouldEscape (CHR '':'') encodeHost"
  by (simp add: shouldEscape_def)

lemma HasPrefix_single: "HasPrefix s [c] \<Longrightarrow> c \<in> set s"
  by (auto simp: HasPrefix_iff)

lemma parseHost_ok: "hostport_ok h \<Longrightarrow> parseHost h = Inr h"
proof -
  assume h: "hostport_ok h"
  then obtain ip port where e: "h = ip @ CHR '':'' # port" "ip_text ip" "list_all is_digit port"
    by (rule hostport_okE)
  then have "CHR '':'' \<notin> set port"
    using plain_not [OF digits_plain, of port "CHR '':''"] by simp
  then have "CutLast (CHR '':'') h = Some (ip, port)" by (simp add: e CutLast_some)
  moreover have "\<not> HasPrefix h ''[''"
    using hostport_not [OF h, of "CHR ''[''"] by (auto dest: HasPrefix_single)
  moreover have "unescape h encodeHost = Inr h"
  proof (rule unescape_host)
    show "\<forall>c \<in> set h. \<not> shouldEscape c encodeHost"
      using hostport_chars [OF h] unreserved_noescape colon_noescape by blast
    show "CHR ''%'' \<notin> set h" using hostport_not [OF h, of "CHR ''%''"] by simp
  qed
  ultimately show ?thesis using e(3) by (simp add: parseHost_def)
qed

text \<open>A host as configured for the hub: a plain name, or a name with a port.\<close>

definition host_ok :: "string \<Rightarrow> bool" where
  "host_ok h \<longleftrightarrow> plain h \<or> hostport_ok h"

lemma host_chars: "host_ok h \<Longrightarrow> c \<in> set h \<Longrightarrow> unreserved c \<or> c = CHR '':''"
  by (auto simp: host_ok_def plain_def list_all_iff dest: hostport_chars)

lemma host_not: "host_ok h \<Longrightarrow> \<not> unreserved c \<Longrightarrow> c \<noteq> CHR '':'' \<Longrightarrow> c \<notin> set h"
  using host_chars by blast

lemma parseHost_plain: "plain h \<Longrightarrow> parseHost h = Inr h"
proof -
  assume h: "plain h"
  have "\<not> HasPrefix h ''[''" using plain_not [OF h, of "CHR ''[''"] by (auto dest: HasPrefix_single)
  moreover have "CutLast (CHR '':'') h = None"
    using plain_not [OF h, of "CHR '':''"] by (intro CutLast_none) simp
  moreover have "unescape h encodeHost = Inr h"
    using h plain_not [OF h, of "CHR ''%''"]
    by (intro unescape_host) (auto simp: plain_def list_all_iff unreserved_noescape)
  ultimately show ?thesis by (simp add: parseHost_def)
qed

lemma parseHost_host: "host_ok h \<Longrightarrow> parseHost h = Inr h"
  by (auto simp: host_ok_def parseHost_ok parseHost_plain)

lemma isCTL_lit [simp]: "\<not> isCTL (CHR '':'')" "\<not> isCTL (CHR ''/'')" "\<not> isCTL (CHR ''?'')" "\<not> isCTL (CHR ''='')"
  "\<not> isCTL (CHR ''&'')"
  by (simp_all add: isCTL_def)

definition query_plain :: "string \<Rightarrow> bool" where
  "query_plain q \<longleftrightarrow> (\<forall>c \<in> set q. unreserved c \<or> c = CHR ''='' \<or> c = CHR ''&'')"

text \<open>How a URL the program writes is read back, with or without a query.\<close>

lemma url_Parse_query:
  assumes sch: "scheme \<in> {''http'', ''https'', ''wss''}" and h: "host_ok h" and p: "path_plain p"
    and q: "query_plain q"
  shows "url_Parse (scheme @ ''://'' @ h @ p @ (if q = [] then [] else CHR ''?'' # q)) =
    Inr \<lparr>Scheme = scheme, Host = h, Path = p, RawPath = [], RawQuery = q\<rparr>"
proof -
  let ?q = "if q = [] then [] else CHR ''?'' # q"
  let ?u = "scheme @ ''://'' @ h @ p @ ?q"
  have pc: "c \<in> set p \<Longrightarrow> unreserved c \<or> c = CHR ''/''" for c
    using p by (auto simp: path_plain_def)
  have qc: "c \<in> set ?q \<Longrightarrow> unreserved c \<or> c = CHR ''='' \<or> c = CHR ''&'' \<or> c = CHR ''?''" for c
    using q by (auto simp: query_plain_def split: if_splits)
  have "CHR ''#'' \<notin> set ?u"
    using sch pc [of "CHR ''#''"] host_not [OF h, of "CHR ''#''"] qc [of "CHR ''#''"] by auto
  then have frag: "Cut (CHR ''#'') ?u = (?u, None)" by (rule Cut_none)
  have sc: "takeWhile scheme_char ?u = scheme" "dropWhile scheme_char ?u = ''://'' @ h @ p @ ?q"
    using sch by (auto simp: scheme_char_def is_alnum_def is_upper_def is_lower_def is_digit_def)
  have "\<not> isCTL c" if "c \<in> set (h @ p @ ?q)" for c
  proof -
    from that have "c \<in> set h \<or> c \<in> set p \<or> c \<in> set ?q" by (simp only: set_append Un_iff)
    then have "unreserved c \<or> c = CHR '':'' \<or> c = CHR ''/'' \<or> c = CHR ''='' \<or> c = CHR ''&'' \<or> c = CHR ''?''"
      using pc host_chars [OF h] qc by blast
    then show ?thesis by (auto dest: unreserved_not_ctl)
  qed
  then have ctl: "\<not> list_ex isCTL ?u" using sch
    by (auto simp: list_ex_iff simp del: set_append) (auto simp add: isCTL_def)
  have "CHR ''?'' \<notin> set (h @ p)" using pc [of "CHR ''?''"] host_not [OF h, of "CHR ''?''"] by auto
  then have cq: "Cut (CHR ''?'') (h @ p @ ?q) = (h @ p, if q = [] then None else Some q)"
    using Cut_none [of "CHR ''?''" "h @ p"] Cut_some [of "CHR ''?''" "h @ p" q] by simp
  have sl: "\<forall>c \<in> set h. c \<noteq> CHR ''/''" using host_not [OF h, of "CHR ''/''"] by auto
  have auth: "takeWhile (\<lambda>c. c \<noteq> CHR ''/'') (h @ p) = h" "dropWhile (\<lambda>c. c \<noteq> CHR ''/'') (h @ p) = p"
    using sl p by (cases p; simp add: path_plain_def takeWhile_append2 dropWhile_append2)+
  have user: "CutLast (CHR ''@'') h = None" using host_not [OF h, of "CHR ''@''"] by (intro CutLast_none) auto
  have low: "ToLower scheme = scheme" using sch by (auto simp: ToLower_def lower_def is_upper_def)
  have al: "scheme \<noteq> [] \<and> is_lower (hd scheme)" using sch by (auto simp: is_lower_def)
  show ?thesis
    unfolding url_Parse_def frag Let_def fst_conv sc
    using al ctl by (simp add: cq auth user parseHost_host [OF h] setPath_plain [OF p] low HasPrefix_def)
qed

lemmas url_Parse_plain = url_Parse_query [where q = "[]", simplified]

end
