(* ===== verification/Go_Http.thy ===== *)
theory Go_Http
  imports Go_Url
begin

text \<open>
  The part of Go's \<^verbatim>\<open>net/http\<close> and \<^verbatim>\<open>net/http/httputil\<close> (1.16) that the hub and the agent are
  built on: headers, requests, the response writer of a handler, \<^verbatim>\<open>http.Error\<close>, and the reverse
  proxy with its director, transport, response hook and error handler.

  Bodies are whole strings: a response that breaks off in the middle is not modelled, and with it the
  panic with \<^verbatim>\<open>http.ErrAbortHandler\<close> by which the reverse proxy then ends its handler. Trailers,
  \<^verbatim>\<open>1xx\<close> responses before the final one, and log output are left out.
\<close>

section \<open>Headers\<close>

text \<open>A header is a Go map from canonical keys to value lists.\<close>

type_synonym header = "string \<Rightarrow> string list option"

definition token_char :: "char \<Rightarrow> bool" where
  "token_char c \<longleftrightarrow> is_alnum c \<or> c \<in> set (CHR 0x27 # CHR 0x60 # ''!#$%&*+-.^_|~'')"

fun canonical_from :: "bool \<Rightarrow> string \<Rightarrow> string" where
  "canonical_from up [] = []"
| "canonical_from up (c # s) =
     (if up then upper c else lower c) # canonical_from (c = CHR ''-'') s"

definition CanonicalHeaderKey :: "string \<Rightarrow> string" where
  "CanonicalHeaderKey s = (if list_all token_char s then canonical_from True s else s)"

definition header_Get :: "header \<Rightarrow> string \<Rightarrow> string" where
  "header_Get h k = (case lookup_slice h (CanonicalHeaderKey k) of [] \<Rightarrow> [] | v # _ \<Rightarrow> v)"

definition header_Set :: "string \<Rightarrow> string \<Rightarrow> header \<Rightarrow> header" where
  "header_Set k v h = h(CanonicalHeaderKey k \<mapsto> [v])"

definition header_Del :: "string \<Rightarrow> header \<Rightarrow> header" where
  "header_Del k h = h(CanonicalHeaderKey k := None)"

text \<open>\<open>copyHeader\<close> adds every value of \<open>src\<close> to \<open>dst\<close>.\<close>

definition copyHeader :: "header \<Rightarrow> header \<Rightarrow> header" where
  "copyHeader dst src = (\<lambda>k. case src k of
       None \<Rightarrow> dst k
     | Some [] \<Rightarrow> dst k
     | Some vs \<Rightarrow> Some (lookup_slice dst k @ vs))"

section \<open>Requests and responses\<close>

text \<open>
  The body of a request is a stream that can be read once. Reading or sending it again after it
  was closed is an error. \<open>remoteIP\<close> is the host part of \<^verbatim>\<open>RemoteAddr\<close>, if it splits.
\<close>

datatype body = Body string | ClosedBody

record request =
  Method :: string
  reqURL :: URL
  Header :: header
  reqBody :: body
  ContentLength :: int
  remoteIP :: "string option"

record response =
  StatusCode :: nat
  respHeader :: header
  respBody :: string

definition closeBody :: "request \<Rightarrow> request" where
  "closeBody r = r\<lparr>reqBody := ClosedBody\<rparr>"

abbreviation StatusSwitchingProtocols :: nat where "StatusSwitchingProtocols \<equiv> 101"
abbreviation StatusOK :: nat where "StatusOK \<equiv> 200"
abbreviation StatusBadRequest :: nat where "StatusBadRequest \<equiv> 400"
abbreviation StatusUnauthorized :: nat where "StatusUnauthorized \<equiv> 401"
abbreviation StatusForbidden :: nat where "StatusForbidden \<equiv> 403"
abbreviation StatusNotFound :: nat where "StatusNotFound \<equiv> 404"
abbreviation StatusInternalServerError :: nat where "StatusInternalServerError \<equiv> 500"
abbreviation StatusBadGateway :: nat where "StatusBadGateway \<equiv> 502"

definition StatusText :: "nat \<Rightarrow> string" where
  "StatusText code =
     (if code = 101 then ''Switching Protocols'' else if code = 200 then ''OK''
      else if code = 400 then ''Bad Request'' else if code = 401 then ''Unauthorized''
      else if code = 403 then ''Forbidden'' else if code = 404 then ''Not Found''
      else if code = 500 then ''Internal Server Error'' else if code = 502 then ''Bad Gateway''
      else [])"

section \<open>The response writer\<close>

text \<open>
  \<open>wHeader\<close> is the map a handler edits; the first \<open>WriteHeader\<close> fixes status and header
  (\<open>wStatus\<close>, \<open>wSent\<close>), later ones are ignored. After a hijack nothing goes through the writer.
\<close>

record writer =
  wHeader :: header
  wStatus :: "nat option"
  wSent :: header
  wBody :: string
  wHijacked :: bool

definition newWriter :: writer where
  "newWriter = \<lparr>wHeader = Map.empty, wStatus = None, wSent = Map.empty, wBody = [], wHijacked = False\<rparr>"

definition WriteHeader :: "nat \<Rightarrow> writer \<Rightarrow> writer" where
  "WriteHeader code w =
     (if wHijacked w \<or> wStatus w \<noteq> None then w else w\<lparr>wStatus := Some code, wSent := wHeader w\<rparr>)"

definition Write :: "string \<Rightarrow> writer \<Rightarrow> writer" where
  "Write s w =
     (if wHijacked w then w
      else let w = WriteHeader StatusOK w in w\<lparr>wBody := wBody w @ s\<rparr>)"

definition writer_SetHeader :: "string \<Rightarrow> string \<Rightarrow> writer \<Rightarrow> writer" where
  "writer_SetHeader k v w = w\<lparr>wHeader := header_Set k v (wHeader w)\<rparr>"

definition http_Error :: "string \<Rightarrow> nat \<Rightarrow> writer \<Rightarrow> writer" where
  "http_Error msg code w =
     Write (msg @ [CHR 0x0A])
       (WriteHeader code
         (writer_SetHeader ''X-Content-Type-Options'' ''nosniff''
           (writer_SetHeader ''Content-Type'' ''text/plain; charset=utf-8'' w)))"

text \<open>Nothing has been answered yet on a fresh writer.\<close>

definition fresh :: "writer \<Rightarrow> bool" where
  "fresh w \<longleftrightarrow> wStatus w = None \<and> \<not> wHijacked w \<and> wBody w = []"

lemma fresh_newWriter [simp]: "fresh newWriter"
  by (simp add: fresh_def newWriter_def)

lemma http_Error_fresh:
  "fresh w \<Longrightarrow> wStatus (http_Error msg code w) = Some code \<and> wBody (http_Error msg code w) = msg @ [CHR 0x0A]"
  by (simp add: fresh_def http_Error_def Write_def WriteHeader_def writer_SetHeader_def Let_def)

lemma WriteHeader_fresh:
  "fresh w \<Longrightarrow> wStatus (WriteHeader code w) = Some code \<and> wBody (WriteHeader code w) = []"
  by (simp add: fresh_def WriteHeader_def)

lemma http_Error_hijacked:
  "wHijacked w \<Longrightarrow> wStatus (http_Error msg code w) = wStatus w \<and> wBody (http_Error msg code w) = wBody w"
  by (simp add: http_Error_def Write_def WriteHeader_def writer_SetHeader_def Let_def)


section \<open>The reverse proxy\<close>

subsection \<open>Rewriting the request\<close>

definition singleJoiningSlash :: "string \<Rightarrow> string \<Rightarrow> string" where
  "singleJoiningSlash a b =
     (if HasSuffix a ''/'' \<and> HasPrefix b ''/'' then a @ tl b
      else if \<not> HasSuffix a ''/'' \<and> \<not> HasPrefix b ''/'' then a @ ''/'' @ b
      else a @ b)"

definition joinURLPath :: "URL \<Rightarrow> URL \<Rightarrow> string \<times> string" where
  "joinURLPath a b =
     (if RawPath a = [] \<and> RawPath b = [] then (singleJoiningSlash (Path a) (Path b), [])
      else let apath = EscapedPath a; bpath = EscapedPath b;
               aslash = HasSuffix apath ''/''; bslash = HasPrefix bpath ''/''
           in if aslash \<and> bslash then (Path a @ tl (Path b), apath @ tl bpath)
              else if \<not> aslash \<and> \<not> bslash then (Path a @ ''/'' @ Path b, apath @ ''/'' @ bpath)
              else (Path a @ Path b, apath @ bpath))"

text \<open>The director of \<^verbatim>\<open>httputil.NewSingleHostReverseProxy(target)\<close>.\<close>

definition single_host_director :: "URL \<Rightarrow> request \<Rightarrow> request" where
  "single_host_director target req =
     (let u = reqURL req;
          (p, rp) = joinURLPath target u;
          q = (if RawQuery target = [] \<or> RawQuery u = [] then RawQuery target @ RawQuery u
               else RawQuery target @ ''&'' @ RawQuery u);
          h = (if Header req ''User-Agent'' = None then header_Set ''User-Agent'' [] (Header req) else Header req)
      in req\<lparr>reqURL := \<lparr>Scheme = Scheme target, Host = Host target, Path = p, RawPath = rp, RawQuery = q\<rparr>,
             Header := h\<rparr>)"

definition trimOWS :: "string \<Rightarrow> string" where
  "trimOWS s = (let ows = (\<lambda>c. c = CHR '' '' \<or> c = CHR 0x09)
     in rev (dropWhile ows (rev (dropWhile ows s))))"

definition contains_token :: "string list \<Rightarrow> string \<Rightarrow> bool" where
  "contains_token vs tok =
     list_ex (\<lambda>v. list_ex (\<lambda>t. ToLower (trimOWS t) = ToLower tok) (Split (CHR '','') v)) vs"

definition upgradeType :: "header \<Rightarrow> string" where
  "upgradeType h =
     (if contains_token (lookup_slice h ''Connection'') ''Upgrade'' then ToLower (header_Get h ''Upgrade'') else [])"

definition connection_options :: "header \<Rightarrow> string list" where
  "connection_options h =
     filter (\<lambda>sf. sf \<noteq> []) (map TrimSpace (concat (map (Split (CHR '','')) (lookup_slice h ''Connection''))))"

definition removeConnectionHeaders :: "header \<Rightarrow> header" where
  "removeConnectionHeaders h = fold header_Del (connection_options h) h"

definition hopHeaders :: "string list" where
  "hopHeaders = [''Connection'', ''Proxy-Connection'', ''Keep-Alive'', ''Proxy-Authenticate'',
     ''Proxy-Authorization'', ''Te'', ''Trailer'', ''Transfer-Encoding'', ''Upgrade'']"

definition forwardedFor :: "string option \<Rightarrow> header \<Rightarrow> header" where
  "forwardedFor ip h =
     (case ip of
        None \<Rightarrow> h
      | Some clientIP \<Rightarrow>
          (case h ''X-Forwarded-For'' of
             None \<Rightarrow> header_Set ''X-Forwarded-For'' clientIP h
           | Some [] \<Rightarrow> h
           | Some prior \<Rightarrow> header_Set ''X-Forwarded-For'' (Join prior '', '' @ '', '' @ clientIP) h))"

text \<open>The headers of the outgoing request, from those of the incoming one and of the director's result.\<close>

definition outgoing_header :: "request \<Rightarrow> header \<Rightarrow> header" where
  "outgoing_header req h =
     (let reqUpType = upgradeType h;
          h = removeConnectionHeaders h;
          h = fold header_Del hopHeaders h;
          h = (if contains_token (lookup_slice (Header req) ''Te'') ''trailers''
               then header_Set ''Te'' ''trailers'' h else h);
          h = (if reqUpType = [] then h
               else header_Set ''Upgrade'' reqUpType (header_Set ''Connection'' ''Upgrade'' h))
      in forwardedFor (remoteIP req) h)"

definition outgoing_request :: "(request \<Rightarrow> request) \<Rightarrow> request \<Rightarrow> request" where
  "outgoing_request director req =
     (let outreq = (if ContentLength req = 0 then req\<lparr>reqBody := Body []\<rparr> else req);
          outreq = director outreq
      in outreq\<lparr>Header := outgoing_header req (Header outreq)\<rparr>)"

subsection \<open>The transport\<close>

text \<open>
  \<^verbatim>\<open>http.Transport.RoundTrip\<close> with a fresh transport: it dials, writes the request, reads the
  response. The exchange on the connection is the other side's business, the parameter \<open>exch\<close>.
  When the dial fails, the body is closed and the dial's error is the result; a body that was
  closed before fails as soon as it is to be written, unless the length says there is none.
\<close>

definition ErrBodyReadAfterClose :: err where
  "ErrBodyReadAfterClose = Err ''http.ErrBodyReadAfterClose'' ''http: invalid Read on closed Body''"

definition RoundTrip ::
    "('s \<Rightarrow> 'c res \<times> 's) \<Rightarrow> ('c \<Rightarrow> request \<Rightarrow> 's \<Rightarrow> response res \<times> 's) \<Rightarrow> request \<Rightarrow> 's \<Rightarrow> response res \<times> 's" where
  "RoundTrip dial exch r s =
     (case dial s of
        (Inl e, s) \<Rightarrow> (Inl e, s)
      | (Inr c, s) \<Rightarrow>
          (if reqBody r = ClosedBody \<and> ContentLength r \<noteq> 0 then (Inl ErrBodyReadAfterClose, s)
           else exch c r s))"

subsection \<open>Serving\<close>

text \<open>
  \<^verbatim>\<open>ReverseProxy.ServeHTTP\<close> ends by writing a response or, in tail position, by calling the error
  handler with the \<^emph>\<open>outgoing\<close> request, whose body the transport has closed. Who set the error
  handler continues from \<open>CallErrorHandler\<close>.
\<close>

datatype 's outcome =
    Replied writer 's
  | CallErrorHandler writer request err 's

definition switch_protocols :: "request \<Rightarrow> response \<Rightarrow> writer \<Rightarrow> 's \<Rightarrow> 's outcome" where
  "switch_protocols outreq res w s =
     (let reqUpType = upgradeType (Header outreq); resUpType = upgradeType (respHeader res)
      in if reqUpType \<noteq> resUpType
         then CallErrorHandler w outreq (Errorf ''backend tried to switch protocol %q when %q was requested''
                [Str resUpType, Str reqUpType]) s
         else Replied (w\<lparr>wHeader := copyHeader (wHeader w) (respHeader res), wStatus := Some StatusSwitchingProtocols,
                wSent := copyHeader (wHeader w) (respHeader res), wHijacked := True\<rparr>) s)"

definition ServeHTTP ::
    "(request \<Rightarrow> request) \<Rightarrow> (request \<Rightarrow> 's \<Rightarrow> response res \<times> 's) \<Rightarrow> (response \<Rightarrow> err option) \<Rightarrow>
       request \<Rightarrow> writer \<Rightarrow> 's \<Rightarrow> 's outcome" where
  "ServeHTTP director rt modify req w s =
     (let outreq = outgoing_request director req in
      case rt outreq s of
        (Inl e, s) \<Rightarrow> CallErrorHandler w (closeBody outreq) e s
      | (Inr res, s) \<Rightarrow>
          (if StatusCode res = StatusSwitchingProtocols
           then (case modify res of
                   Some e \<Rightarrow> CallErrorHandler w (closeBody outreq) e s
                 | None \<Rightarrow> switch_protocols (closeBody outreq) res w s)
           else let res = res\<lparr>respHeader := fold header_Del hopHeaders (removeConnectionHeaders (respHeader res))\<rparr>
                in case modify res of
                     Some e \<Rightarrow> CallErrorHandler w (closeBody outreq) e s
                   | None \<Rightarrow>
                       Replied (Write (respBody res) (WriteHeader (StatusCode res)
                         (w\<lparr>wHeader := copyHeader (wHeader w) (respHeader res)\<rparr>))) s))"

text \<open>A proxy without an error handler of its own answers 502.\<close>

definition defaultErrorHandler :: "writer \<Rightarrow> writer" where
  "defaultErrorHandler w = WriteHeader StatusBadGateway w"


section \<open>Facts about the proxy\<close>

subsection \<open>How it ends\<close>

lemma ServeHTTP_failed:
  "rt (outgoing_request d r) s = (Inl e, s') \<Longrightarrow>
     ServeHTTP d rt m r w s = CallErrorHandler w (closeBody (outgoing_request d r)) e s'"
  by (simp add: ServeHTTP_def)

text \<open>The state after a reverse proxy is that after its round trip.\<close>

fun outcome_state :: "'s outcome \<Rightarrow> 's" where
  "outcome_state (Replied w s) = s"
| "outcome_state (CallErrorHandler w r e s) = s"

lemma ServeHTTP_state: "outcome_state (ServeHTTP d rt m r w s) = snd (rt (outgoing_request d r) s)"
  by (simp add: ServeHTTP_def switch_protocols_def Let_def split: prod.split sum.split option.split)

definition relayed_header :: "response \<Rightarrow> header" where
  "relayed_header res = fold header_Del hopHeaders (removeConnectionHeaders (respHeader res))"

definition relay :: "response \<Rightarrow> writer \<Rightarrow> writer" where
  "relay res w = Write (respBody res) (WriteHeader (StatusCode res)
     (w\<lparr>wHeader := copyHeader (wHeader w) (relayed_header res)\<rparr>))"

lemma ServeHTTP_replied:
  "rt (outgoing_request d r) s = (Inr res, s') \<Longrightarrow> StatusCode res \<noteq> StatusSwitchingProtocols \<Longrightarrow>
     m (res\<lparr>respHeader := relayed_header res\<rparr>) = None \<Longrightarrow>
     ServeHTTP d rt m r w s = Replied (relay res w) s'"
  by (simp add: ServeHTTP_def Let_def relay_def relayed_header_def)

lemma ServeHTTP_refused:
  "rt (outgoing_request d r) s = (Inr res, s') \<Longrightarrow> StatusCode res \<noteq> StatusSwitchingProtocols \<Longrightarrow>
     m (res\<lparr>respHeader := relayed_header res\<rparr>) = Some e \<Longrightarrow>
     ServeHTTP d rt m r w s = CallErrorHandler w (closeBody (outgoing_request d r)) e s'"
  by (simp add: ServeHTTP_def Let_def relayed_header_def)

lemma relay_fresh: "fresh w \<Longrightarrow> wStatus (relay res w) = Some (StatusCode res) \<and> wBody (relay res w) = respBody res"
  by (simp add: relay_def fresh_def Write_def WriteHeader_def Let_def)

lemma ContentLength_outgoing:
  "(\<And>r. ContentLength (d r) = ContentLength r) \<Longrightarrow> ContentLength (outgoing_request d r) = ContentLength r"
  by (simp add: outgoing_request_def Let_def)

lemma ContentLength_single_host [simp]: "ContentLength (single_host_director t r) = ContentLength r"
  by (simp add: single_host_director_def Let_def split: prod.splits)

lemma reqURL_outgoing:
  "(\<And>r b. reqURL (d (r\<lparr>reqBody := b\<rparr>)) = reqURL (d r)) \<Longrightarrow> reqURL (outgoing_request d r) = reqURL (d r)"
  by (simp add: outgoing_request_def Let_def)

lemma reqURL_single_host [simp]:
  "reqURL (single_host_director t (r\<lparr>reqBody := b\<rparr>)) = reqURL (single_host_director t r)"
  by (simp add: single_host_director_def Let_def split: prod.splits)

lemma single_host_URL:
  "reqURL (single_host_director t r) =
     \<lparr>Scheme = Scheme t, Host = Host t, Path = fst (joinURLPath t (reqURL r)),
      RawPath = snd (joinURLPath t (reqURL r)),
      RawQuery = (if RawQuery t = [] \<or> RawQuery (reqURL r) = [] then RawQuery t @ RawQuery (reqURL r)
                  else RawQuery t @ ''&'' @ RawQuery (reqURL r))\<rparr>"
  by (simp add: single_host_director_def Let_def split: prod.split)

text \<open>A dial that fails is what the caller gets to see.\<close>

lemma RoundTrip_dial_error: "dial s = (Inl e, s') \<Longrightarrow> RoundTrip dial exch r s = (Inl e, s')"
  by (simp add: RoundTrip_def)

lemma RoundTrip_exch:
  "dial s = (Inr c, s') \<Longrightarrow> reqBody r \<noteq> ClosedBody \<or> ContentLength r = 0 \<Longrightarrow>
     RoundTrip dial exch r s = exch c r s'"
  by (auto simp: RoundTrip_def)

subsection \<open>Paths\<close>

definition slash_path :: "URL \<Rightarrow> bool" where
  "slash_path u \<longleftrightarrow> HasPrefix (Path u) ''/'' \<and> (RawPath u = [] \<or> HasPrefix (RawPath u) ''/'')"

lemma slash_EscapedPath: "slash_path u \<Longrightarrow> HasPrefix (EscapedPath u) ''/''"
  by (auto simp: slash_path_def EscapedPath_def HasPrefix_iff escape_def escape_char_def slash_noescape)

definition base_path :: "string \<Rightarrow> bool" where
  "base_path a \<longleftrightarrow> path_plain a \<and> a \<noteq> [] \<and> \<not> HasSuffix a ''/''"

lemma joinURLPath_slash:
  assumes "base_path (Path a)" and "RawPath a = []" and "slash_path b"
  shows "fst (joinURLPath a b) = Path a @ Path b"
    and "snd (joinURLPath a b) = (if RawPath b = [] then [] else Path a @ EscapedPath b)"
proof -
  have "EscapedPath a = Path a"
    using assms(1,2) path_plain_noescape [of "Path a"]
    by (simp add: EscapedPath_def base_path_def escape_noescape)
  then show "fst (joinURLPath a b) = Path a @ Path b"
    and "snd (joinURLPath a b) = (if RawPath b = [] then [] else Path a @ EscapedPath b)"
    using assms slash_EscapedPath [OF assms(3)]
    by (auto simp: joinURLPath_def base_path_def slash_path_def singleJoiningSlash_def Let_def)
qed

subsection \<open>Headers\<close>

lemma fold_header_Del: "fold header_Del ks h k = (if k \<in> CanonicalHeaderKey ` set ks then None else h k)"
  by (induction ks arbitrary: h) (auto simp: header_Del_def)

lemma canonical_hopHeaders: "map CanonicalHeaderKey hopHeaders = hopHeaders"
  by code_simp

lemma canonical_hop: "CanonicalHeaderKey ` set hopHeaders = set hopHeaders"
  by (metis canonical_hopHeaders list.set_map)

lemma removeConnectionHeaders_other:
  "k \<notin> CanonicalHeaderKey ` set (connection_options h) \<Longrightarrow> removeConnectionHeaders h k = h k"
  by (simp add: removeConnectionHeaders_def fold_header_Del)

end
