(* ===== verification/Hub_Config.thy ===== *)
theory Hub_Config
  imports Prelude
begin

text \<open>
  \<^verbatim>\<open>src/pkg/hub/config.go\<close>: the configuration of the hub, its defaults and its flags. The flag
  package (namsral/flag) is library code: \<^verbatim>\<open>FlagSet.StringVar\<close> is the parameter \<open>StringVar\<close>. The
  pointer \<^verbatim>\<open>&C.X\<close> it is given is a \<open>config_field\<close>.
\<close>

record Config =
  AgentImage :: string
  PublicAddr :: string
  PeerBindAddr :: string
  PeerCertDir :: string
  ServiceNamespace :: string
  ServiceName :: string
  IP :: string

definition hub_C :: Config where
  "hub_C = \<lparr>AgentImage = [], PublicAddr = ''kubernetes.default'', PeerBindAddr = '':6443'',
     PeerCertDir = ''/tmp/k8s-subresource-server/cert'', ServiceNamespace = ''kopilot-system'',
     ServiceName = ''kopilot-hub'', IP = []\<rparr>"

datatype config_field = FAgentImage | FPublicAddr | FPeerBindAddr | FPeerCertDir
  | FServiceNamespace | FServiceName | FIP

fun config_get :: "config_field \<Rightarrow> Config \<Rightarrow> string" where
  "config_get FAgentImage c = AgentImage c"
| "config_get FPublicAddr c = PublicAddr c"
| "config_get FPeerBindAddr c = PeerBindAddr c"
| "config_get FPeerCertDir c = PeerCertDir c"
| "config_get FServiceNamespace c = ServiceNamespace c"
| "config_get FServiceName c = ServiceName c"
| "config_get FIP c = IP c"

fun config_set :: "config_field \<Rightarrow> string \<Rightarrow> Config \<Rightarrow> Config" where
  "config_set FAgentImage v c = c\<lparr>AgentImage := v\<rparr>"
| "config_set FPublicAddr v c = c\<lparr>PublicAddr := v\<rparr>"
| "config_set FPeerBindAddr v c = c\<lparr>PeerBindAddr := v\<rparr>"
| "config_set FPeerCertDir v c = c\<lparr>PeerCertDir := v\<rparr>"
| "config_set FServiceNamespace v c = c\<lparr>ServiceNamespace := v\<rparr>"
| "config_set FServiceName v c = c\<lparr>ServiceName := v\<rparr>"
| "config_set FIP v c = c\<lparr>IP := v\<rparr>"

text \<open>
  \<open>InitFlags\<close> makes its seven calls in order; each reads the default from the configuration as the
  calls before it left it.
\<close>

definition InitFlags ::
    "(config_field \<Rightarrow> string \<Rightarrow> string \<Rightarrow> string \<Rightarrow> 'fs \<times> Config \<Rightarrow> 'fs \<times> Config) \<Rightarrow> 'fs \<times> Config \<Rightarrow> 'fs \<times> Config" where
  "InitFlags StringVar st =
     (let st = StringVar FAgentImage ''agent-image'' (AgentImage (snd st)) [] st;
          st = StringVar FPublicAddr ''public-addr'' (PublicAddr (snd st)) ''public address of server'' st;
          st = StringVar FPeerBindAddr ''peer-bind'' (PeerBindAddr (snd st)) ''peer server bind address'' st;
          st = StringVar FPeerCertDir ''peer-cert-dir'' (PeerCertDir (snd st)) ''certificate directory of peer server'' st;
          st = StringVar FServiceNamespace ''service-namespace'' (ServiceNamespace (snd st)) ''namespace of kopilot-hub service'' st;
          st = StringVar FServiceName ''service-name'' (ServiceName (snd st)) ''name of kopilot-hub service'' st;
          st = StringVar FIP ''ip'' (IP (snd st)) ''IP'' st
      in st)"

lemma config_set_get [simp]: "config_set f (config_get f c) c = c"
  by (cases f) simp_all

lemma config_get_set [simp]:
  "config_get f (config_set g v c) = (if f = g then v else config_get f c)"
  by (cases f; cases g) simp_all

text \<open>What the flag package documents of \<open>StringVar\<close>: the flag is defined and \<^verbatim>\<open>*p = value\<close>.\<close>

type_synonym flags = "(config_field \<times> string \<times> string) list"

definition StringVar_doc :: "config_field \<Rightarrow> string \<Rightarrow> string \<Rightarrow> string \<Rightarrow> flags \<times> Config \<Rightarrow> flags \<times> Config" where
  "StringVar_doc f name value usage st = (fst st @ [(f, name, value)], config_set f value (snd st))"

text \<open>Parsing writes the settings found for the defined flags to the variables they point to.\<close>

definition parse_flags :: "(string \<Rightarrow> string option) \<Rightarrow> flags \<times> Config \<Rightarrow> Config" where
  "parse_flags settings st =
     fold (\<lambda>(f, name, _) c. case settings name of None \<Rightarrow> c | Some v \<Rightarrow> config_set f v c) (fst st) (snd st)"

lemma parse_flags_get:
  "distinct (map fst fs) \<Longrightarrow>
   config_get f (parse_flags settings (fs, c)) =
     (case map_of fs f of
        None \<Rightarrow> config_get f c
      | Some (name, _) \<Rightarrow> (case settings name of None \<Rightarrow> config_get f c | Some v \<Rightarrow> v))"
proof (induction fs arbitrary: c)
  case Nil
  then show ?case by (simp add: parse_flags_def)
next
  case (Cons x fs)
  obtain g name dflt where x: "x = (g, name, dflt)" by (cases x)
  let ?c = "case settings name of None \<Rightarrow> c | Some v \<Rightarrow> config_set g v c"
  have "parse_flags settings (x # fs, c) = parse_flags settings (fs, ?c)"
    by (simp add: parse_flags_def x)
  moreover have "map_of fs g = None" using Cons.prems x by (auto simp: map_of_eq_None_iff)
  ultimately show ?case
    using Cons.IH [of ?c] Cons.prems x by (auto split: option.splits)
qed

text \<open>
  The whole of it: after \<open>InitFlags\<close> and parsing, a field has the value set for its flag, or its default.
\<close>

fun flag_name :: "config_field \<Rightarrow> string" where
  "flag_name FAgentImage = ''agent-image''"
| "flag_name FPublicAddr = ''public-addr''"
| "flag_name FPeerBindAddr = ''peer-bind''"
| "flag_name FPeerCertDir = ''peer-cert-dir''"
| "flag_name FServiceNamespace = ''service-namespace''"
| "flag_name FServiceName = ''service-name''"
| "flag_name FIP = ''ip''"

lemma InitFlags_settings:
  "config_get f (parse_flags settings (InitFlags StringVar_doc ([], hub_C))) =
     (case settings (flag_name f) of None \<Rightarrow> config_get f hub_C | Some v \<Rightarrow> v)"
proof -
  obtain fs c where i: "InitFlags StringVar_doc ([], hub_C) = (fs, c)" by fastforce
  then have d: "distinct (map fst fs)" and m: "\<exists>d. map_of fs f = Some (flag_name f, d)"
    and g: "config_get f c = config_get f hub_C"
    by (cases f; auto simp: InitFlags_def StringVar_doc_def Let_def)+
  from m obtain d where "map_of fs f = Some (flag_name f, d)" ..
  then show ?thesis unfolding i parse_flags_get [OF d] g by simp
qed

end
