(* ===== verification/Api_Types.thy ===== *)
theory Api_Types
  imports Prelude
begin

text \<open>
  \<^verbatim>\<open>src/pkg/apis/kopilot\<close>: the \<open>Cluster\<close> resource, its list type and its API group. The metadata
  structs embedded in them belong to apimachinery: \<open>'m\<close> stands for the object metadata and \<open>'l\<close> for
  the list metadata; code that looks into them takes what it needs as a parameter.
\<close>

definition GroupName :: string where
  "GroupName = ''kopilot.smartx.com''"

record TypeMeta =
  Kind :: string
  APIVersion :: string

record 'm Cluster =
  clusterTypeMeta :: TypeMeta
  ObjectMeta :: 'm
  Token :: string

record ('m, 'l) ClusterList =
  listTypeMeta :: TypeMeta
  ListMeta :: 'l
  Items :: "'m Cluster list"

record GroupVersion =
  gvGroup :: string
  gvVersion :: string

definition SchemeGroupVersion :: GroupVersion where
  "SchemeGroupVersion = \<lparr>gvGroup = GroupName, gvVersion = ''v1alpha1''\<rparr>"

record GroupVersionResource =
  gvrGroup :: string
  gvrVersion :: string
  gvrResource :: string

text \<open>\<^verbatim>\<open>schema.GroupVersion.WithResource\<close>.\<close>

definition WithResource :: "GroupVersion \<Rightarrow> string \<Rightarrow> GroupVersionResource" where
  "WithResource gv resource = \<lparr>gvrGroup = gvGroup gv, gvrVersion = gvVersion gv, gvrResource = resource\<rparr>"

record GroupVersionKind =
  gvkGroup :: string
  gvkVersion :: string
  gvkKind :: string

definition WithKind :: "GroupVersion \<Rightarrow> string \<Rightarrow> GroupVersionKind" where
  "WithKind gv kind = \<lparr>gvkGroup = gvGroup gv, gvkVersion = gvVersion gv, gvkKind = kind\<rparr>"

record GroupKind =
  gkGroup :: string
  gkKind :: string

record GroupResource =
  grGroup :: string
  grResource :: string

text \<open>\<open>Kind\<close> and \<open>Resource\<close> of the package, which leave out the version.\<close>

definition v1alpha1_Kind :: "string \<Rightarrow> GroupKind" where
  "v1alpha1_Kind kind = (let k = WithKind SchemeGroupVersion kind in \<lparr>gkGroup = gvkGroup k, gkKind = gvkKind k\<rparr>)"

definition v1alpha1_Resource :: "string \<Rightarrow> GroupResource" where
  "v1alpha1_Resource resource =
     (let r = WithResource SchemeGroupVersion resource in \<lparr>grGroup = gvrGroup r, grResource = gvrResource r\<rparr>)"

end
