(* ===== verification/Deepcopy.thy ===== *)
theory Deepcopy
  imports Api_Types
begin

text \<open>
  \<^verbatim>\<open>src/pkg/apis/kopilot/v1alpha1/zz_generated.deepcopy.go\<close>: deep copies of clusters and cluster lists,
  over an explicit store, because what they promise is about aliasing: the copy shares no memory with
  the original. A \<^verbatim>\<open>*Cluster\<close>, a \<^verbatim>\<open>*ClusterList\<close> and the backing array of a slice are addresses.

  The metadata structs belong to apimachinery and refer to memory of their own (\<open>'h\<close>, their part of
  the store: maps, slices, what pointers point to); their \<^verbatim>\<open>DeepCopyInto\<close> are the parameters \<open>meta_copy\<close> and
  \<open>list_meta_copy\<close>. For the properties this memory is a map from addresses to cells, and a copy has to be
  made of cells of its own.
\<close>

section \<open>The store\<close>

type_synonym addr = nat

text \<open>A slice is nil or a backing array; the arrays here are never resliced.\<close>

record 'l ClusterList_struct =
  clTypeMeta :: TypeMeta
  clListMeta :: 'l
  clItems :: "addr option"

record ('m, 'l, 'h) store =
  clustersAt :: "addr \<Rightarrow> 'm Cluster option"
  listsAt :: "addr \<Rightarrow> 'l ClusterList_struct option"
  arraysAt :: "addr \<Rightarrow> 'm Cluster list option"
  nextAddr :: addr
  metaStore :: 'h

text \<open>\<open>new\<close> and \<open>make\<close> take the next address.\<close>

definition well_formed :: "('m, 'l, 'h) store \<Rightarrow> bool" where
  "well_formed st \<longleftrightarrow> (\<forall>a. nextAddr st \<le> a \<longrightarrow> clustersAt st a = None \<and> listsAt st a = None \<and> arraysAt st a = None)"

section \<open>Clusters\<close>

text \<open>
  The body of \<^verbatim>\<open>(*Cluster).DeepCopyInto\<close> on the struct it reads: the assignment copies every field, then the
  metadata is copied deeply.
\<close>

definition Cluster_copied :: "('m \<Rightarrow> 'h \<Rightarrow> 'm \<times> 'h) \<Rightarrow> 'm Cluster \<Rightarrow> 'h \<Rightarrow> 'm Cluster \<times> 'h" where
  "Cluster_copied meta_copy c h =
     (let out = c;
          out = out\<lparr>clusterTypeMeta := clusterTypeMeta c\<rparr>;
          (m, h) = meta_copy (ObjectMeta c) h
      in (out\<lparr>ObjectMeta := m\<rparr>, h))"

text \<open>
  A nil or dangling pointer panics: \<open>None\<close>. The two pointers differ, as they do in \<^verbatim>\<open>DeepCopy\<close>.
\<close>

definition Cluster_DeepCopyInto ::
    "('m \<Rightarrow> 'h \<Rightarrow> 'm \<times> 'h) \<Rightarrow> addr \<Rightarrow> addr \<Rightarrow> ('m, 'l, 'h) store \<Rightarrow> ('m, 'l, 'h) store option" where
  "Cluster_DeepCopyInto meta_copy src dst st =
     (case clustersAt st src of
        None \<Rightarrow> None
      | Some c \<Rightarrow>
          let (c', h) = Cluster_copied meta_copy c (metaStore st)
          in Some (st\<lparr>clustersAt := (clustersAt st)(dst \<mapsto> c'), metaStore := h\<rparr>))"

definition Cluster_DeepCopy ::
    "('m \<Rightarrow> 'h \<Rightarrow> 'm \<times> 'h) \<Rightarrow> addr option \<Rightarrow> ('m, 'l, 'h) store \<Rightarrow> (addr option \<times> ('m, 'l, 'h) store) option" where
  "Cluster_DeepCopy meta_copy src st =
     (case src of
        None \<Rightarrow> Some (None, st)
      | Some a \<Rightarrow>
          let out = nextAddr st;
              st = st\<lparr>nextAddr := Suc out\<rparr>
          in map_option (Pair (Some out)) (Cluster_DeepCopyInto meta_copy a out st))"

section \<open>Cluster lists\<close>

text \<open>The loop over \<^verbatim>\<open>in.Items\<close>.\<close>

fun copy_items :: "('m \<Rightarrow> 'h \<Rightarrow> 'm \<times> 'h) \<Rightarrow> 'm Cluster list \<Rightarrow> 'h \<Rightarrow> 'm Cluster list \<times> 'h" where
  "copy_items meta_copy [] h = ([], h)"
| "copy_items meta_copy (c # cs) h =
     (let (c', h) = Cluster_copied meta_copy c h;
          (cs', h) = copy_items meta_copy cs h
      in (c' # cs', h))"

definition ClusterList_DeepCopyInto ::
    "('m \<Rightarrow> 'h \<Rightarrow> 'm \<times> 'h) \<Rightarrow> ('l \<Rightarrow> 'h \<Rightarrow> 'l \<times> 'h) \<Rightarrow> addr \<Rightarrow> addr \<Rightarrow> ('m, 'l, 'h) store \<Rightarrow> ('m, 'l, 'h) store option" where
  "ClusterList_DeepCopyInto meta_copy list_meta_copy src dst st =
     (case listsAt st src of
        None \<Rightarrow> None
      | Some l \<Rightarrow>
          let out = l;
              out = out\<lparr>clTypeMeta := clTypeMeta l\<rparr>;
              (lm, h) = list_meta_copy (clListMeta l) (metaStore st);
              out = out\<lparr>clListMeta := lm\<rparr>;
              st = st\<lparr>metaStore := h\<rparr>
          in (case clItems l of
                None \<Rightarrow> Some (st\<lparr>listsAt := (listsAt st)(dst \<mapsto> out)\<rparr>)
              | Some a \<Rightarrow>
                  (case arraysAt st a of
                     None \<Rightarrow> None
                   | Some cs \<Rightarrow>
                       let arr = nextAddr st;
                           (cs', h) = copy_items meta_copy cs (metaStore st)
                       in Some (st\<lparr>listsAt := (listsAt st)(dst \<mapsto> out\<lparr>clItems := Some arr\<rparr>),
                                  arraysAt := (arraysAt st)(arr \<mapsto> cs'), nextAddr := Suc arr, metaStore := h\<rparr>))))"

definition ClusterList_DeepCopy ::
    "('m \<Rightarrow> 'h \<Rightarrow> 'm \<times> 'h) \<Rightarrow> ('l \<Rightarrow> 'h \<Rightarrow> 'l \<times> 'h) \<Rightarrow> addr option \<Rightarrow> ('m, 'l, 'h) store \<Rightarrow>
       (addr option \<times> ('m, 'l, 'h) store) option" where
  "ClusterList_DeepCopy meta_copy list_meta_copy src st =
     (case src of
        None \<Rightarrow> Some (None, st)
      | Some a \<Rightarrow>
          let out = nextAddr st;
              st = st\<lparr>nextAddr := Suc out\<rparr>
          in map_option (Pair (Some out)) (ClusterList_DeepCopyInto meta_copy list_meta_copy a out st))"

text \<open>
  \<^verbatim>\<open>DeepCopyObject\<close> of either type wraps the pointer into the interface \<^verbatim>\<open>runtime.Object\<close>; a nil pointer gives
  a nil interface.
\<close>

datatype runtime_Object = OCluster addr | OClusterList addr

definition Cluster_DeepCopyObject ::
    "('m \<Rightarrow> 'h \<Rightarrow> 'm \<times> 'h) \<Rightarrow> addr option \<Rightarrow> ('m, 'l, 'h) store \<Rightarrow> (runtime_Object option \<times> ('m, 'l, 'h) store) option" where
  "Cluster_DeepCopyObject meta_copy src st =
     map_option (\<lambda>(c, st). (case c of None \<Rightarrow> None | Some c \<Rightarrow> Some (OCluster c), st)) (Cluster_DeepCopy meta_copy src st)"

definition ClusterList_DeepCopyObject ::
    "('m \<Rightarrow> 'h \<Rightarrow> 'm \<times> 'h) \<Rightarrow> ('l \<Rightarrow> 'h \<Rightarrow> 'l \<times> 'h) \<Rightarrow> addr option \<Rightarrow> ('m, 'l, 'h) store \<Rightarrow>
       (runtime_Object option \<times> ('m, 'l, 'h) store) option" where
  "ClusterList_DeepCopyObject meta_copy list_meta_copy src st =
     map_option (\<lambda>(c, st). (case c of None \<Rightarrow> None | Some c \<Rightarrow> Some (OClusterList c), st))
       (ClusterList_DeepCopy meta_copy list_meta_copy src st)"

section \<open>What apimachinery documents\<close>

text \<open>
  The memory of metadata: \<open>cells m h\<close> are the addresses that can be reached and written from \<open>m\<close>, \<open>view m h\<close>
  what a reader sees; both depend on these cells only.
\<close>

type_synonym 'b mem = "addr \<Rightarrow> 'b option"

definition local_view :: "('m \<Rightarrow> 'b mem \<Rightarrow> 'v) \<Rightarrow> ('m \<Rightarrow> 'b mem \<Rightarrow> addr set) \<Rightarrow> bool" where
  "local_view view cells \<longleftrightarrow>
     (\<forall>m h h'. (\<forall>a \<in> cells m h. h' a = h a) \<longrightarrow> view m h' = view m h \<and> cells m h' = cells m h)"

text \<open>
  In a finite memory a deep copy shows the same, consists of newly allocated cells only, and writes to no cell
  that was there.
  A shallow copy does not: it has the cells of the original.
\<close>

definition copy_doc ::
    "('m \<Rightarrow> 'b mem \<Rightarrow> 'v) \<Rightarrow> ('m \<Rightarrow> 'b mem \<Rightarrow> addr set) \<Rightarrow> ('m \<Rightarrow> 'b mem \<Rightarrow> 'm \<times> 'b mem) \<Rightarrow> bool" where
  "copy_doc view cells copy \<longleftrightarrow>
     (\<forall>m h m' h'. finite (dom h) \<longrightarrow> cells m h \<subseteq> dom h \<longrightarrow> copy m h = (m', h') \<longrightarrow>
        h \<subseteq>\<^sub>m h' \<and> finite (dom h') \<and> view m' h' = view m h \<and> cells m' h' \<subseteq> dom h' - dom h)"

lemma copy_docD:
  assumes "copy_doc view cells copy" and "finite (dom h)" and "cells m h \<subseteq> dom h" and "copy m h = (m', h')"
  shows "h \<subseteq>\<^sub>m h'" and "view m' h' = view m h" and "cells m' h' \<subseteq> dom h' - dom h" and "finite (dom h')"
  using assms unfolding copy_doc_def by blast+

lemma local_viewD:
  assumes "local_view view cells" and "\<forall>a \<in> cells m h. h' a = h a"
  shows "view m h' = view m h" and "cells m h' = cells m h"
  using assms unfolding local_view_def by blast+

lemma mem_extends:
  assumes "local_view view cells" and "cells m h \<subseteq> dom h" and "h \<subseteq>\<^sub>m h'"
  shows "view m h' = view m h" and "cells m h' = cells m h" and "cells m h' \<subseteq> dom h'"
proof -
  have a: "\<forall>a \<in> cells m h. h' a = h a"
    using assms(2,3) unfolding map_le_def by (metis subsetD)
  show "view m h' = view m h" and c: "cells m h' = cells m h" by (rule local_viewD [OF assms(1) a])+
  show "cells m h' \<subseteq> dom h'" unfolding c using assms(2) map_le_implies_dom_le [OF assms(3)] by blast
qed

section \<open>What a copy shows\<close>

definition cluster_view :: "('m \<Rightarrow> 'h \<Rightarrow> 'v) \<Rightarrow> 'h \<Rightarrow> 'm Cluster \<Rightarrow> TypeMeta \<times> 'v \<times> string" where
  "cluster_view view h c = (clusterTypeMeta c, view (ObjectMeta c) h, Token c)"

abbreviation cluster_cells :: "('m \<Rightarrow> 'b mem \<Rightarrow> addr set) \<Rightarrow> 'b mem \<Rightarrow> 'm Cluster \<Rightarrow> addr set" where
  "cluster_cells cells h c \<equiv> cells (ObjectMeta c) h"

lemma Cluster_copied_doc:
  assumes "copy_doc view cells copy" and "finite (dom h)" and "cluster_cells cells h c \<subseteq> dom h"
    and "Cluster_copied copy c h = (c', h')"
  shows "h \<subseteq>\<^sub>m h'" and "cluster_view view h' c' = cluster_view view h c" and "cluster_cells cells h' c' \<subseteq> dom h' - dom h"
    and "finite (dom h')"
proof -
  obtain m' where m: "copy (ObjectMeta c) h = (m', h')" "c' = c\<lparr>ObjectMeta := m'\<rparr>"
    using assms(4) by (auto simp: Cluster_copied_def Let_def split: prod.splits)
  note d = copy_docD [OF assms(1-3) m(1)]
  show "h \<subseteq>\<^sub>m h'" and "cluster_view view h' c' = cluster_view view h c" and "cluster_cells cells h' c' \<subseteq> dom h' - dom h"
    and "finite (dom h')"
    using d by (simp_all add: m(2) cluster_view_def)
qed

lemma copy_items_doc:
  assumes "local_view view cells" and "copy_doc view cells copy" and "finite (dom h)"
    and "\<forall>c \<in> set cs. cluster_cells cells h c \<subseteq> dom h" and "copy_items copy cs h = (cs', h')"
  shows "h \<subseteq>\<^sub>m h' \<and> map (cluster_view view h') cs' = map (cluster_view view h) cs
    \<and> (\<forall>c \<in> set cs'. cluster_cells cells h' c \<subseteq> dom h' - dom h)"
  using assms(3-5)
proof (induction cs arbitrary: h cs' h')
  case Nil
  then show ?case by simp
next
  case (Cons c cs)
  obtain c1 h1 where c: "Cluster_copied copy c h = (c1, h1)" by fastforce
  obtain cs2 h2 where r: "copy_items copy cs h1 = (cs2, h2)" by fastforce
  have e: "cs' = c1 # cs2" "h' = h2" using Cons.prems(3) c r by simp_all
  have in_h: "cluster_cells cells h c \<subseteq> dom h" using Cons.prems(2) by simp
  note d = Cluster_copied_doc [OF assms(2) Cons.prems(1) in_h c]
  have k: "cluster_view view h1 x = cluster_view view h x" "cluster_cells cells h1 x \<subseteq> dom h1" if "x \<in> set cs" for x
  proof -
    have "cluster_cells cells h x \<subseteq> dom h" using Cons.prems(2) that by simp
    note x = mem_extends [OF assms(1) this d(1)]
    from x(1) show "cluster_view view h1 x = cluster_view view h x" by (simp add: cluster_view_def)
    from x(3) show "cluster_cells cells h1 x \<subseteq> dom h1" .
  qed
  have IH: "h1 \<subseteq>\<^sub>m h2" "map (cluster_view view h2) cs2 = map (cluster_view view h1) cs"
    "\<forall>c \<in> set cs2. cluster_cells cells h2 c \<subseteq> dom h2 - dom h1"
    using Cons.IH [OF d(4) _ r] k(2) by blast+
  have "cluster_cells cells h1 c1 \<subseteq> dom h1" using d(3) by blast
  note c1 = mem_extends [OF assms(1) this IH(1)]
  have "cluster_view view h2 c1 = cluster_view view h1 c1" using c1(1) by (simp add: cluster_view_def)
  moreover have "dom h \<subseteq> dom h1" by (rule map_le_implies_dom_le [OF d(1)])
  ultimately show ?case
    using map_le_trans [OF d(1) IH(1)] IH(2,3) d(2,3) c1(2,3) k(1) unfolding e by auto
qed

lemma ClusterList_DeepCopy_items:
  assumes "listsAt st src = Some l" and "clItems l = Some a" and "arraysAt st a = Some cs"
    and "list_meta_copy (clListMeta l) (metaStore st) = (lm, h1)" and "copy_items meta_copy cs h1 = (cs', h2)"
    and "src \<noteq> nextAddr st"
  shows "ClusterList_DeepCopy meta_copy list_meta_copy (Some src) st =
    Some (Some (nextAddr st), st\<lparr>listsAt := (listsAt st)(nextAddr st \<mapsto> l\<lparr>clListMeta := lm, clItems := Some (Suc (nextAddr st))\<rparr>),
      arraysAt := (arraysAt st)(Suc (nextAddr st) \<mapsto> cs'), nextAddr := Suc (Suc (nextAddr st)), metaStore := h2\<rparr>)"
  using assms by (simp add: ClusterList_DeepCopy_def ClusterList_DeepCopyInto_def Let_def)

lemma ClusterList_DeepCopy_nil:
  assumes "listsAt st src = Some l" and "clItems l = None"
    and "list_meta_copy (clListMeta l) (metaStore st) = (lm, h1)"
  shows "ClusterList_DeepCopy meta_copy list_meta_copy (Some src) st =
    Some (Some (nextAddr st), st\<lparr>listsAt := (listsAt st)(nextAddr st \<mapsto> l\<lparr>clListMeta := lm\<rparr>),
      nextAddr := Suc (nextAddr st), metaStore := h1\<rparr>)"
  using assms by (simp add: ClusterList_DeepCopy_def ClusterList_DeepCopyInto_def Let_def)

lemma well_formed_below: "well_formed st \<Longrightarrow> listsAt st a = Some l \<Longrightarrow> a < nextAddr st"
  "well_formed st \<Longrightarrow> arraysAt st a = Some cs \<Longrightarrow> a < nextAddr st"
  unfolding well_formed_def by (metis not_le option.distinct(1))+

text \<open>Writing to new cells changes nothing for metadata that was there before.\<close>

lemma view_overwritten:
  assumes "local_view view cells" and "cells m h \<subseteq> dom h" and "h \<subseteq>\<^sub>m h'" and "dom W \<inter> dom h = {}"
  shows "view m (h' ++ W) = view m h"
proof (rule local_viewD(1) [OF assms(1)], rule ballI)
  fix a assume "a \<in> cells m h"
  then have "a \<in> dom h" using assms(2) by blast
  moreover then have "W a = None" using assms(4) by (auto simp: domIff)
  ultimately show "(h' ++ W) a = h a" using assms(3) by (simp add: map_add_def map_le_def)
qed

section \<open>The properties\<close>

text \<open>
  C37: The deep copy of a cluster list succeeds and is independent of the original. It is a new list over
  a new array; list metadata, and type, metadata and token of the clusters, in order, read as the originals
  do; every list and array of before is as before. No metadata in the copy shares a memory cell with
  anything that was there: whatever is written to the cells of the copies or to the items of the new array,
  the originals read as before.
\<close>

theorem ClusterList_copy_independent:
  fixes st :: "('m, 'l, 'b mem) store"
  assumes "well_formed st" and "listsAt st src = Some l" and "clItems l = Some a" and "arraysAt st a = Some cs"
    and "finite (dom (metaStore st))" and "local_view view cells" and "copy_doc view cells meta_copy"
    and "local_view lview lcells" and "copy_doc lview lcells list_meta_copy"
    and "\<forall>c \<in> set cs. cluster_cells cells (metaStore st) c \<subseteq> dom (metaStore st)"
    and "lcells (clListMeta l) (metaStore st) \<subseteq> dom (metaStore st)"
  shows "\<exists>dst arr l' cs' st'. ClusterList_DeepCopy meta_copy list_meta_copy (Some src) st = Some (Some dst, st')
    \<and> listsAt st' dst = Some l' \<and> clTypeMeta l' = clTypeMeta l \<and> clItems l' = Some arr \<and> arraysAt st' arr = Some cs'
    \<and> listsAt st dst = None \<and> arraysAt st arr = None
    \<and> map (cluster_view view (metaStore st')) cs' = map (cluster_view view (metaStore st)) cs
    \<and> lview (clListMeta l') (metaStore st') = lview (clListMeta l) (metaStore st)
    \<and> (\<forall>b. b \<noteq> dst \<longrightarrow> listsAt st' b = listsAt st b) \<and> clustersAt st' = clustersAt st
    \<and> (\<forall>b i c. arraysAt st b \<noteq> None \<longrightarrow> ((arraysAt st')(arr \<mapsto> cs'[i := c])) b = arraysAt st b)
    \<and> metaStore st \<subseteq>\<^sub>m metaStore st'
    \<and> (\<forall>c \<in> set cs'. cluster_cells cells (metaStore st') c \<inter> dom (metaStore st) = {})
    \<and> lcells (clListMeta l') (metaStore st') \<inter> dom (metaStore st) = {}
    \<and> (\<forall>W. dom W \<subseteq> lcells (clListMeta l') (metaStore st') \<union> (\<Union>c \<in> set cs'. cluster_cells cells (metaStore st') c) \<longrightarrow>
         map (cluster_view view (metaStore st' ++ W)) cs = map (cluster_view view (metaStore st)) cs
         \<and> lview (clListMeta l) (metaStore st' ++ W) = lview (clListMeta l) (metaStore st))"
proof -
  let ?h = "metaStore st"
  obtain lm h1 where lm: "list_meta_copy (clListMeta l) ?h = (lm, h1)" by fastforce
  obtain cs' h2 where cp: "copy_items meta_copy cs h1 = (cs', h2)" by fastforce
  note dl = copy_docD [OF assms(9,5,11) lm]
  have k: "cluster_view view h1 c = cluster_view view ?h c" "cluster_cells cells h1 c \<subseteq> dom h1" if "c \<in> set cs" for c
    using mem_extends [OF assms(6) assms(10) [rule_format, OF that] dl(1)] by (simp_all add: cluster_view_def)
  then have "\<forall>c \<in> set cs. cluster_cells cells h1 c \<subseteq> dom h1" by blast
  note c = copy_items_doc [OF assms(6,7) dl(4) this cp]
  have le: "?h \<subseteq>\<^sub>m h2" using c dl(1) map_le_trans by blast
  have dom: "dom ?h \<subseteq> dom h1" by (rule map_le_implies_dom_le [OF dl(1)])
  have views: "map (cluster_view view h2) cs' = map (cluster_view view ?h) cs" using c k(1) by simp
  have "lcells lm h1 \<subseteq> dom h1" using dl(3) by blast
  note lv = mem_extends [OF assms(8) this c [THEN conjunct1]]
  have lview: "lview lm h2 = lview (clListMeta l) ?h" using lv(1) dl(2) by simp
  have fresh: "\<forall>c \<in> set cs'. cluster_cells cells h2 c \<inter> dom ?h = {}" "lcells lm h2 \<inter> dom ?h = {}"
    using c dom lv(2) dl(3) by blast+
  have W: "map (cluster_view view (h2 ++ W)) cs = map (cluster_view view ?h) cs \<and> lview (clListMeta l) (h2 ++ W) = lview (clListMeta l) ?h"
    if "dom W \<subseteq> lcells lm h2 \<union> (\<Union>c \<in> set cs'. cluster_cells cells h2 c)" for W
  proof -
    have "dom W \<inter> dom ?h = {}" using that fresh by blast
    then show ?thesis
      using view_overwritten [OF assms(6) _ le] view_overwritten [OF assms(8,11) le] assms(10) by (simp add: cluster_view_def)
  qed
  have src: "src \<noteq> nextAddr st" using well_formed_below(1) [OF assms(1,2)] by simp
  have n: "listsAt st (nextAddr st) = None" "arraysAt st (Suc (nextAddr st)) = None"
    using assms(1) by (simp_all add: well_formed_def)
  note d = ClusterList_DeepCopy_items [where list_meta_copy = list_meta_copy and meta_copy = meta_copy, OF assms(2-4) lm cp src]
  show ?thesis
    by (rule exI, rule exI, rule exI [of _ "l\<lparr>clListMeta := lm, clItems := Some (Suc (nextAddr st))\<rparr>"],
      rule exI [of _ cs'], rule exI, intro conjI, rule d) (use n views lview le fresh W in auto)
qed

text \<open>Metadata that is a pointer to a label text, or none: copying it allocates a text of its own.\<close>

definition demo_meta_copy :: "addr option \<Rightarrow> string mem \<Rightarrow> addr option \<times> string mem" where
  "demo_meta_copy m h =
     (case m of None \<Rightarrow> (None, h) | Some a \<Rightarrow> let n = Suc (Max (dom h)) in (Some n, h(n := h a)))"

definition demo_view :: "addr option \<Rightarrow> string mem \<Rightarrow> string option" where
  "demo_view m h = (case m of None \<Rightarrow> None | Some a \<Rightarrow> h a)"

abbreviation demo_cells :: "addr option \<Rightarrow> string mem \<Rightarrow> addr set" where
  "demo_cells m h \<equiv> set_option m"

lemma demo_copy_doc: "copy_doc demo_view demo_cells demo_meta_copy"
  unfolding copy_doc_def
proof (intro allI impI)
  fix m m' and h h' :: "string mem"
  assume f: "finite (dom h)" and s: "set_option m \<subseteq> dom h" and c: "demo_meta_copy m h = (m', h')"
  have n: "Suc (Max (dom h)) \<notin> dom h" using Max_ge [OF f] by (metis Suc_n_not_le_n)
  then have n': "h (Suc (Max (dom h))) = None" by (simp add: domIff)
  show "h \<subseteq>\<^sub>m h' \<and> finite (dom h') \<and> demo_view m' h' = demo_view m h \<and> set_option m' \<subseteq> dom h' - dom h"
    using c f s n n' by (cases m) (auto simp: demo_meta_copy_def demo_view_def Let_def map_le_def)
qed

lemma demo_local: "local_view demo_view demo_cells"
  by (auto simp: local_view_def demo_view_def split: option.split)

definition demo_item :: "addr option Cluster" where
  "demo_item = \<lparr>clusterTypeMeta = \<lparr>Kind = ''Cluster'', APIVersion = ''v1''\<rparr>, ObjectMeta = Some 0, Token = ''t''\<rparr>"

definition demo_list :: "(addr option, addr option, string mem) store" where
  "demo_list = \<lparr>clustersAt = Map.empty,
     listsAt = [0 \<mapsto> \<lparr>clTypeMeta = \<lparr>Kind = ''ClusterList'', APIVersion = ''v1''\<rparr>, clListMeta = Some 1, clItems = Some 1\<rparr>],
     arraysAt = [1 \<mapsto> [demo_item]], nextAddr = 2, metaStore = [0 \<mapsto> ''blue'', 1 \<mapsto> ''page 2'']\<rparr>"

theorem ClusterList_copy_independent_witness:
  "\<exists>dst st'. ClusterList_DeepCopy demo_meta_copy demo_meta_copy (Some 0) demo_list = Some (Some dst, st')
    \<and> listsAt demo_list dst = None \<and> (\<forall>b. b \<noteq> dst \<longrightarrow> listsAt st' b = listsAt demo_list b)"
proof -
  let ?l = "\<lparr>clTypeMeta = \<lparr>Kind = ''ClusterList'', APIVersion = ''v1''\<rparr>, clListMeta = Some 1, clItems = Some 1\<rparr>"
  have 1: "well_formed demo_list" by (simp add: well_formed_def demo_list_def)
  have 2: "listsAt demo_list 0 = Some ?l" "clItems ?l = Some 1" "arraysAt demo_list 1 = Some [demo_item]"
    by (simp_all add: demo_list_def)
  have 3: "finite (dom (metaStore demo_list))" by (simp add: demo_list_def)
  have 4: "\<forall>c \<in> set [demo_item]. cluster_cells demo_cells (metaStore demo_list) c \<subseteq> dom (metaStore demo_list)"
    "demo_cells (clListMeta ?l) (metaStore demo_list) \<subseteq> dom (metaStore demo_list)"
    by (simp_all add: demo_list_def demo_item_def)
  from ClusterList_copy_independent [OF 1 2 3 demo_local demo_copy_doc demo_local demo_copy_doc 4]
  show ?thesis by (elim exE conjE) (intro exI conjI, assumption+)
qed

end
