(* ===== verification/Subresources.thy ===== *)
theory Subresources
  imports Go_Http Session_Manager Hub_Config Api_Types
begin

text \<open>
  \<^verbatim>\<open>src/pkg/hub/cluster/subresources.go\<close>: the three subresources of a cluster object that the hub
  serves through the host cluster's API server. \<^verbatim>\<open>agent\<close> renders the manifest of the agent,
  \<^verbatim>\<open>connect\<close> takes the agent's WebSocket and registers a yamux session over it, \<^verbatim>\<open>proxy\<close> forwards a
  request to the member cluster over such a session, or hands it to a peer hub.

  Everything a handler touches is in a state \<open>'s\<close>. What it calls is a parameter: the cluster client
  (\<open>get\<close>, \<open>IsNotFound\<close>), the WebSocket and yamux libraries (\<open>ws\<close>), the session manager
  (\<open>add\<close>, \<open>dial\<close>), the HTTP exchange with the agent on a stream (\<open>exch\<close>), the peer manager.
\<close>

section \<open>Handlers\<close>

text \<open>A handler answers on the writer; \<open>None\<close> means that it panics or does not return.\<close>

type_synonym 's handler = "request \<Rightarrow> writer \<Rightarrow> 's \<Rightarrow> (writer \<times> 's) option"

type_synonym ('m, 's) cluster_get = "string \<Rightarrow> string \<Rightarrow> 's \<Rightarrow> 'm Cluster res \<times> 's"

text \<open>\<^verbatim>\<open>subresourceserver.Subresource\<close>, the struct the handlers are handed over in.\<close>

record 's Subresource =
  NamespaceScoped :: bool
  subGVR :: GroupVersionResource
  subName :: string
  ConnectMethods :: "string list"
  Connect :: "NamespacedName \<Rightarrow> 's handler"
  Route :: "(NamespacedName \<Rightarrow> string \<Rightarrow> 's handler) option"

text \<open>What the connect handler uses of gorilla/websocket and yamux.\<close>

record 's ws_lib =
  Upgrade :: "nat \<Rightarrow> nat \<Rightarrow> request \<Rightarrow> writer \<Rightarrow> 's \<Rightarrow> conn res \<times> writer \<times> 's"
  UnderlyingConn :: "conn \<Rightarrow> conn"
  yamux_Server :: "conn \<Rightarrow> 's \<Rightarrow> session res \<times> 's"

definition GroupVersionResource_subresource :: GroupVersionResource where
  "GroupVersionResource_subresource =
     \<lparr>gvrGroup = Sprintf ''subresource.%s'' [Str (gvGroup SchemeGroupVersion)],
      gvrVersion = gvVersion SchemeGroupVersion, gvrResource = ''clusters''\<rparr>"

section \<open>connect\<close>

text \<open>
  A nil client makes the handler panic, which matters to nobody: the agent handler builds a connect
  subresource with nil arguments only to ask for its path.
\<close>

definition connect_handler ::
    "(err \<Rightarrow> bool) \<Rightarrow> 's ws_lib \<Rightarrow> ('m, 's) cluster_get option \<Rightarrow>
       (NamespacedName \<Rightarrow> session \<Rightarrow> 's \<Rightarrow> 's) option \<Rightarrow> NamespacedName \<Rightarrow> 's handler" where
  "connect_handler IsNotFound ws client sessionManager key r w s =
     (case client of
        None \<Rightarrow> None
      | Some get \<Rightarrow>
          (case get (Namespace key) (Name key) s of
             (Inl err, s) \<Rightarrow>
               (if IsNotFound err
                then Some (http_Error (StatusText StatusNotFound) StatusNotFound w, s)
                else Some (http_Error (Sprintf ''failed to get cluster: %s'' [Str (Error err)])
                       StatusInternalServerError w, s))
           | (Inr cluster, s) \<Rightarrow>
               let token = query_Get (reqURL r) ''token'' in
               if token \<noteq> Token cluster
               then Some (http_Error (StatusText StatusUnauthorized) StatusUnauthorized w, s)
               else (case Upgrade ws 1024 1024 r w s of
                       (Inl err, w, s) \<Rightarrow>
                         Some (http_Error (Sprintf ''failed to upgrade to WebSocket: %s'' [Str (Error err)])
                           StatusInternalServerError w, s)
                     | (Inr conn, w, s) \<Rightarrow>
                         (case yamux_Server ws (UnderlyingConn ws conn) s of
                            (Inl err, s) \<Rightarrow>
                              Some (http_Error (Sprintf ''failed to multiplex channel: %s'' [Str (Error err)])
                                StatusInternalServerError w, s)
                          | (Inr sess, s) \<Rightarrow>
                              (case sessionManager of
                                 None \<Rightarrow> None
                               | Some add \<Rightarrow> Some (w, add key sess s))))))"

definition NewConnectSubresource ::
    "(err \<Rightarrow> bool) \<Rightarrow> 's ws_lib \<Rightarrow> ('m, 's) cluster_get option \<Rightarrow>
       (NamespacedName \<Rightarrow> session \<Rightarrow> 's \<Rightarrow> 's) option \<Rightarrow> 's Subresource" where
  "NewConnectSubresource IsNotFound ws client sessionManager =
     \<lparr>NamespaceScoped = True, subGVR = GroupVersionResource_subresource, subName = ''connect'',
      ConnectMethods = [''GET''],
      Connect = (\<lambda>key. connect_handler IsNotFound ws client sessionManager key), Route = None\<rparr>"

section \<open>agent\<close>

text \<open>
  The embedded manifest \<^verbatim>\<open>kopilot-agent.yaml\<close>, as \<^verbatim>\<open>text/template\<close> parses it: text and the two
  fields of the data map. \<open>text/template\<close> inserts values as they are, without escaping.
\<close>

datatype tmpl_piece = Text string | Field string

definition NL :: string where "NL = [CHR 0x0A]"
definition DQ :: string where "DQ = [CHR 0x22]"

definition lines_of :: "string list \<Rightarrow> string" where
  "lines_of ls = concat (map (\<lambda>l. l @ NL) ls)"

definition AgentYAMLTemplate :: "tmpl_piece list" where
  "AgentYAMLTemplate =
     [Text (lines_of [''apiVersion: v1'', ''kind: Namespace'', ''metadata:'', ''  name: kopilot-system'',
        ''---'', ''apiVersion: apps/v1'', ''kind: Deployment'', ''metadata:'',
        ''  name: kopilot-agent'', ''  namespace: kopilot-system'', ''spec:'', ''  replicas: 2'',
        ''  selector:'', ''    matchLabels:'', ''      name: kopilot-agent'', ''  template:'',
        ''    metadata:'', ''      labels:'', ''        name: kopilot-agent'', ''    spec:'',
        ''      serviceAccountName: kopilot-agent'', ''      containers:'',
        ''        - name: kopilot-agent''] @ ''          image: '' @ DQ),
      Field ''imageName'',
      Text (DQ @ NL @ lines_of [''          args:'', ''            - -connect''] @ ''            - '' @ DQ),
      Field ''connectURL'',
      Text (DQ @ NL @ lines_of [''---'', ''apiVersion: v1'', ''kind: ServiceAccount'', ''metadata:'',
        ''  name: kopilot-agent'', ''  namespace: kopilot-system'', ''---'',
        ''apiVersion: rbac.authorization.k8s.io/v1'', ''kind: ClusterRoleBinding'', ''metadata:'',
        ''  name: kopilot-agent-cluster-admin'', ''roleRef:'', ''  apiGroup: rbac.authorization.k8s.io'',
        ''  kind: ClusterRole'', ''  name: cluster-admin'', ''subjects:'', ''  - kind: ServiceAccount'',
        ''    name: kopilot-agent'', ''    namespace: kopilot-system''])]"

fun Execute :: "tmpl_piece list \<Rightarrow> (string \<Rightarrow> string option) \<Rightarrow> string" where
  "Execute [] data = []"
| "Execute (Text t # ps) data = t @ Execute ps data"
| "Execute (Field f # ps) data = (case data f of None \<Rightarrow> ''<no value>'' | Some v \<Rightarrow> v) @ Execute ps data"

definition connectURL :: "Config \<Rightarrow> string \<Rightarrow> string \<Rightarrow> string" where
  "connectURL C connectPath token =
     Sprintf ''wss://%s%s?token=%s'' [Str (PublicAddr C), Str connectPath, Str token]"

text \<open>\<open>subPath\<close> is \<^verbatim>\<open>Subresource.Path\<close> of the subresource library.\<close>

definition agent_handler ::
    "(err \<Rightarrow> bool) \<Rightarrow> 's ws_lib \<Rightarrow> ('s Subresource \<Rightarrow> NamespacedName \<Rightarrow> string) \<Rightarrow> Config \<Rightarrow>
       ('m, 's) cluster_get \<Rightarrow> NamespacedName \<Rightarrow> 's handler" where
  "agent_handler IsNotFound ws subPath C get key r w s =
     (case get (Namespace key) (Name key) s of
        (Inl err, s) \<Rightarrow>
          (if IsNotFound err
           then Some (http_Error (StatusText StatusNotFound) StatusNotFound w, s)
           else Some (http_Error (Sprintf ''failed to get cluster: %s'' [Str (Error err)])
                  StatusInternalServerError w, s))
      | (Inr cluster, s) \<Rightarrow>
          let token = query_Get (reqURL r) ''token'' in
          if token \<noteq> Token cluster
          then Some (http_Error (StatusText StatusUnauthorized) StatusUnauthorized w, s)
          else let connectSubresource = NewConnectSubresource IsNotFound ws (None :: ('m, 's) cluster_get option) None;
                   connectPath = subPath connectSubresource key;
                   data = [''imageName'' \<mapsto> AgentImage C, ''connectURL'' \<mapsto> connectURL C connectPath token]
               in Some (Write (Execute AgentYAMLTemplate data) w, s))"

definition NewAgentSubresource ::
    "(err \<Rightarrow> bool) \<Rightarrow> 's ws_lib \<Rightarrow> ('s Subresource \<Rightarrow> NamespacedName \<Rightarrow> string) \<Rightarrow> Config \<Rightarrow>
       ('m, 's) cluster_get \<Rightarrow> 's Subresource" where
  "NewAgentSubresource IsNotFound ws subPath C client =
     \<lparr>NamespaceScoped = True, subGVR = GroupVersionResource_subresource, subName = ''agent'',
      ConnectMethods = [''GET''],
      Connect = (\<lambda>key. agent_handler IsNotFound ws subPath C client key), Route = None\<rparr>"


section \<open>proxy\<close>

text \<open>
  The Go interface \<^verbatim>\<open>PeerManager\<close>. The closure \<^verbatim>\<open>nextPeer\<close> given to \<^verbatim>\<open>TryNextPeer\<close> is a step function
  on its captured variables \<open>'n\<close>.
\<close>

record ('n, 's) PeerManager =
  ListPeers :: "'s \<Rightarrow> string list res \<times> 's"
  TryNextPeer :: "writer \<Rightarrow> request \<Rightarrow> err \<Rightarrow> NamespacedName \<Rightarrow> ('n \<Rightarrow> string \<times> 'n) \<Rightarrow> 'n \<Rightarrow> 's \<Rightarrow> (writer \<times> 's) option"

text \<open>The closure of the error handler: it captures the list of peers and an index that starts at -1.\<close>

type_synonym peer_cursor = "string list \<times> int"

definition nextPeer :: "peer_cursor \<Rightarrow> string \<times> peer_cursor" where
  "nextPeer n =
     (let (peers, idx) = n; idx = idx + 1
      in if int (length peers) \<le> idx then ([], (peers, idx)) else (peers ! nat idx, (peers, idx)))"

definition proxy_director :: "URL \<Rightarrow> string \<Rightarrow> request \<Rightarrow> request" where
  "proxy_director target subpath r =
     (let r = single_host_director target r in r\<lparr>reqURL := (reqURL r)\<lparr>Path := subpath\<rparr>\<rparr>)"

definition proxy_error_handler ::
    "(peer_cursor, 's) PeerManager \<Rightarrow> NamespacedName \<Rightarrow> writer \<Rightarrow> request \<Rightarrow> err \<Rightarrow> 's \<Rightarrow> (writer \<times> 's) option" where
  "proxy_error_handler peerManager key w r e s =
     (case ListPeers peerManager s of
        (Inl err, s) \<Rightarrow>
          Some (http_Error (Sprintf ''failed to list peers: %s'' [Str (Error err)]) StatusInternalServerError w, s)
      | (Inr peers, s) \<Rightarrow> TryNextPeer peerManager w r e key nextPeer (peers, -1) s)"

definition NewProxyHandler ::
    "(err \<Rightarrow> bool) \<Rightarrow> ('m, 's) cluster_get \<Rightarrow> (NamespacedName \<Rightarrow> 's \<Rightarrow> conn res \<times> 's) \<Rightarrow>
       (conn \<Rightarrow> request \<Rightarrow> 's \<Rightarrow> response res \<times> 's) \<Rightarrow> (peer_cursor, 's) PeerManager option \<Rightarrow>
       NamespacedName \<Rightarrow> string \<Rightarrow> 's handler" where
  "NewProxyHandler IsNotFound get dial exch peerManager key subpath r w s =
     (case get (Namespace key) (Name key) s of
        (Inl err, s) \<Rightarrow>
          (if IsNotFound err
           then Some (http_Error (StatusText StatusNotFound) StatusNotFound w, s)
           else Some (http_Error (Sprintf ''failed to get cluster: %s'' [Str (Error err)])
                  StatusInternalServerError w, s))
      | (Inr _, s) \<Rightarrow>
          (case url_Parse ''http://127.0.0.1'' of
             Inl err \<Rightarrow> None
           | Inr target \<Rightarrow>
               (case ServeHTTP (proxy_director target subpath) (RoundTrip (dial key) exch) (\<lambda>_. None) r w s of
                  Replied w s \<Rightarrow> Some (w, s)
                | CallErrorHandler w r e s \<Rightarrow>
                    (case peerManager of
                       None \<Rightarrow> Some (defaultErrorHandler w, s)
                     | Some pm \<Rightarrow> proxy_error_handler pm key w r e s))))"

definition NewProxySubresource ::
    "(err \<Rightarrow> bool) \<Rightarrow> ('m, 's) cluster_get \<Rightarrow> (NamespacedName \<Rightarrow> 's \<Rightarrow> conn res \<times> 's) \<Rightarrow>
       (conn \<Rightarrow> request \<Rightarrow> 's \<Rightarrow> response res \<times> 's) \<Rightarrow> (peer_cursor, 's) PeerManager option \<Rightarrow> 's Subresource" where
  "NewProxySubresource IsNotFound client dial exch peerManager =
     \<lparr>NamespaceScoped = True, subGVR = GroupVersionResource_subresource, subName = ''proxy'',
      ConnectMethods = [''GET''],
      Connect = (\<lambda>key. NewProxyHandler IsNotFound client dial exch peerManager key []),
      Route = Some (\<lambda>key path. NewProxyHandler IsNotFound client dial exch peerManager key path)\<rparr>"


section \<open>The proxy handler, branch by branch\<close>

definition local_target :: URL where
  "local_target = \<lparr>Scheme = ''http'', Host = ''127.0.0.1'', Path = [], RawPath = [], RawQuery = []\<rparr>"

lemma parse_local_target: "url_Parse ''http://127.0.0.1'' = Inr local_target"
proof -
  have "plain ''127.0.0.1''"
    by (simp add: plain_def unreserved_def is_alnum_def is_upper_def is_lower_def is_digit_def)
  then have "host_ok ''127.0.0.1''" by (simp add: host_ok_def)
  from url_Parse_plain [OF _ this, of "''http''" "[]"] show ?thesis
    by (simp add: local_target_def path_plain_def query_plain_def)
qed

text \<open>The request the agent is sent.\<close>

definition agent_request :: "string \<Rightarrow> request \<Rightarrow> request" where
  "agent_request subpath r = outgoing_request (proxy_director local_target subpath) r"

lemma ContentLength_agent [simp]: "ContentLength (agent_request subpath r) = ContentLength r"
  by (simp add: agent_request_def ContentLength_outgoing proxy_director_def Let_def)

lemma agent_request_URL:
  "reqURL (agent_request subpath r) =
     \<lparr>Scheme = ''http'', Host = ''127.0.0.1'', Path = subpath,
      RawPath = snd (joinURLPath local_target (reqURL r)), RawQuery = RawQuery (reqURL r)\<rparr>"
  by (simp add: agent_request_def reqURL_outgoing proxy_director_def Let_def single_host_URL)
     (simp add: local_target_def)

lemma proxy_handler_missing:
  assumes "get (Namespace key) (Name key) s = (Inl e, s1)"
  shows "NewProxyHandler isnf get dial exch pm key subpath r w s =
    Some (if isnf e then http_Error (StatusText StatusNotFound) StatusNotFound w
          else http_Error (''failed to get cluster: '' @ Error e) StatusInternalServerError w, s1)"
  using assms by (simp add: NewProxyHandler_def)

lemma proxy_handler_serve:
  assumes "get (Namespace key) (Name key) s = (Inr cl, s1)"
  shows "NewProxyHandler isnf get dial exch pm key subpath r w s =
    (case ServeHTTP (proxy_director local_target subpath) (RoundTrip (dial key) exch) (\<lambda>_. None) r w s1 of
       Replied w s \<Rightarrow> Some (w, s)
     | CallErrorHandler w r e s \<Rightarrow>
         (case pm of
            None \<Rightarrow> Some (defaultErrorHandler w, s)
          | Some pm \<Rightarrow> proxy_error_handler pm key w r e s))"
  unfolding NewProxyHandler_def parse_local_target using assms by simp

lemma proxy_handler_failed:
  assumes "get (Namespace key) (Name key) s = (Inr cl, s1)"
    and "RoundTrip (dial key) exch (agent_request subpath r) s1 = (Inl e, s2)"
  shows "NewProxyHandler isnf get dial exch pm key subpath r w s =
    (case pm of None \<Rightarrow> Some (defaultErrorHandler w, s2)
     | Some pm \<Rightarrow> proxy_error_handler pm key w (closeBody (agent_request subpath r)) e s2)"
  using ServeHTTP_failed [where rt = "RoundTrip (dial key) exch" and d = "proxy_director local_target subpath",
      OF assms(2) [unfolded agent_request_def]]
  by (simp add: proxy_handler_serve [where get = get and key = key, OF assms(1)] agent_request_def split: option.split)

lemma proxy_handler_replied:
  assumes "get (Namespace key) (Name key) s = (Inr cl, s1)"
    and "RoundTrip (dial key) exch (agent_request subpath r) s1 = (Inr res, s2)"
    and "StatusCode res \<noteq> StatusSwitchingProtocols"
  shows "NewProxyHandler isnf get dial exch pm key subpath r w s = Some (relay res w, s2)"
  using ServeHTTP_replied [where m = "\<lambda>_. None" and rt = "RoundTrip (dial key) exch"
      and d = "proxy_director local_target subpath", OF assms(2) [unfolded agent_request_def] assms(3)]
  by (simp add: proxy_handler_serve [where get = get and key = key, OF assms(1)])

section \<open>The interface of the peer manager\<close>

text \<open>
  What the proxy handler relies on when it hands a request over: asked with the closure over its list
  of peers, the peer manager returns. Then the handler always returns too, without a panic.
\<close>

locale peer_manager =
  fixes pm :: "(peer_cursor, 's) PeerManager"
  assumes try_returns: "TryNextPeer pm w r e key nextPeer (peers, -1) s \<noteq> None"
begin

lemma error_handler_returns: "proxy_error_handler pm key w r e s \<noteq> None"
  using try_returns by (simp add: proxy_error_handler_def split: prod.split sum.split)

lemma proxy_returns: "NewProxyHandler isnf get dial exch (Some pm) key subpath r w s \<noteq> None"
proof -
  obtain res s1 where g: "get (Namespace key) (Name key) s = (res, s1)" by fastforce
  show ?thesis
  proof (cases res)
    case (Inl e)
    with g show ?thesis by (simp add: proxy_handler_missing [where get = get and key = key])
  next
    case (Inr cl)
    with g error_handler_returns show ?thesis
      by (simp add: proxy_handler_serve [where get = get and key = key] split: outcome.split)
  qed
qed

end

end
