(* ===== verification/Connect.thy ===== *)
theory Connect
  imports Subresources
begin

text \<open>
  What the subresources \<open>agent\<close> and \<open>connect\<close> of \<open>Subresources\<close> promise: who is let in, what a
  successful connect leaves behind, what the failures answer, and how the token of a cluster travels
  from its manifest to the connect handler.
\<close>

section \<open>The handlers, branch by branch\<close>

text \<open>Both handlers start alike: they look the cluster up and compare the token.\<close>

lemma connect_missing:
  "get (Namespace key) (Name key) s = (Inl e, s1) \<Longrightarrow>
     connect_handler isnf ws (Some get) add key r w s =
       Some (if isnf e then http_Error (StatusText StatusNotFound) StatusNotFound w
             else http_Error (''failed to get cluster: '' @ Error e) StatusInternalServerError w, s1)"
  by (simp add: connect_handler_def)

lemma agent_missing:
  "get (Namespace key) (Name key) s = (Inl e, s1) \<Longrightarrow>
     agent_handler isnf ws subPath C get key r w s =
       Some (if isnf e then http_Error (StatusText StatusNotFound) StatusNotFound w
             else http_Error (''failed to get cluster: '' @ Error e) StatusInternalServerError w, s1)"
  by (simp add: agent_handler_def)

lemma connect_wrong_token:
  "get (Namespace key) (Name key) s = (Inr cl, s1) \<Longrightarrow> query_Get (reqURL r) ''token'' \<noteq> Token cl \<Longrightarrow>
     connect_handler isnf ws (Some get) add key r w s =
       Some (http_Error (StatusText StatusUnauthorized) StatusUnauthorized w, s1)"
  by (simp add: connect_handler_def)

lemma agent_wrong_token:
  "get (Namespace key) (Name key) s = (Inr cl, s1) \<Longrightarrow> query_Get (reqURL r) ''token'' \<noteq> Token cl \<Longrightarrow>
     agent_handler isnf ws subPath C get key r w s =
       Some (http_Error (StatusText StatusUnauthorized) StatusUnauthorized w, s1)"
  by (simp add: agent_handler_def)

lemma connect_right_token:
  assumes "get (Namespace key) (Name key) s = (Inr cl, s1)" and "query_Get (reqURL r) ''token'' = Token cl"
  shows "connect_handler isnf ws (Some get) (Some add) key r w s =
    (case Upgrade ws 1024 1024 r w s1 of
       (Inl err, w, s) \<Rightarrow>
         Some (http_Error (''failed to upgrade to WebSocket: '' @ Error err) StatusInternalServerError w, s)
     | (Inr conn, w, s) \<Rightarrow>
         (case yamux_Server ws (UnderlyingConn ws conn) s of
            (Inl err, s) \<Rightarrow>
              Some (http_Error (''failed to multiplex channel: '' @ Error err) StatusInternalServerError w, s)
          | (Inr sess, s) \<Rightarrow> Some (w, add key sess s)))"
  using assms by (simp add: connect_handler_def split: prod.split sum.split)

lemma agent_right_token:
  fixes get :: "('m, 's) cluster_get"
  assumes "get (Namespace key) (Name key) s = (Inr cl, s1)" and "query_Get (reqURL r) ''token'' = Token cl"
  shows "agent_handler isnf ws subPath C get key r w s =
    Some (Write (Execute AgentYAMLTemplate [''imageName'' \<mapsto> AgentImage C, ''connectURL'' \<mapsto>
        connectURL C (subPath (NewConnectSubresource isnf ws (None :: ('m, 's) cluster_get option) None) key) (Token cl)]) w, s1)"
  using assms by (simp add: agent_handler_def Let_def)

section \<open>The URL in the manifest\<close>

lemma connectURL_append:
  "connectURL C path token = ''wss'' @ ''://'' @ PublicAddr C @ path @ CHR ''?'' # ''token='' @ token"
  by (simp add: connectURL_def)

lemma plain_token: "plain ''token''"
  by (simp add: plain_def unreserved_def is_alnum_def is_lower_def)

lemma connectURL_parse:
  assumes "host_ok (PublicAddr C)" and "path_plain path" and "\<forall>c \<in> set token. unreserved c \<or> c = CHR ''&''"
  shows "url_Parse (connectURL C path token) =
    Inr \<lparr>Scheme = ''wss'', Host = PublicAddr C, Path = path, RawPath = [], RawQuery = ''token'' @ CHR ''='' # token\<rparr>"
proof -
  have "query_plain (''token'' @ CHR ''='' # token)"
    using assms(3) plain_token unfolding query_plain_def plain_def list_all_iff by auto
  from url_Parse_query [OF _ assms(1,2) this, of "''wss''"] show ?thesis
    unfolding connectURL_append by simp
qed

text \<open>The manifest holds the URL on a line of its own, as the only argument after \<^verbatim>\<open>-connect\<close>.\<close>

definition url_line :: "string \<Rightarrow> string" where
  "url_line u = NL @ ''            - -connect'' @ NL @ ''            - '' @ DQ @ u @ DQ @ NL"

lemma lines_of_simps: "lines_of [] = []" "lines_of (l # ls) = l @ NL @ lines_of ls"
  by (simp_all add: lines_of_def)

lemma manifest_line:
  "\<exists>pre post. Execute AgentYAMLTemplate [''imageName'' \<mapsto> img, ''connectURL'' \<mapsto> u] = pre @ url_line u @ post"
proof -
  obtain t1 t2 where t: "AgentYAMLTemplate =
      [Text t1, Field ''imageName'',
       Text (DQ @ NL @ lines_of [''          args:'', ''            - -connect''] @ ''            - '' @ DQ),
       Field ''connectURL'', Text (DQ @ NL @ t2)]"
    unfolding AgentYAMLTemplate_def by blast
  have f: "([''imageName'' \<mapsto> img, ''connectURL'' \<mapsto> u]) ''imageName'' = Some img"
    "([''imageName'' \<mapsto> img, ''connectURL'' \<mapsto> u]) ''connectURL'' = Some u" by simp_all
  have "Execute AgentYAMLTemplate [''imageName'' \<mapsto> img, ''connectURL'' \<mapsto> u] =
      (t1 @ img @ DQ @ NL @ ''          args:'') @ url_line u @ t2"
    unfolding t Execute.simps f option.case lines_of_simps url_line_def append_assoc append_Nil append_Nil2 ..
  then show ?thesis by blast
qed

section \<open>Properties\<close>

text \<open>
  Without the token of the cluster nobody is let in: both handlers answer 401 and stop, so the
  connect handler neither upgrades the connection nor registers a session.
\<close>

lemma wrong_token_refused:
  assumes "get (Namespace key) (Name key) s = (Inr cl, s1)" and "query_Get (reqURL r) ''token'' \<noteq> Token cl"
    and "fresh w"
  shows "\<exists>w'. wStatus w' = Some 401 \<and> wBody w' = ''Unauthorized'' @ NL
    \<and> connect_handler isnf ws (Some get) add key r w s = Some (w', s1)
    \<and> agent_handler isnf ws subPath C get key r w s = Some (w', s1)"
  using connect_wrong_token [where get = get and key = key, OF assms(1,2)]
    agent_wrong_token [where get = get and key = key, OF assms(1,2)] http_Error_fresh [OF assms(3)]
  by (intro exI [of _ "http_Error (StatusText StatusUnauthorized) StatusUnauthorized w"])
     (simp add: StatusText_def NL_def)

definition demo_cluster :: "string \<Rightarrow> unit Cluster" where
  "demo_cluster token = \<lparr>clusterTypeMeta = \<lparr>Kind = ''Cluster'', APIVersion = []\<rparr>, ObjectMeta = (), Token = token\<rparr>"

definition demo_lookup :: "string \<Rightarrow> (unit, 's) cluster_get" where
  "demo_lookup token ns name s = (Inr (demo_cluster token), s)"

definition demo_query :: "string \<Rightarrow> request" where
  "demo_query q = \<lparr>Method = ''GET'', reqURL = \<lparr>Scheme = [], Host = [], Path = ''/'', RawPath = [], RawQuery = q\<rparr>,
     Header = Map.empty, reqBody = Body [], ContentLength = 0, remoteIP = None\<rparr>"

lemma demo_lookup [simp]: "demo_lookup token (Namespace k) (Name k) s = (Inr (demo_cluster token), s)"
  by (simp add: demo_lookup_def)

lemma demo_token: "query_Get (reqURL (demo_query ''token=abc'')) ''token'' = ''abc''"
  by (rule query_Get_single)
     (simp_all add: demo_query_def plain_def unreserved_def is_alnum_def is_lower_def)

text \<open>Libraries for the witnesses: the WebSocket comes up, or the upgrade answers 400 itself and fails.\<close>

definition demo_ws :: "bool \<Rightarrow> nat hub ws_lib" where
  "demo_ws ok = \<lparr>Upgrade = (\<lambda>_ _ r w s. if ok then (Inr 5, w\<lparr>wStatus := Some 101, wHijacked := True\<rparr>, s)
       else (Inl (errors_New ''not a websocket handshake''), http_Error ''Bad Request'' 400 w, s)),
     UnderlyingConn = (\<lambda>c. c), yamux_Server = (\<lambda>c s. (Inr (c + 10), s))\<rparr>"

text \<open>
  C14: A session is registered only when the token is right, the WebSocket comes up and yamux takes it
  over; then it is registered under the cluster of the route, once, and the handler writes nothing more
  than the upgrade did. In every other case the session manager is not called: the answer and the state
  do not depend on it.
\<close>

theorem connect_registers:
  assumes "get (Namespace key) (Name key) s = (res, s1)"
    and "connect_handler isnf ws (Some get) (Some add) key r w s = Some (w', s')"
  shows "(\<exists>cl conn s2 sess s3. res = Inr cl \<and> query_Get (reqURL r) ''token'' = Token cl
      \<and> Upgrade ws 1024 1024 r w s1 = (Inr conn, w', s2)
      \<and> yamux_Server ws (UnderlyingConn ws conn) s2 = (Inr sess, s3) \<and> s' = add key sess s3)
    \<or> (\<forall>add'. connect_handler isnf ws (Some get) add' key r w s = Some (w', s'))"
proof (cases res)
  case (Inl e)
  then show ?thesis
    using assms connect_missing [where get = get and key = key, OF assms(1) [unfolded Inl]] by simp
next
  case (Inr cl)
  show ?thesis
  proof (cases "query_Get (reqURL r) ''token'' = Token cl")
    case False
    then show ?thesis
      using assms connect_wrong_token [where get = get and key = key, OF assms(1) [unfolded Inr] False] by simp
  next
    case True
    have g: "get (Namespace key) (Name key) s = (Inr cl, s1)" using assms(1) Inr by simp
    show ?thesis
      using assms(2) True Inr
      unfolding connect_right_token [where get = get and key = key, OF g True]
      by (auto simp: connect_handler_def g split: prod.splits sum.splits)
  qed
qed

theorem connect_registers_witness:
  "\<exists>w' h'. connect_handler (\<lambda>_. False) (demo_ws True) (Some (demo_lookup ''abc'')) (Some (add_session demo_ks)) demo_key
     (demo_query ''token=abc'') newWriter demo_hub = Some (w', h') \<and> 15 \<in># held h' (demo_ks demo_key)"
proof -
  have t: "query_Get (reqURL (demo_query ''token=abc'')) ''token'' = Token (demo_cluster ''abc'')"
    by (simp add: demo_token demo_cluster_def)
  have c: "connect_handler (\<lambda>_. False) (demo_ws True) (Some (demo_lookup ''abc'')) (Some (add_session demo_ks)) demo_key
     (demo_query ''token=abc'') newWriter demo_hub =
       Some (newWriter\<lparr>wStatus := Some 101, wHijacked := True\<rparr>, add_session demo_ks demo_key 15 demo_hub)"
    unfolding connect_right_token [where get = "demo_lookup ''abc''" and key = demo_key, OF demo_lookup t]
    by (simp add: demo_ws_def)
  have n: "connect_handler (\<lambda>_. False) (demo_ws True) (Some (demo_lookup ''abc'')) None demo_key
     (demo_query ''token=abc'') newWriter demo_hub = None"
    by (simp add: connect_handler_def t demo_ws_def)
  from connect_registers [where get = "demo_lookup ''abc''" and key = demo_key, OF demo_lookup c] n
  have "\<exists>sess s3. add_session demo_ks demo_key 15 demo_hub = add_session demo_ks demo_key sess s3" by auto
  with c show ?thesis by (simp add: sm.add_held)
qed

text \<open>
  C30: A failed upgrade is answered twice. \<^verbatim>\<open>Upgrader.Upgrade\<close> replies to the client itself when it fails;
  the handler then calls \<^verbatim>\<open>http.Error\<close> with status 500, which does not reach the client as a status:
  the status stays the first one, and the second message is appended to the body of the first.
\<close>

theorem failed_upgrade_answered_twice:
  assumes "get (Namespace key) (Name key) s = (Inr cl, s1)" and "query_Get (reqURL r) ''token'' = Token cl"
    and "Upgrade ws 1024 1024 r w s1 = (Inl e, w1, s2)" and "wStatus w1 = Some c" and "\<not> wHijacked w1"
  shows "\<exists>w'. connect_handler isnf ws (Some get) (Some add) key r w s = Some (w', s2)
    \<and> wStatus w' = Some c \<and> wBody w' = wBody w1 @ ''failed to upgrade to WebSocket: '' @ Error e @ NL"
  using assms(3-) connect_right_token [where get = get and key = key and isnf = isnf and ws = ws and add = add
      and w = w, OF assms(1,2)]
  by (simp add: http_Error_def Write_def WriteHeader_def writer_SetHeader_def Let_def NL_def)

theorem failed_upgrade_answered_twice_witness:
  "\<exists>w' h'. connect_handler (\<lambda>_. False) (demo_ws False) (Some (demo_lookup ''abc'')) (Some (add_session demo_ks)) demo_key
     (demo_query ''token=abc'') newWriter demo_hub = Some (w', h') \<and> wStatus w' = Some 400"
proof -
  have t: "query_Get (reqURL (demo_query ''token=abc'')) ''token'' = Token (demo_cluster ''abc'')"
    by (simp add: demo_token demo_cluster_def)
  have u: "Upgrade (demo_ws False) 1024 1024 (demo_query ''token=abc'') newWriter demo_hub =
    (Inl (errors_New ''not a websocket handshake''), http_Error ''Bad Request'' 400 newWriter, demo_hub)"
    by (simp add: demo_ws_def)
  have h: "\<not> wHijacked (http_Error ''Bad Request'' 400 newWriter)"
    by (simp add: http_Error_def Write_def WriteHeader_def writer_SetHeader_def newWriter_def Let_def)
  have "wStatus (http_Error ''Bad Request'' 400 newWriter) = Some 400" by (simp add: http_Error_fresh)
  from failed_upgrade_answered_twice [where get = "demo_lookup ''abc''" and key = demo_key and add = "add_session demo_ks",
      OF demo_lookup t u this h] show ?thesis by fast
qed

text \<open>
  When yamux refuses the upgraded connection, nobody is told: the connection is hijacked, so the
  error message goes nowhere, and the handler returns with the connection open and no session
  registered.
\<close>

lemma failed_multiplex_unanswered:
  assumes "get (Namespace key) (Name key) s = (Inr cl, s1)" and "query_Get (reqURL r) ''token'' = Token cl"
    and "Upgrade ws 1024 1024 r w s1 = (Inr conn, w1, s2)" and "wHijacked w1"
    and "yamux_Server ws (UnderlyingConn ws conn) s2 = (Inl e, s3)"
  shows "\<exists>w'. connect_handler isnf ws (Some get) (Some add) key r w s = Some (w', s3)
    \<and> wStatus w' = wStatus w1 \<and> wBody w' = wBody w1"
  using assms(3-) connect_right_token [where get = get and key = key and isnf = isnf and ws = ws and add = add
      and w = w, OF assms(1,2)]
  by (simp add: http_Error_hijacked)

text \<open>
  C18: The manifest the agent subresource hands out lets its agent in. For a token of unreserved bytes
  (a UUID is one), the manifest has a line with a URL that parses to the public address of the hub and
  the path of the connect subresource, and every request with the query of this URL carries the token
  the connect handler compares with.
\<close>

theorem manifest_lets_agent_in:
  fixes get :: "('m, 's) cluster_get"
  assumes "get (Namespace key) (Name key) s = (Inr cl, s1)" and "query_Get (reqURL r) ''token'' = Token cl"
    and "path = subPath (NewConnectSubresource isnf ws (None :: ('m, 's) cluster_get option) None) key"
    and "host_ok (PublicAddr C)" and "path_plain path" and "plain (Token cl)"
  shows "\<exists>pre url post u. agent_handler isnf ws subPath C get key r w s = Some (Write (pre @ url_line url @ post) w, s1)
    \<and> url_Parse url = Inr u \<and> Scheme u = ''wss'' \<and> Host u = PublicAddr C \<and> Path u = path
    \<and> (\<forall>r'. RawQuery (reqURL r') = RawQuery u \<longrightarrow> query_Get (reqURL r') ''token'' = Token cl)"
proof -
  let ?url = "connectURL C path (Token cl)"
  have "\<forall>c \<in> set (Token cl). unreserved c \<or> c = CHR ''&''" using assms(6) by (simp add: plain_def list_all_iff)
  note u = connectURL_parse [OF assms(4,5) this]
  obtain pre post where m: "Execute AgentYAMLTemplate [''imageName'' \<mapsto> AgentImage C, ''connectURL'' \<mapsto> ?url] =
      pre @ url_line ?url @ post" using manifest_line by blast
  have a: "agent_handler isnf ws subPath C get key r w s = Some (Write (pre @ url_line ?url @ post) w, s1)"
    using agent_right_token [where get = get and key = key and isnf = isnf and ws = ws and subPath = subPath and C = C
        and w = w, OF assms(1,2)]
    by (simp only: assms(3) [symmetric] m)
  have "query_Get (reqURL r') ''token'' = Token cl" if "RawQuery (reqURL r') = ''token'' @ CHR ''='' # Token cl" for r'
    using query_Get_single [OF plain_token assms(6) that] .
  with a u show ?thesis by (intro exI conjI) auto
qed

theorem manifest_lets_agent_in_witness:
  "\<exists>w' s'. agent_handler (\<lambda>_. False) (demo_ws True) (\<lambda>_ _. ''/connect'') (hub_C\<lparr>PublicAddr := ''hub.example.com:443''\<rparr>)
     (demo_lookup ''abc'') demo_key (demo_query ''token=abc'') newWriter demo_hub = Some (w', s') \<and> wStatus w' = Some 200"
proof -
  have t: "query_Get (reqURL (demo_query ''token=abc'')) ''token'' = Token (demo_cluster ''abc'')"
    by (simp add: demo_token demo_cluster_def)
  have h: "host_ok (PublicAddr (hub_C\<lparr>PublicAddr := ''hub.example.com:443''\<rparr>))" and p: "path_plain ''/connect''"
    and tk: "plain (Token (demo_cluster ''abc''))"
    by (simp_all add: host_ok_def hostport_ok_def ip_text_def CutLast_def path_plain_def demo_cluster_def plain_def unreserved_def is_alnum_def is_upper_def
      is_lower_def is_digit_def)
  from manifest_lets_agent_in [where get = "demo_lookup ''abc''" and key = demo_key and isnf = "\<lambda>_. False" and ws = "demo_ws True" and subPath = "\<lambda>_ _. ''/connect''",
      OF demo_lookup t refl h p tk]
  obtain m where "agent_handler (\<lambda>_. False) (demo_ws True) (\<lambda>_ _. ''/connect'') (hub_C\<lparr>PublicAddr := ''hub.example.com:443''\<rparr>)
     (demo_lookup ''abc'') demo_key (demo_query ''token=abc'') newWriter demo_hub = Some (Write m newWriter, demo_hub)" by blast
  then show ?thesis by (simp add: Write_def WriteHeader_def newWriter_def Let_def)
qed

text \<open>
  C29: A token with a separator in it locks its agent out. The manifest's URL carries the token as it
  is, so the hub reads it back cut off at the first \<^verbatim>\<open>&\<close> and answers 401 to the agent it has itself
  configured.
\<close>

theorem separator_in_token_locks_out:
  assumes "get (Namespace key) (Name key) s = (Inr cl, s1)" and "Token cl = a @ CHR ''&'' # b" and "plain a" and "plain b"
    and "host_ok (PublicAddr C)" and "path_plain path" and "fresh w"
  shows "\<exists>u. url_Parse (connectURL C path (Token cl)) = Inr u
    \<and> (\<forall>r. RawQuery (reqURL r) = RawQuery u \<longrightarrow>
         (\<exists>w'. connect_handler isnf ws (Some get) add key r w s = Some (w', s1) \<and> wStatus w' = Some 401))"
proof -
  have "\<forall>c \<in> set (Token cl). unreserved c \<or> c = CHR ''&''"
    using assms(2-4) by (auto simp: plain_def list_all_iff)
  note u = connectURL_parse [OF assms(5,6) this]
  have "\<exists>w'. connect_handler isnf ws (Some get) add key r w s = Some (w', s1) \<and> wStatus w' = Some 401"
    if q: "RawQuery (reqURL r) = ''token'' @ CHR ''='' # Token cl" for r
  proof -
    have "query_Get (reqURL r) ''token'' = a"
      using query_Get_first [OF plain_token assms(3)] q by (simp add: assms(2))
    then have "query_Get (reqURL r) ''token'' \<noteq> Token cl" by (simp add: assms(2))
    from connect_wrong_token [where get = get and key = key, OF assms(1) this] show ?thesis
      using http_Error_fresh [OF assms(7)] by simp
  qed
  with u show ?thesis by auto
qed

theorem separator_in_token_locks_out_witness:
  "\<exists>w'. connect_handler (\<lambda>_. False) (demo_ws True) (Some (demo_lookup ''ab&cd'')) (Some (add_session demo_ks)) demo_key
     (demo_query ''token=ab&cd'') newWriter demo_hub = Some (w', demo_hub) \<and> wStatus w' = Some 401"
proof -
  have h: "host_ok (PublicAddr (hub_C\<lparr>PublicAddr := ''hub.example.com:443''\<rparr>))" and p: "path_plain ''/connect''"
    and tk: "plain ''ab''" "plain ''cd''" and "Token (demo_cluster ''ab&cd'') = ''ab'' @ CHR ''&'' # ''cd''"
    by (simp_all add: host_ok_def hostport_ok_def ip_text_def CutLast_def path_plain_def demo_cluster_def plain_def unreserved_def is_alnum_def is_upper_def
      is_lower_def is_digit_def)
  from separator_in_token_locks_out [where get = "demo_lookup ''ab&cd''" and key = demo_key and isnf = "\<lambda>_. False"
      and ws = "demo_ws True" and add = "Some (add_session demo_ks)" and s = demo_hub, OF demo_lookup this(5) tk h p fresh_newWriter]
  obtain u where "url_Parse (connectURL (hub_C\<lparr>PublicAddr := ''hub.example.com:443''\<rparr>) ''/connect'' (Token (demo_cluster ''ab&cd''))) = Inr u"
    and c: "RawQuery (reqURL (demo_query ''token=ab&cd'')) = RawQuery u \<Longrightarrow> ?thesis" by blast
  moreover have "url_Parse (connectURL (hub_C\<lparr>PublicAddr := ''hub.example.com:443''\<rparr>) ''/connect'' (Token (demo_cluster ''ab&cd''))) =
     Inr \<lparr>Scheme = ''wss'', Host = ''hub.example.com:443'', Path = ''/connect'', RawPath = [], RawQuery = ''token=ab&cd''\<rparr>"
    using connectURL_parse [OF h p] tk by (simp add: demo_cluster_def plain_def)
  ultimately have "RawQuery u = ''token=ab&cd''" by auto
  then show ?thesis by (intro c) (simp add: demo_query_def)
qed

end
