(* ===== verification/Proxy.thy ===== *)
theory Proxy
  imports Connect
begin

text \<open>
  What the subresource \<open>proxy\<close> of \<open>Subresources\<close> promises when the hub itself holds a session of the
  cluster, and what it does when it cannot use it. The search among the peers is in \<open>Peer_Server\<close>.
\<close>

section \<open>The forwarded request\<close>

text \<open>
  What the agent is to be sent for a client's request \<open>r\<close>: the path is meant as the other side decodes
  it. A request without a length has no body to send.
\<close>

definition forwarded :: "string \<Rightarrow> request \<Rightarrow> request \<Rightarrow> bool" where
  "forwarded subpath r q \<longleftrightarrow>
     Host (reqURL q) = ''127.0.0.1'' \<and> Scheme (reqURL q) = ''http''
     \<and> unescape (EscapedPath (reqURL q)) encodePath = Inr subpath
     \<and> RawQuery (reqURL q) = RawQuery (reqURL r) \<and> Method q = Method r
     \<and> ContentLength q = ContentLength r
     \<and> reqBody q = (if ContentLength r = 0 then Body [] else reqBody r)"

lemma single_host_other [simp]:
  "Method (single_host_director t r) = Method r" "reqBody (single_host_director t r) = reqBody r"
  "remoteIP (single_host_director t r) = remoteIP r"
  by (simp_all add: single_host_director_def Let_def split: prod.splits)

lemma forwarded_agent: "forwarded subpath r (agent_request subpath r)"
proof -
  let ?q = "agent_request subpath r"
  have "Path (reqURL ?q) = subpath" by (simp add: agent_request_URL)
  then have "unescape (EscapedPath (reqURL ?q)) encodePath = Inr subpath"
    using unescape_EscapedPath [of "reqURL ?q"] by simp
  moreover have "reqBody ?q = (if ContentLength r = 0 then Body [] else reqBody r)"
    and "Method ?q = Method r"
    by (simp_all add: agent_request_def outgoing_request_def proxy_director_def Let_def)
  ultimately show ?thesis by (simp add: forwarded_def) (simp add: agent_request_URL)
qed

lemma proxy_local_reply:
  assumes "get (Namespace key) (Name key) s = (Inr cl, s1)" and "dial key s1 = (Inr c, s2)"
    and "reqBody r \<noteq> ClosedBody" and "fresh w"
    and "exch c (agent_request subpath r) s2 = (Inr res, s3)" and "StatusCode res \<noteq> 101"
  shows "\<exists>w'. NewProxyHandler isnf get dial exch pm key subpath r w s = Some (w', s3)
    \<and> wStatus w' = Some (StatusCode res) \<and> wBody w' = respBody res"
proof -
  have "reqBody (agent_request subpath r) \<noteq> ClosedBody"
    using forwarded_agent [of subpath r] assms(3) by (simp add: forwarded_def)
  then have "RoundTrip (dial key) exch (agent_request subpath r) s1 = (Inr res, s3)"
    using RoundTrip_exch [where dial = "dial key" and exch = exch, OF assms(2), of "agent_request subpath r"] assms(5)
    by simp
  from proxy_handler_replied [where get = get and key = key and dial = dial and exch = exch, OF assms(1) this assms(6)]
  show ?thesis using relay_fresh [OF assms(4), of res] by simp
qed

section \<open>Properties\<close>

definition demo_exchange :: "conn \<Rightarrow> request \<Rightarrow> 'w hub \<Rightarrow> response res \<times> 'w hub" where
  "demo_exchange c r h = (Inr \<lparr>StatusCode = 200, respHeader = Map.empty, respBody = ''pods''\<rparr>, h)"

lemma demo_dial: "live demo_yamux s \<Longrightarrow> s \<in># held h (demo_ks k) \<Longrightarrow> \<exists>c h'. DialCluster demo_ks demo_yamux k h = (Inr c, h')"
  by (rule sm.dial_live)

text \<open>
  A cluster that cannot be read is not contacted. The handler answers 404 if the object does not
  exist and 500 with the reason otherwise; it neither dials nor asks a peer, so the state is the one
  the lookup left.
\<close>

lemma proxy_unknown_cluster:
  assumes "get (Namespace key) (Name key) s = (Inl e, s1)" and "fresh w"
  shows "\<exists>w'. (\<forall>dial exch pm subpath. NewProxyHandler isnf get dial exch pm key subpath r w s = Some (w', s1))
    \<and> wStatus w' = Some (if isnf e then 404 else 500)
    \<and> wBody w' = (if isnf e then ''Not Found'' else ''failed to get cluster: '' @ Error e) @ NL"
  using proxy_handler_missing [where get = get and key = key, OF assms(1)] http_Error_fresh [OF assms(2)]
  by (simp add: StatusText_def NL_def)

text \<open>
  C36: Any failure of the exchange over the local session, not only a missing session, hands the
  request to the peers: if the member cluster received a request and the answer was lost, a peer may
  have it served a second time. Without a peer manager, which is how a peer serves it, the answer is 502.
\<close>

theorem proxy_failure_asks_peers:
  assumes "get (Namespace key) (Name key) s = (Inr cl, s1)" and "dial key s1 = (Inr c, s2)"
    and "reqBody r \<noteq> ClosedBody" and "\<And>q. forwarded subpath r q \<Longrightarrow> exch c q s2 = (Inl e, s3)" and "fresh w"
  shows "(\<exists>w'. NewProxyHandler isnf get dial exch None key subpath r w s = Some (w', s3) \<and> wStatus w' = Some 502)
    \<and> (\<forall>pm peers s4. ListPeers pm s3 = (Inr peers, s4) \<longrightarrow>
         NewProxyHandler isnf get dial exch (Some pm) key subpath r w s =
           TryNextPeer pm w (closeBody (agent_request subpath r)) e key nextPeer (peers, -1) s4)"
proof -
  have x: "exch c (agent_request subpath r) s2 = (Inl e, s3)"
    by (rule assms(4) [OF forwarded_agent])
  have "reqBody (agent_request subpath r) \<noteq> ClosedBody"
    using forwarded_agent [of subpath r] assms(3) by (simp add: forwarded_def)
  then have "RoundTrip (dial key) exch (agent_request subpath r) s1 = (Inl e, s3)"
    using RoundTrip_exch [where dial = "dial key" and exch = exch, OF assms(2), of "agent_request subpath r"] x by simp
  note f = proxy_handler_failed [where get = get and key = key and dial = dial and exch = exch, OF assms(1) this]
  have "NewProxyHandler isnf get dial exch None key subpath r w s = Some (WriteHeader 502 w, s3)"
    by (simp add: f defaultErrorHandler_def)
  moreover have "NewProxyHandler isnf get dial exch (Some pm) key subpath r w s =
      TryNextPeer pm w (closeBody (agent_request subpath r)) e key nextPeer (peers, -1) s4"
    if "ListPeers pm s3 = (Inr peers, s4)" for pm peers s4
    using that by (simp add: f proxy_error_handler_def)
  ultimately show ?thesis using WriteHeader_fresh [OF assms(5), of 502] by blast
qed

theorem proxy_failure_asks_peers_witness:
  "\<exists>w'. NewProxyHandler (\<lambda>_. False) (demo_lookup ''abc'') (\<lambda>k s. (Inr 1, s)) (\<lambda>c q s. (Inl (errors_New ''EOF''), Suc s)) None
     demo_key ''/api'' (demo_query []) newWriter 0 = Some (w', 1) \<and> wStatus w' = Some 502"
proof -
  have b: "reqBody (demo_query []) \<noteq> ClosedBody" by (simp add: demo_query_def)
  from proxy_failure_asks_peers [where get = "demo_lookup ''abc''" and key = demo_key and dial = "\<lambda>k s. (Inr 1, s)"
      and exch = "\<lambda>c q s. (Inl (errors_New ''EOF''), Suc s)" and s = 0 and isnf = "\<lambda>_. False" and subpath = "''/api''",
      OF demo_lookup refl b _ fresh_newWriter]
  show ?thesis by simp
qed

end
