(* ===== verification/Http_Server.thy ===== *)
theory Http_Server
  imports Prelude
begin

text \<open>
  The life of an \<^verbatim>\<open>http.Server\<close> the way the hub's peer server and the agent run one: the main
  goroutine calls \<^verbatim>\<open>Serve\<close> and then waits for a channel, a second goroutine waits for the request to
  stop, calls \<^verbatim>\<open>Shutdown(context.Background())\<close> and closes the channel. The two programs differ in
  what they do with the error that \<^verbatim>\<open>Serve\<close> returns: the parameter \<open>after\<close>.

  Of \<^verbatim>\<open>net/http\<close> this uses what its documentation promises: \<^verbatim>\<open>Serve\<close> always returns a non-nil error,
  and returns \<^verbatim>\<open>ErrServerClosed\<close> once \<^verbatim>\<open>Shutdown\<close> was called and not before; \<^verbatim>\<open>Shutdown\<close> closes the
  listeners, so that no connection is accepted any more, and returns when no connection is left. A connection
  that a handler has hijacked, as the reverse proxy does for every protocol switch, is not the server's any
  more: \<^verbatim>\<open>Shutdown\<close> neither closes it nor waits for it.
\<close>

section \<open>State\<close>

definition ErrServerClosed :: err where
  "ErrServerClosed = Err ''http.ErrServerClosed'' ''http: Server closed''"

text \<open>
  The main goroutine: in \<^verbatim>\<open>Serve\<close>, at the receive from \<^verbatim>\<open>idleConnsClosed\<close>, returned, or gone with
  the process through \<^verbatim>\<open>log.Fatalf\<close>. The stopping goroutine: before \<^verbatim>\<open>Shutdown\<close>, in it, after
  closing the channel.
\<close>

datatype main_state = Serving | WaitIdle | Returned "err option" | Exited string
datatype stopper = WaitStop | InShutdown | ChannelClosed

text \<open>The stopping goroutine only moves forward: its positions are ordered.\<close>

fun stopper_pos :: "stopper \<Rightarrow> nat" where
  "stopper_pos WaitStop = 0"
| "stopper_pos InShutdown = 1"
| "stopper_pos ChannelClosed = 2"

instantiation stopper :: linorder
begin

definition less_eq_stopper :: "stopper \<Rightarrow> stopper \<Rightarrow> bool" where
  "less_eq_stopper p q \<longleftrightarrow> stopper_pos p \<le> stopper_pos q"

definition less_stopper :: "stopper \<Rightarrow> stopper \<Rightarrow> bool" where
  "less_stopper p q \<longleftrightarrow> stopper_pos p < stopper_pos q"

instance
proof
  fix p q :: stopper
  have inj: "stopper_pos p = stopper_pos q \<Longrightarrow> p = q" by (cases p; cases q) simp_all
  show "p = q" if "p \<le> q" and "q \<le> p"
    by (rule inj, rule order.antisym) (use that in \<open>simp_all add: less_eq_stopper_def\<close>)
qed (auto simp: less_eq_stopper_def less_stopper_def)

end

lemma started_stopping: "p \<noteq> WaitStop \<longleftrightarrow> InShutdown \<le> p"
  by (cases p) (simp_all add: less_eq_stopper_def)

text \<open>
  \<open>openConns\<close> counts the connections of the server, \<open>hijackedConns\<close> those that handlers have taken over; when
  one of these ends the server does not learn of it.
\<close>

record server_run =
  runMain :: main_state
  runStopper :: stopper
  stopRequested :: bool
  openConns :: nat
  hijackedConns :: nat

definition server_start :: server_run where
  "server_start = \<lparr>runMain = Serving, runStopper = WaitStop, stopRequested = False, openConns = 0,
     hijackedConns = 0\<rparr>"

fun exited :: "main_state \<Rightarrow> bool" where
  "exited (Exited _) = True"
| "exited _ = False"

text \<open>What \<^verbatim>\<open>Serve\<close> may return, depending on how far the stopping goroutine is.\<close>

fun serve_result :: "stopper \<Rightarrow> err option \<Rightarrow> bool" where
  "serve_result p None = False"
| "serve_result p (Some e) = (e = ErrServerClosed \<longrightarrow> p \<noteq> WaitStop)"

section \<open>Steps\<close>

inductive server_step :: "(err option \<Rightarrow> main_state) \<Rightarrow> server_run \<Rightarrow> server_run \<Rightarrow> bool"
  for after :: "err option \<Rightarrow> main_state" where
  stop: "\<not> exited (runMain a) \<Longrightarrow> \<not> stopRequested a \<Longrightarrow> server_step after a (a\<lparr>stopRequested := True\<rparr>)"
| accept: "runMain a = Serving \<Longrightarrow> runStopper a = WaitStop \<Longrightarrow>
     server_step after a (a\<lparr>openConns := Suc (openConns a)\<rparr>)"
| finish: "\<not> exited (runMain a) \<Longrightarrow> openConns a = Suc n \<Longrightarrow> server_step after a (a\<lparr>openConns := n\<rparr>)"
| hijack: "\<not> exited (runMain a) \<Longrightarrow> openConns a = Suc n \<Longrightarrow>
     server_step after a (a\<lparr>openConns := n, hijackedConns := Suc (hijackedConns a)\<rparr>)"
| shutdown: "\<not> exited (runMain a) \<Longrightarrow> runStopper a = WaitStop \<Longrightarrow> stopRequested a \<Longrightarrow>
     server_step after a (a\<lparr>runStopper := InShutdown\<rparr>)"
| idle: "\<not> exited (runMain a) \<Longrightarrow> runStopper a = InShutdown \<Longrightarrow> openConns a = 0 \<Longrightarrow>
     server_step after a (a\<lparr>runStopper := ChannelClosed\<rparr>)"
| serve: "runMain a = Serving \<Longrightarrow> serve_result (runStopper a) r \<Longrightarrow>
     server_step after a (a\<lparr>runMain := after r\<rparr>)"
| leave: "runMain a = WaitIdle \<Longrightarrow> runStopper a = ChannelClosed \<Longrightarrow>
     server_step after a (a\<lparr>runMain := Returned None\<rparr>)"

inductive server_reachable :: "(err option \<Rightarrow> main_state) \<Rightarrow> server_run \<Rightarrow> bool"
  for after :: "err option \<Rightarrow> main_state" where
  start: "server_reachable after server_start"
| step: "server_reachable after a \<Longrightarrow> server_step after a b \<Longrightarrow> server_reachable after b"

inductive_cases server_stepE: "server_step after a b"

lemma serve_resultE:
  assumes "serve_result p r" obtains e where "r = Some e" and "e = ErrServerClosed \<longrightarrow> p \<noteq> WaitStop"
  using assms by (cases r) auto

lemma stopper_forward: "server_step after a b \<Longrightarrow> runStopper a \<le> runStopper b"
  by (erule server_stepE) (simp_all add: less_eq_stopper_def)

text \<open>What is left to do once the shutdown has begun: every step takes one unit of it.\<close>

definition shutdown_work :: "server_run \<Rightarrow> nat" where
  "shutdown_work a = openConns a
     + (case runStopper a of WaitStop \<Rightarrow> 2 | InShutdown \<Rightarrow> 1 | ChannelClosed \<Rightarrow> 0)
     + (case runMain a of Serving \<Rightarrow> 2 | WaitIdle \<Rightarrow> 1 | Returned _ \<Rightarrow> 0 | Exited _ \<Rightarrow> 0)"

section \<open>What every such server does\<close>

text \<open>
  The contract of the part of the program after \<^verbatim>\<open>Serve\<close>: it does not report a clean end by itself,
  and it does not serve again.
\<close>

locale served =
  fixes after :: "err option \<Rightarrow> main_state"
  assumes after_unclean: "after r \<noteq> Returned None"
    and after_over: "after r \<noteq> Serving"
begin

definition stop_inv :: "server_run \<Rightarrow> bool" where
  "stop_inv a \<longleftrightarrow> (runStopper a \<noteq> WaitStop \<longrightarrow> stopRequested a)
    \<and> (runStopper a = ChannelClosed \<longrightarrow> openConns a = 0)
    \<and> (runMain a = Returned None \<longrightarrow> runStopper a = ChannelClosed)"

lemma stop_inv_step: "server_step after a b \<Longrightarrow> stop_inv a \<Longrightarrow> stop_inv b"
  by (erule server_stepE) (auto simp: stop_inv_def after_unclean)

lemma stop_inv_reachable: "server_reachable after a \<Longrightarrow> stop_inv a"
proof (induction rule: server_reachable.induct)
  case start
  then show ?case by (simp add: stop_inv_def server_start_def)
next
  case (step a b)
  then show ?case by (blast intro: stop_inv_step)
qed

text \<open>A clean end: the stop was requested, the server has no connection left.\<close>

lemma clean_end:
  "server_reachable after a \<Longrightarrow> runMain a = Returned None \<Longrightarrow>
     stopRequested a \<and> runStopper a = ChannelClosed \<and> openConns a = 0"
  by (drule stop_inv_reachable) (simp add: stop_inv_def)

text \<open>The shutdown makes progress and cannot get stuck before the main goroutine has ended.\<close>

lemma shutdown_step:
  assumes "server_reachable after a" and "runStopper a \<noteq> WaitStop" and "server_step after a b"
  shows "runStopper b \<noteq> WaitStop \<and> shutdown_work b < shutdown_work a"
proof -
  have "stopRequested a" using stop_inv_reachable [OF assms(1)] assms(2) by (simp add: stop_inv_def)
  with assms(3,2) have "shutdown_work b < shutdown_work a"
    by (induction rule: server_step.induct)
       (auto simp: shutdown_work_def after_over split: stopper.splits main_state.splits)
  moreover have "runStopper b \<noteq> WaitStop"
    using stopper_forward [OF assms(3)] assms(2) by (auto simp: started_stopping intro: order.trans)
  ultimately show ?thesis by blast
qed

lemma shutdown_unstuck:
  assumes "runStopper a \<noteq> WaitStop" and "\<And>b. \<not> server_step after a b"
  shows "(\<exists>r. runMain a = Returned r) \<or> exited (runMain a)"
proof (rule ccontr)
  assume "\<not> ?thesis"
  then have m: "runMain a = Serving \<or> runMain a = WaitIdle" and x: "\<not> exited (runMain a)"
    by (cases "runMain a", auto)+
  from m show False
  proof
    assume "runMain a = Serving"
    from server_step.serve [OF this, of "Some ErrServerClosed"] assms show False by auto
  next
    assume w: "runMain a = WaitIdle"
    show False
    proof (cases "openConns a")
      case (Suc n)
      from server_step.finish [OF x Suc] assms(2) show False by blast
    next
      case 0
      have "runStopper a = InShutdown \<or> runStopper a = ChannelClosed"
        using assms(1) by (cases "runStopper a") auto
      then show False
        using server_step.idle [OF x _ 0] server_step.leave [OF w] assms(2) by blast
    qed
  qed
qed

end

end
