(* ===== verification/Peer_Server.thy ===== *)
theory Peer_Server
  imports Subresources
begin

text \<open>
  \<^verbatim>\<open>src/pkg/hub/peer/server.go\<close>: the hub replicas among themselves. A hub without a session for a
  cluster asks its peers, the other endpoints of its own service, one after the other
  (\<open>TryNextPeer\<close>); a hub answers its peers with \<open>peer_handler\<close>, the handler of \<^verbatim>\<open>StartServer\<close>, which
  never asks further.

  Parameters: the Kubernetes client (\<open>getEndpoints\<close>), the files of the certificate
  (\<open>LoadX509KeyPair\<close>), the network to the peers (\<open>TLSDial\<close>, \<open>Exchange\<close>) and the router of gorilla/mux.
\<close>

section \<open>Listing peers\<close>

record EndpointPort =
  portName :: string
  Port :: int

record EndpointSubset =
  Addresses :: "string list"
  Ports :: "EndpointPort list"

type_synonym 's get_endpoints = "string \<Rightarrow> string \<Rightarrow> 's \<Rightarrow> EndpointSubset list res \<times> 's"

text \<open>The two loops of \<open>ListPeers\<close>: the port named \<^verbatim>\<open>peer\<close>, and the addresses of the others.\<close>

fun peer_port :: "int \<Rightarrow> EndpointPort list \<Rightarrow> int" where
  "peer_port port [] = port"
| "peer_port port (p # ps) = (if portName p = ''peer'' then Port p else peer_port port ps)"

fun peer_addrs :: "string \<Rightarrow> int \<Rightarrow> string list \<Rightarrow> string list" where
  "peer_addrs self port [] = []"
| "peer_addrs self port (addr # as) =
     (if addr = self then peer_addrs self port as
      else Sprintf ''%s:%d'' [Str addr, Dec port] # peer_addrs self port as)"

definition service_error :: "string \<Rightarrow> Config \<Rightarrow> err" where
  "service_error msg C =
     Errorf msg [Str (Sprintf ''%s/%s'' [Str (ServiceNamespace C), Str (ServiceName C)])]"

definition Manager_ListPeers :: "Config \<Rightarrow> 's get_endpoints \<Rightarrow> 's \<Rightarrow> string list res \<times> 's" where
  "Manager_ListPeers C getEndpoints s =
     (case getEndpoints (ServiceNamespace C) (ServiceName C) s of
        (Inl err, s) \<Rightarrow> (Inl (Errorf ''get endpoints: %s'' [Str (Error err)]), s)
      | (Inr subsets, s) \<Rightarrow>
          (case subsets of
             [] \<Rightarrow> (Inl (service_error ''no subset found for service %q'' C), s)
           | sub # _ \<Rightarrow>
               (case Ports sub of
                  [] \<Rightarrow> (Inl (service_error ''no port found for service %q'' C), s)
                | p # ps \<Rightarrow> (Inr (peer_addrs (IP C) (peer_port (Port p) (p # ps)) (Addresses sub)), s))))"

section \<open>File paths\<close>

text \<open>\<^verbatim>\<open>filepath.Join\<close>: the non-empty elements joined with slashes, cleaned.\<close>

definition clean_step :: "bool \<Rightarrow> string \<Rightarrow> string list \<Rightarrow> string list" where
  "clean_step rooted e acc =
     (if e = [] \<or> e = ''.'' then acc
      else if e = ''..'' then
        (if acc \<noteq> [] \<and> last acc \<noteq> ''..'' then butlast acc else if rooted then acc else acc @ [e])
      else acc @ [e])"

definition filepath_Clean :: "string \<Rightarrow> string" where
  "filepath_Clean p =
     (let rooted = HasPrefix p ''/'';
          out = (if rooted then ''/'' else []) @ Join (fold (clean_step rooted) (Split (CHR ''/'') p) []) ''/''
      in if out = [] then ''.'' else out)"

definition filepath_Join :: "string list \<Rightarrow> string" where
  "filepath_Join elems =
     (let es = filter (\<lambda>e. e \<noteq> []) elems in if es = [] then [] else filepath_Clean (Join es ''/''))"

section \<open>Asking a peer\<close>

record 'cert tls_Config =
  InsecureSkipVerify :: bool
  Certificates :: "'cert list"

record ('cert, 's) peer_net =
  LoadX509KeyPair :: "string \<Rightarrow> string \<Rightarrow> 's \<Rightarrow> 'cert res \<times> 's"
  TLSDial :: "'cert tls_Config \<Rightarrow> string \<Rightarrow> 's \<Rightarrow> conn res \<times> 's"
  Exchange :: "conn \<Rightarrow> request \<Rightarrow> 's \<Rightarrow> response res \<times> 's"

definition peer_transport :: "('cert, 's) peer_net \<Rightarrow> 'cert \<Rightarrow> request \<Rightarrow> 's \<Rightarrow> response res \<times> 's" where
  "peer_transport pn cert r s =
     RoundTrip (TLSDial pn \<lparr>InsecureSkipVerify = True, Certificates = [cert]\<rparr> (Host (reqURL r)))
       (Exchange pn) r s"

definition peer_ModifyResponse :: "response \<Rightarrow> err option" where
  "peer_ModifyResponse res = (if StatusCode res = StatusBadGateway then Some (errors_New []) else None)"

definition proxy_prefix :: "NamespacedName \<Rightarrow> string" where
  "proxy_prefix key = Sprintf ''/proxy/%s/%s'' [Str (Namespace key), Str (Name key)]"

definition trim_proxy_prefix :: "NamespacedName \<Rightarrow> request \<Rightarrow> request" where
  "trim_proxy_prefix key r = r\<lparr>reqURL := (reqURL r)\<lparr>Path := TrimPrefix (Path (reqURL r)) (proxy_prefix key)\<rparr>\<rparr>"

text \<open>
  \<open>TryNextPeer\<close> calls itself from the error handler of the proxy it runs. Nothing in it bounds the
  number of calls: that depends on the closure \<open>next\<close>, so the result is \<open>None\<close> when it never
  returns.
\<close>

partial_function (option) Manager_TryNextPeer ::
    "Config \<Rightarrow> ('cert, 's) peer_net \<Rightarrow> writer \<Rightarrow> request \<Rightarrow> err \<Rightarrow> NamespacedName \<Rightarrow> ('n \<Rightarrow> string \<times> 'n) \<Rightarrow> 'n \<Rightarrow>
       's \<Rightarrow> (writer \<times> 's) option" where
  "Manager_TryNextPeer C pn w r e key next n s =
     (case next n of (peer, n) \<Rightarrow>
      if peer = [] then Some (WriteHeader StatusBadGateway w, s)
      else (case url_Parse (Sprintf ''https://%s/proxy/%s/%s'' [Str peer, Str (Namespace key), Str (Name key)]) of
              Inl err \<Rightarrow> Some (http_Error (Sprintf ''failed to parse URL: %s'' [Str (Error err)])
                           StatusInternalServerError w, s)
            | Inr target \<Rightarrow>
                (case LoadX509KeyPair pn (filepath_Join [PeerCertDir C, ''tls.crt''])
                        (filepath_Join [PeerCertDir C, ''tls.key'']) s of
                   (Inl err, s) \<Rightarrow> Some (http_Error (Sprintf ''failed to load cert: %s'' [Str (Error err)])
                                      StatusInternalServerError w, s)
                 | (Inr cert, s) \<Rightarrow>
                     (case ServeHTTP (single_host_director target) (peer_transport pn cert) peer_ModifyResponse r w s of
                        Replied w s \<Rightarrow> Some (w, s)
                      | CallErrorHandler w r e s \<Rightarrow>
                          (if Error e \<noteq> [] then Some (WriteHeader StatusBadGateway w, s)
                           else Manager_TryNextPeer C pn w (trim_proxy_prefix key r) e key next n s)))))"

definition NewManager :: "Config \<Rightarrow> 's get_endpoints \<Rightarrow> ('cert, 's) peer_net \<Rightarrow> (peer_cursor, 's) PeerManager" where
  "NewManager C getEndpoints pn =
     \<lparr>ListPeers = Manager_ListPeers C getEndpoints, TryNextPeer = Manager_TryNextPeer C pn\<rparr>"

section \<open>Answering a peer\<close>

text \<open>
  The route of \<^verbatim>\<open>StartServer\<close>. \<open>mux_Vars template r\<close> is what gorilla/mux makes of the request: the path
  variables if the template matches. A request it does not route never reaches the handler.
\<close>

definition peer_handler ::
    "(err \<Rightarrow> bool) \<Rightarrow> ('m, 's) cluster_get \<Rightarrow> (NamespacedName \<Rightarrow> 's \<Rightarrow> conn res \<times> 's) \<Rightarrow>
       (conn \<Rightarrow> request \<Rightarrow> 's \<Rightarrow> response res \<times> 's) \<Rightarrow> (string \<Rightarrow> string) \<Rightarrow> 's handler" where
  "peer_handler IsNotFound get dial exch vars r w s =
     (let key = \<lparr>Namespace = vars ''namespace'', Name = vars ''name''\<rparr>;
          subpath = TrimPrefix (Path (reqURL r))
            (Sprintf ''/proxy/%s/%s'' [Str (vars ''namespace''), Str (vars ''name'')])
      in NewProxyHandler IsNotFound get dial exch None key subpath r w s)"

definition peer_router ::
    "(string \<Rightarrow> request \<Rightarrow> (string \<Rightarrow> string) option) \<Rightarrow> 's handler \<Rightarrow> ((string \<Rightarrow> string) \<Rightarrow> 's handler) \<Rightarrow> 's handler" where
  "peer_router mux_Vars unrouted h r w s =
     (case mux_Vars ''/proxy/{namespace}/{name}'' r of
        None \<Rightarrow> unrouted r w s
      | Some vars \<Rightarrow> h vars r w s)"


section \<open>Listing: what it answers\<close>

lemma peer_addrs_filter:
  "peer_addrs self port as = map (\<lambda>a. a @ CHR '':'' # show_int port) (filter (\<lambda>a. a \<noteq> self) as)"
  by (induction as) simp_all

lemma peer_port_find:
  "peer_port d ps = (case find (\<lambda>p. portName p = ''peer'') ps of None \<Rightarrow> d | Some p \<Rightarrow> Port p)"
  by (induction ps) auto

section \<open>Asking: the search over a list of peers\<close>

text \<open>
  What \<open>TryNextPeer\<close> does when the closure walks a list: it is a total function of that list.
\<close>

fun peer_search ::
    "Config \<Rightarrow> ('cert, 's) peer_net \<Rightarrow> NamespacedName \<Rightarrow> string list \<Rightarrow> writer \<Rightarrow> request \<Rightarrow> 's \<Rightarrow> writer \<times> 's" where
  "peer_search C pn key [] w r s = (WriteHeader StatusBadGateway w, s)"
| "peer_search C pn key (peer # peers) w r s =
     (if peer = [] then (WriteHeader StatusBadGateway w, s)
      else (case url_Parse (''https://'' @ peer @ proxy_prefix key) of
              Inl err \<Rightarrow> (http_Error (''failed to parse URL: '' @ Error err) StatusInternalServerError w, s)
            | Inr target \<Rightarrow>
                (case LoadX509KeyPair pn (filepath_Join [PeerCertDir C, ''tls.crt''])
                        (filepath_Join [PeerCertDir C, ''tls.key'']) s of
                   (Inl err, s) \<Rightarrow> (http_Error (''failed to load cert: '' @ Error err) StatusInternalServerError w, s)
                 | (Inr cert, s) \<Rightarrow>
                     (case ServeHTTP (single_host_director target) (peer_transport pn cert) peer_ModifyResponse r w s of
                        Replied w s \<Rightarrow> (w, s)
                      | CallErrorHandler w r e s \<Rightarrow>
                          (if Error e \<noteq> [] then (WriteHeader StatusBadGateway w, s)
                           else peer_search C pn key peers w (trim_proxy_prefix key r) s)))))"

lemma nextPeer_end: "-1 \<le> i \<Longrightarrow> drop (nat (i + 1)) peers = [] \<Longrightarrow> nextPeer (peers, i) = ([], (peers, i + 1))"
  by (auto simp: nextPeer_def Let_def)

lemma nextPeer_some:
  assumes "-1 \<le> i" and "drop (nat (i + 1)) peers = p # ps"
  shows "nextPeer (peers, i) = (p, (peers, i + 1))" and "drop (nat (i + 1 + 1)) peers = ps"
proof -
  have l: "nat (i + 1) < length peers" using assms(2) by (metis drop_eq_Nil list.distinct(1) not_less)
  then have "peers ! nat (i + 1) = p" "drop (Suc (nat (i + 1))) peers = ps"
    using assms(2) by (metis Cons_nth_drop_Suc list.inject)+
  moreover have "Suc (nat (i + 1)) = nat (i + 1 + 1)" using assms(1) by simp
  moreover have "\<not> int (length peers) \<le> i + 1" using l assms(1) by linarith
  ultimately show "nextPeer (peers, i) = (p, (peers, i + 1))" and "drop (nat (i + 1 + 1)) peers = ps"
    using l by (simp_all add: nextPeer_def Let_def)
qed

lemma Sprintf_target:
  "Sprintf ''https://%s/proxy/%s/%s'' [Str peer, Str (Namespace key), Str (Name key)] =
     ''https://'' @ peer @ proxy_prefix key"
  by (simp add: proxy_prefix_def)

lemma TryNextPeer_search:
  "-1 \<le> i \<Longrightarrow> drop (nat (i + 1)) peers = ps \<Longrightarrow>
     Manager_TryNextPeer C pn w r e key nextPeer (peers, i) s = Some (peer_search C pn key ps w r s)"
proof (induction ps arbitrary: i w r e s)
  case Nil
  then show ?case by (subst Manager_TryNextPeer.simps) (simp add: nextPeer_end)
next
  case (Cons p ps)
  have i: "-1 \<le> i + 1" using Cons.prems(1) by simp
  show ?case
    by (subst Manager_TryNextPeer.simps, subst nextPeer_some(1) [OF Cons.prems], subst Sprintf_target)
       (simp add: Cons.IH [OF i nextPeer_some(2) [OF Cons.prems]] split: sum.split prod.split outcome.split)
qed


declare peer_search.simps [simp del]

lemma TryNextPeer_walk:
  "Manager_TryNextPeer C pn w r e key nextPeer (peers, -1) s = Some (peer_search C pn key peers w r s)"
  by (rule TryNextPeer_search) simp_all

lemma peer_search_Nil [simp]: "peer_search C pn key [] w r s = (WriteHeader StatusBadGateway w, s)"
  by (simp add: peer_search.simps)

interpretation hub_peers: peer_manager "NewManager C getEndpoints pn" for C getEndpoints pn
  by unfold_locales (simp add: NewManager_def TryNextPeer_walk)

section \<open>One attempt\<close>

text \<open>
  For clusters with plain names and peers with plain addresses (what Kubernetes allows), the target
  of an attempt parses, and the peer sees the prefix of its route followed by the path.
\<close>

definition key_ok :: "NamespacedName \<Rightarrow> bool" where
  "key_ok key \<longleftrightarrow> plain (Namespace key) \<and> plain (Name key) \<and> Namespace key \<noteq> [] \<and> Name key \<noteq> []"

lemma proxy_prefix_append: "proxy_prefix key = ''/proxy/'' @ Namespace key @ ''/'' @ Name key"
  by (simp add: proxy_prefix_def)

lemma unreserved_letters [simp]:
  "unreserved (CHR ''p'')" "unreserved (CHR ''r'')" "unreserved (CHR ''o'')" "unreserved (CHR ''x'')" "unreserved (CHR ''y'')"
  by (simp_all add: unreserved_def is_alnum_def is_lower_def)

lemma proxy_prefix_base: "key_ok key \<Longrightarrow> base_path (proxy_prefix key)"
proof -
  assume k: "key_ok key"
  then have "CHR ''/'' \<notin> set (Name key)" using plain_not [of "Name key" "CHR ''/''"] by (simp add: key_ok_def)
  then have "last (Name key) \<noteq> CHR ''/''" using k last_in_set by (metis key_ok_def)
  then have "last (proxy_prefix key) \<noteq> CHR ''/''" using k by (simp add: proxy_prefix_append key_ok_def)
  then have "\<not> HasSuffix (proxy_prefix key) ''/''" by (auto simp: HasSuffix_iff)
  then show ?thesis
    using k by (auto simp: base_path_def path_plain_def proxy_prefix_append key_ok_def plain_def list_all_iff)
qed

definition peer_target :: "NamespacedName \<Rightarrow> string \<Rightarrow> URL" where
  "peer_target key peer =
     \<lparr>Scheme = ''https'', Host = peer, Path = proxy_prefix key, RawPath = [], RawQuery = []\<rparr>"

lemma parse_peer_target:
  "key_ok key \<Longrightarrow> host_ok peer \<Longrightarrow> url_Parse (''https://'' @ peer @ proxy_prefix key) = Inr (peer_target key peer)"
  using url_Parse_plain [of "''https''" peer "proxy_prefix key"] proxy_prefix_base [of key]
  by (simp add: base_path_def peer_target_def query_plain_def)

text \<open>The request an attempt sends, and the request the next attempt starts from.\<close>

definition peer_request :: "NamespacedName \<Rightarrow> string \<Rightarrow> request \<Rightarrow> request" where
  "peer_request key peer r = outgoing_request (single_host_director (peer_target key peer)) r"

definition peer_retry :: "NamespacedName \<Rightarrow> string \<Rightarrow> request \<Rightarrow> request" where
  "peer_retry key peer r = trim_proxy_prefix key (closeBody (peer_request key peer r))"

lemma peer_request_URL:
  assumes "key_ok key" and "slash_path (reqURL r)"
  shows "reqURL (peer_request key peer r) =
    \<lparr>Scheme = ''https'', Host = peer, Path = proxy_prefix key @ Path (reqURL r),
     RawPath = (if RawPath (reqURL r) = [] then [] else proxy_prefix key @ EscapedPath (reqURL r)),
     RawQuery = RawQuery (reqURL r)\<rparr>"
  using joinURLPath_slash [of "peer_target key peer" "reqURL r"] assms proxy_prefix_base [of key]
  by (simp add: peer_request_def reqURL_outgoing single_host_URL) (simp add: peer_target_def)

lemma peer_retry_URL:
  assumes "key_ok key" and "slash_path (reqURL r)"
  shows "Path (reqURL (peer_retry key peer r)) = Path (reqURL r)"
    and "slash_path (reqURL (peer_retry key peer r))"
    and "RawQuery (reqURL (peer_retry key peer r)) = RawQuery (reqURL r)"
  using assms peer_request_URL [OF assms, of peer]
  by (simp_all add: peer_retry_def trim_proxy_prefix_def closeBody_def slash_path_def)
     (auto simp: proxy_prefix_append HasPrefix_def)

lemma ContentLength_peer [simp]:
  "ContentLength (peer_request key peer r) = ContentLength r"
  "ContentLength (peer_retry key peer r) = ContentLength r"
  by (simp_all add: peer_request_def peer_retry_def trim_proxy_prefix_def closeBody_def ContentLength_outgoing)

text \<open>One step of the search, by what the network answers.\<close>

definition peer_tls :: "'cert \<Rightarrow> 'cert tls_Config" where
  "peer_tls cert = \<lparr>InsecureSkipVerify = True, Certificates = [cert]\<rparr>"

definition cert_loads :: "Config \<Rightarrow> ('cert, 's) peer_net \<Rightarrow> 'cert \<Rightarrow> bool" where
  "cert_loads C pn cert \<longleftrightarrow>
     (\<forall>s. LoadX509KeyPair pn (filepath_Join [PeerCertDir C, ''tls.crt'']) (filepath_Join [PeerCertDir C, ''tls.key'']) s
        = (Inr cert, s))"

lemma peer_search_step:
  assumes "key_ok key" and "host_ok peer" and "peer \<noteq> []" and "cert_loads C pn cert"
  shows "peer_search C pn key (peer # peers) w r s =
    (case ServeHTTP (single_host_director (peer_target key peer)) (peer_transport pn cert) peer_ModifyResponse r w s of
       Replied w s \<Rightarrow> (w, s)
     | CallErrorHandler w r e s \<Rightarrow>
         (if Error e \<noteq> [] then (WriteHeader StatusBadGateway w, s)
          else peer_search C pn key peers w (trim_proxy_prefix key r) s))"
  unfolding peer_search.simps parse_peer_target [OF assms(1,2)]
  using assms(3,4) by (simp add: cert_loads_def)

lemma peer_search_error:
  assumes "key_ok key" and "host_ok peer" and "peer \<noteq> []" and "cert_loads C pn cert"
    and "peer_transport pn cert (peer_request key peer r) s = (Inl e, s')" and "Error e \<noteq> []"
  shows "peer_search C pn key (peer # peers) w r s = (WriteHeader StatusBadGateway w, s')"
  using assms ServeHTTP_failed [of "peer_transport pn cert" "single_host_director (peer_target key peer)" r s e s']
  by (simp add: peer_search_step peer_request_def)

lemma peer_search_502:
  assumes "key_ok key" and "host_ok peer" and "peer \<noteq> []" and "cert_loads C pn cert"
    and "peer_transport pn cert (peer_request key peer r) s = (Inr res, s')" and "StatusCode res = StatusBadGateway"
  shows "peer_search C pn key (peer # peers) w r s = peer_search C pn key peers w (peer_retry key peer r) s'"
  using assms ServeHTTP_refused [of "peer_transport pn cert" "single_host_director (peer_target key peer)" r s res s'
      peer_ModifyResponse "errors_New []"]
  by (simp add: peer_search_step peer_request_def peer_retry_def peer_ModifyResponse_def)

lemma peer_search_reply:
  assumes "key_ok key" and "host_ok peer" and "peer \<noteq> []" and "cert_loads C pn cert"
    and "peer_transport pn cert (peer_request key peer r) s = (Inr res, s')"
    and "StatusCode res \<noteq> StatusBadGateway" and "StatusCode res \<noteq> StatusSwitchingProtocols"
  shows "peer_search C pn key (peer # peers) w r s = (relay res w, s')"
  using assms ServeHTTP_replied [of "peer_transport pn cert" "single_host_director (peer_target key peer)" r s res s'
      peer_ModifyResponse]
  by (simp add: peer_search_step peer_request_def peer_ModifyResponse_def)


section \<open>Properties\<close>

text \<open>
  The peers a hub lists are the addresses of the first subset of its service except its own,
  in order, each with the port named \<^verbatim>\<open>peer\<close> or, without one, the first port. The hub never lists
  itself.
\<close>

lemma ListPeers_result:
  assumes "getEndpoints (ServiceNamespace C) (ServiceName C) s = (Inr (sub # subs), s')" and "Ports sub = p # ps"
  shows "\<exists>port peers. Manager_ListPeers C getEndpoints s = (Inr peers, s')
    \<and> port = (case find (\<lambda>q. portName q = ''peer'') (Ports sub) of None \<Rightarrow> Port p | Some q \<Rightarrow> Port q)
    \<and> peers = map (\<lambda>a. a @ CHR '':'' # show_int port) (filter (\<lambda>a. a \<noteq> IP C) (Addresses sub))
    \<and> IP C @ CHR '':'' # show_int port \<notin> set peers"
  using assms by (auto simp: Manager_ListPeers_def peer_addrs_filter peer_port_find)

definition demo_endpoints :: "nat get_endpoints" where
  "demo_endpoints ns name s =
     (Inr [\<lparr>Addresses = [''10.0.0.1'', ''10.0.0.2''],
            Ports = [\<lparr>portName = ''api'', Port = 8443\<rparr>, \<lparr>portName = ''peer'', Port = 6443\<rparr>]\<rparr>], s)"

definition demo_C :: Config where
  "demo_C = hub_C\<lparr>IP := ''10.0.0.1''\<rparr>"

text \<open>
  Listing fails exactly when the endpoints cannot be read, have no subset, or have no port in
  the first one; the message names the service.
\<close>

lemma ListPeers_error:
  "(\<exists>e. fst (Manager_ListPeers C getEndpoints s) = Inl e) \<longleftrightarrow>
     (case fst (getEndpoints (ServiceNamespace C) (ServiceName C) s) of
        Inl _ \<Rightarrow> True | Inr [] \<Rightarrow> True | Inr (sub # _) \<Rightarrow> Ports sub = [])"
  by (auto simp: Manager_ListPeers_def split: prod.splits sum.splits list.splits)

text \<open>
  Asking the peers always comes to an end: called with the closure of the proxy handler, of which
  \<open>n\<close> peers are used up, \<open>TryNextPeer\<close> returns whatever the network does, and what it does is the walk
  over the remaining peers.
\<close>

lemma TryNextPeer_returns:
  "Manager_TryNextPeer C pn w r e key nextPeer (peers, int n - 1) s =
     Some (peer_search C pn key (drop n peers) w r s)"
  by (rule TryNextPeer_search) simp_all

text \<open>
  For a request without a body, the answer of the first peer that does not answer 502 is the
  answer: it is relayed, the peer was asked for the same path behind its route, and no later peer is
  asked.
\<close>

lemma TryNextPeer_first_answer:
  assumes "key_ok key" and "cert_loads C pn cert" and "slash_path (reqURL r)" and "ContentLength r = 0"
    and "\<And>p. p \<in> set (ps @ [q]) \<Longrightarrow> host_ok p \<and> p \<noteq> []"
    and "\<And>r s. ContentLength r = 0 \<Longrightarrow> Host (reqURL r) \<in> set ps \<Longrightarrow>
      \<exists>res s'. peer_transport pn cert r s = (Inr res, s') \<and> StatusCode res = 502"
    and "\<And>r s. ContentLength r = 0 \<Longrightarrow> Host (reqURL r) = q \<Longrightarrow>
      \<exists>res s'. peer_transport pn cert r s = (Inr res, s') \<and> StatusCode res \<notin> {101, 502}"
  shows "\<exists>r' res s0 s'. Host (reqURL r') = q \<and> Path (reqURL r') = proxy_prefix key @ Path (reqURL r)
    \<and> peer_transport pn cert r' s0 = (Inr res, s')
    \<and> Manager_TryNextPeer C pn w r e key nextPeer (ps @ q # qs, -1) s = Some (relay res w, s')"
proof -
  have "\<exists>r' res s0 s'. Host (reqURL r') = q \<and> Path (reqURL r') = proxy_prefix key @ Path (reqURL r)
    \<and> peer_transport pn cert r' s0 = (Inr res, s') \<and> peer_search C pn key (ps @ q # qs) w r s = (relay res w, s')"
    using assms(3-6)
  proof (induction ps arbitrary: r s)
    case Nil
    have h: "Host (reqURL (peer_request key q r)) = q"
      using peer_request_URL [OF assms(1) Nil(1)] by simp
    have "ContentLength (peer_request key q r) = 0" using Nil(2) by simp
    from assms(7) [OF this h, of s] obtain res s'
      where t: "peer_transport pn cert (peer_request key q r) s = (Inr res, s')" and c: "StatusCode res \<notin> {101, 502}"
      by blast
    from peer_search_reply [OF assms(1) _ _ assms(2) t] c Nil h t show ?case
      using peer_request_URL [OF assms(1) Nil(1), of q] by fastforce
  next
    case (Cons p ps)
    have "Host (reqURL (peer_request key p r)) = p" using peer_request_URL [OF assms(1) Cons.prems(1)] by simp
    with Cons.prems(2) Cons.prems(4) [of "peer_request key p r" s] obtain res s'
      where t: "peer_transport pn cert (peer_request key p r) s = (Inr res, s')" and c: "StatusCode res = 502" by auto
    have "peer_search C pn key (p # ps @ q # qs) w r s = peer_search C pn key (ps @ q # qs) w (peer_retry key p r) s'"
      using Cons.prems(3) [of p] by (intro peer_search_502 [OF assms(1) _ _ assms(2) t c]) auto
    moreover note Cons.IH [of "peer_retry key p r" s', OF peer_retry_URL(2) [OF assms(1) Cons.prems(1)]]
    ultimately show ?case
      using Cons.prems peer_retry_URL(1) [OF assms(1) Cons.prems(1), of p] by (simp)
  qed
  then show ?thesis by (simp only: TryNextPeer_walk) simp
qed

text \<open>A network for the witnesses: the peer 10.0.0.2 has no session, every other peer answers 200.\<close>

definition demo_net :: "(unit, nat) peer_net" where
  "demo_net = \<lparr>LoadX509KeyPair = (\<lambda>_ _ s. (Inr (), s)), TLSDial = (\<lambda>_ _ s. (Inr 0, s)),
     Exchange = (\<lambda>_ r s. (Inr \<lparr>StatusCode = (if Host (reqURL r) = ''10.0.0.2:6443'' then 502 else 200),
       respHeader = Map.empty, respBody = ''pods''\<rparr>, Suc s))\<rparr>"

definition demo_request :: "int \<Rightarrow> string \<Rightarrow> request" where
  "demo_request len path = \<lparr>Method = ''GET'',
     reqURL = \<lparr>Scheme = [], Host = [], Path = path, RawPath = [], RawQuery = []\<rparr>,
     Header = Map.empty, reqBody = Body (if len = 0 then [] else ''x''), ContentLength = len, remoteIP = None\<rparr>"

lemma demo_key_ok: "key_ok demo_key"
  by (simp add: key_ok_def demo_key_def plain_def unreserved_def is_alnum_def is_upper_def is_lower_def is_digit_def)

lemma demo_peer_ok: "host_ok ''10.0.0.2:6443''" "host_ok ''10.0.0.3:6443''"
  by (simp_all add: host_ok_def hostport_ok_def ip_text_def CutLast_def plain_def unreserved_def is_alnum_def is_upper_def
      is_lower_def is_digit_def)

lemma demo_cert: "cert_loads C demo_net ()"
  by (simp add: cert_loads_def demo_net_def)

text \<open>
  When every peer answers 502, the answer is 502; it has no body and nothing else was written.
\<close>

lemma TryNextPeer_nobody:
  assumes "key_ok key" and "cert_loads C pn cert" and "slash_path (reqURL r)" and "ContentLength r = 0"
    and "\<And>p. p \<in> set ps \<Longrightarrow> host_ok p \<and> p \<noteq> []"
    and "\<And>r s. ContentLength r = 0 \<Longrightarrow> Host (reqURL r) \<in> set ps \<Longrightarrow>
      \<exists>res s'. peer_transport pn cert r s = (Inr res, s') \<and> StatusCode res = 502"
  shows "\<exists>s'. Manager_TryNextPeer C pn w r e key nextPeer (ps, -1) s = Some (WriteHeader 502 w, s')"
proof -
  have "\<exists>s'. peer_search C pn key ps w r s = (WriteHeader 502 w, s')"
    using assms(3-6)
  proof (induction ps arbitrary: r s)
    case (Cons p ps)
    have "Host (reqURL (peer_request key p r)) = p" using peer_request_URL [OF assms(1) Cons.prems(1)] by simp
    with Cons.prems(2) Cons.prems(4) [of "peer_request key p r" s] obtain res s'
      where t: "peer_transport pn cert (peer_request key p r) s = (Inr res, s')" and c: "StatusCode res = 502" by auto
    have "peer_search C pn key (p # ps) w r s = peer_search C pn key ps w (peer_retry key p r) s'"
      using Cons.prems(3) [of p] by (intro peer_search_502 [OF assms(1) _ _ assms(2) t c]) auto
    moreover note Cons.IH [of "peer_retry key p r" s', OF peer_retry_URL(2) [OF assms(1) Cons.prems(1)]]
    ultimately show ?case using Cons.prems by (simp)
  qed simp
  then show ?thesis by (simp only: TryNextPeer_walk) simp
qed

text \<open>
  C25: An unreachable peer ends the search. When dialling the first peer fails with a message, the
  client gets 502 and the remaining peers, whatever they could answer, are never asked.
\<close>

theorem TryNextPeer_unreachable:
  assumes "key_ok key" and "cert_loads C pn cert" and "host_ok p" and "p \<noteq> []"
    and "TLSDial pn (peer_tls cert) p s = (Inl e', s')" and "Error e' \<noteq> []"
  shows "Manager_TryNextPeer C pn w r e key nextPeer (p # ps, -1) s = Some (WriteHeader 502 w, s')"
proof -
  have "Host (reqURL (peer_request key p r)) = p"
    by (simp add: peer_request_def reqURL_outgoing single_host_URL peer_target_def)
  then have "peer_transport pn cert (peer_request key p r) s = (Inl e', s')"
    using assms(5) by (simp add: peer_transport_def peer_tls_def RoundTrip_def)
  from peer_search_error [OF assms(1,3,4,2) this assms(6)] show ?thesis
    by (simp only: TryNextPeer_walk)
qed

definition demo_broken_net :: "(unit, nat) peer_net" where
  "demo_broken_net = demo_net\<lparr>TLSDial := (\<lambda>_ host s.
     if host = ''10.0.0.2:6443'' then (Inl (errors_New ''connection refused''), s) else (Inr 0, s))\<rparr>"

theorem TryNextPeer_unreachable_witness:
  "Manager_TryNextPeer demo_C demo_broken_net newWriter (demo_request 0 ''/api'') (errors_New ''x'') demo_key nextPeer
     (''10.0.0.2:6443'' # [''10.0.0.3:6443''], -1) 0 = Some (WriteHeader 502 newWriter, 0)"
  by (rule TryNextPeer_unreachable [of _ _ _ "()" _ _ "errors_New ''connection refused''"])
     (simp_all add: demo_key_ok demo_peer_ok cert_loads_def demo_broken_net_def demo_net_def)


text \<open>How a hub without a session for the cluster goes on: it lists its peers and searches them.\<close>

lemma proxy_without_session:
  assumes "get (Namespace key) (Name key) s = (Inr cl, s1)" and "dial key s1 = (Inl e, s2)"
    and "Manager_ListPeers C ge s2 = (Inr peers, s3)"
  shows "NewProxyHandler isnf get dial exch (Some (NewManager C ge pn)) key subpath r w s =
    Some (peer_search C pn key peers w (closeBody (agent_request subpath r)) s3)"
  using proxy_handler_failed [where get = get and key = key and dial = dial and exch = exch and subpath = subpath
      and r = r, OF assms(1) RoundTrip_dial_error [where exch = exch and dial = "dial key", OF assms(2)]] assms(3)
  by (simp add: proxy_error_handler_def NewManager_def TryNextPeer_walk)

text \<open>
  C24: A request with a body is not served through a peer. The failed dial of the local session has
  closed the body, so the attempt at the first reachable peer fails while the body is to be sent,
  and the client gets 502, although a peer may hold a session for the cluster.
\<close>

theorem body_not_served_by_peers:
  assumes "get (Namespace key) (Name key) s = (Inr cl, s1)" and "dial key s1 = (Inl e, s2)"
    and "Manager_ListPeers C ge s2 = (Inr (p # ps), s3)" and "ContentLength r \<noteq> 0"
    and "key_ok key" and "cert_loads C pn cert" and "host_ok p" and "p \<noteq> []"
    and "TLSDial pn (peer_tls cert) p s3 = (Inr c, s4)"
  shows "NewProxyHandler isnf get dial exch (Some (NewManager C ge pn)) key subpath r w s =
    Some (WriteHeader 502 w, s4)"
proof -
  let ?r = "closeBody (agent_request subpath r)"
  let ?q = "peer_request key p ?r"
  have h: "Host (reqURL ?q) = p"
    by (simp add: peer_request_def reqURL_outgoing single_host_URL peer_target_def)
  have cl: "ContentLength ?r = ContentLength r" by (simp add: closeBody_def)
  have "reqBody ?q = ClosedBody"
    using assms(4) by (simp add: peer_request_def outgoing_request_def Let_def cl single_host_director_def closeBody_def
        split: prod.splits)
  then have "peer_transport pn cert ?q s3 = (Inl ErrBodyReadAfterClose, s4)"
    using assms(4,9) h cl by (simp add: peer_transport_def peer_tls_def RoundTrip_def)
  from peer_search_error [OF assms(5,7,8,6) this]
  have "peer_search C pn key (p # ps) w ?r s3 = (WriteHeader 502 w, s4)"
    by (simp add: ErrBodyReadAfterClose_def)
  then show ?thesis
    by (simp only: proxy_without_session [where get = get and key = key and dial = dial, OF assms(1-3)])
qed

definition demo_get :: "(unit, nat) cluster_get" where
  "demo_get ns name s = (Inr \<lparr>clusterTypeMeta = \<lparr>Kind = ''Cluster'', APIVersion = []\<rparr>, ObjectMeta = (), Token = ''t''\<rparr>, s)"

definition demo_no_session :: "NamespacedName \<Rightarrow> nat \<Rightarrow> conn res \<times> nat" where
  "demo_no_session key s = (Inl (errors_New ''no session found''), s)"

lemma demo_ListPeers: "Manager_ListPeers demo_C demo_endpoints s = (Inr [''10.0.0.2:6443''], s)"
proof -
  have "show_int 6443 = ''6443''" by (simp add: show_int_def show_nat.simps digit_def) code_simp
  then show ?thesis by (simp add: Manager_ListPeers_def demo_endpoints_def demo_C_def)
qed

theorem body_not_served_by_peers_witness:
  "NewProxyHandler (\<lambda>_. False) demo_get demo_no_session (Exchange demo_net)
     (Some (NewManager demo_C demo_endpoints demo_net)) demo_key ''/api'' (demo_request 1 ''/x'') newWriter 0 =
   Some (WriteHeader 502 newWriter, 0)"
  by (rule body_not_served_by_peers [OF _ _ demo_ListPeers _ demo_key_ok demo_cert demo_peer_ok(1)])
     (simp_all add: demo_get_def demo_no_session_def demo_request_def demo_net_def)

text \<open>
  What a hub sends to a peer, the peer's handler undoes: a request for the path behind the route of a
  cluster is proxied to this cluster with this path, and without asking further peers.
\<close>

lemma peer_handler_trim:
  "vars ''namespace'' = Namespace key \<Longrightarrow> vars ''name'' = Name key \<Longrightarrow> Path (reqURL r) = proxy_prefix key @ path \<Longrightarrow>
     peer_handler isnf get dial exch vars r w s = NewProxyHandler isnf get dial exch None key path r w s"
  unfolding peer_handler_def Let_def by (simp only: proxy_prefix_def [symmetric] TrimPrefix_append) (cases key, simp)

text \<open>
  How often the search tries: \<open>f\<close> counts attempts, each of which begins with loading the key pair. No peer is
  tried twice.
\<close>

definition counts_attempts :: "('s \<Rightarrow> nat) \<Rightarrow> ('cert, 's) peer_net \<Rightarrow> bool" where
  "counts_attempts f pn \<longleftrightarrow>
     (\<forall>crt key s. f (snd (LoadX509KeyPair pn crt key s)) = Suc (f s))
     \<and> (\<forall>cfg host s. f (snd (TLSDial pn cfg host s)) = f s) \<and> (\<forall>c r s. f (snd (Exchange pn c r s)) = f s)"

lemma counts_attemptsD:
  assumes "counts_attempts f pn"
  shows "LoadX509KeyPair pn crt key s = (x, s') \<Longrightarrow> f s' = Suc (f s)"
    and "TLSDial pn cfg host s = (y, s') \<Longrightarrow> f s' = f s" and "Exchange pn c r s = (z, s') \<Longrightarrow> f s' = f s"
  using assms unfolding counts_attempts_def by (metis snd_conv)+

lemma peer_transport_attempts:
  assumes "counts_attempts f pn"
  shows "f (snd (peer_transport pn cert r s)) = f s"
proof -
  have "f (snd (Exchange pn c r s)) = f s" for c r s using assms by (simp add: counts_attempts_def)
  then show ?thesis
    by (auto simp: peer_transport_def RoundTrip_def counts_attemptsD(2) [OF assms] split: prod.split sum.split)
qed

lemma peer_search_attempts:
  assumes "counts_attempts f pn"
  shows "peer_search C pn key peers w r s = (w', s') \<Longrightarrow> f s' \<le> f s + length peers"
proof (induction peers arbitrary: w r s)
  case (Cons p ps)
  show ?case
  proof (cases "p = [] \<or> (\<exists>e. url_Parse (''https://'' @ p @ proxy_prefix key) = Inl e)")
    case True
    with Cons.prems show ?thesis by (auto simp: peer_search.simps split: if_splits)
  next
    case False
    then obtain t where t: "p \<noteq> []" "url_Parse (''https://'' @ p @ proxy_prefix key) = Inr t"
      by (cases "url_Parse (''https://'' @ p @ proxy_prefix key)") auto
    obtain x s1 where x: "LoadX509KeyPair pn (filepath_Join [PeerCertDir C, ''tls.crt''])
        (filepath_Join [PeerCertDir C, ''tls.key'']) s = (x, s1)" by fastforce
    note f1 = counts_attemptsD(1) [OF assms x]
    show ?thesis
    proof (cases x)
      case (Inl e)
      with Cons.prems t x f1 show ?thesis by (simp add: peer_search.simps)
    next
      case (Inr cert)
      let ?o = "ServeHTTP (single_host_director t) (peer_transport pn cert) peer_ModifyResponse r w s1"
      have f2: "f (outcome_state ?o) = Suc (f s)"
        by (simp add: ServeHTTP_state peer_transport_attempts [OF assms] f1)
      show ?thesis
        using Cons.prems t x Inr f2 Cons.IH
        by (cases ?o) (fastforce simp: peer_search.simps split: if_splits)+
    qed
  qed
qed simp

lemma proxy_without_manager_returns: "NewProxyHandler isnf get dial exch None key subpath r w s \<noteq> None"
proof -
  obtain x s1 where g: "get (Namespace key) (Name key) s = (x, s1)" by fastforce
  show ?thesis
  proof (cases x)
    case (Inl e)
    with g show ?thesis by (simp add: proxy_handler_missing [where get = get and key = key])
  next
    case (Inr cl)
    show ?thesis
      by (simp add: proxy_handler_serve [where get = get and key = key, OF g [unfolded Inr]] split: outcome.split)
  qed
qed

text \<open>
  C19: The recursion of \<open>TryNextPeer\<close> ends. With the closure of the proxy handler, of whose peers \<open>n\<close> are
  used up, and library calls that return, it returns after at most one attempt for each peer that is left;
  and the proxy handler returns too, with the peer manager of the hub as well as without one, as the peer
  server uses it.
\<close>

theorem peer_search_ends:
  assumes "counts_attempts f pn"
  shows "(\<exists>w' s'. Manager_TryNextPeer C pn w r e key nextPeer (peers, int n - 1) s = Some (w', s')
      \<and> f s' \<le> f s + (length peers - n))
    \<and> NewProxyHandler isnf get dial exch (Some (NewManager C getEndpoints pn)) key subpath r w s \<noteq> None
    \<and> NewProxyHandler isnf get dial exch None key subpath r w s \<noteq> None"
proof (intro conjI)
  obtain w' s' where p: "peer_search C pn key (drop n peers) w r s = (w', s')" by fastforce
  have "Manager_TryNextPeer C pn w r e key nextPeer (peers, int n - 1) s = Some (w', s')"
    unfolding TryNextPeer_returns p ..
  then show "\<exists>w' s'. Manager_TryNextPeer C pn w r e key nextPeer (peers, int n - 1) s = Some (w', s')
      \<and> f s' \<le> f s + (length peers - n)"
    using peer_search_attempts [OF assms p] by (intro exI conjI) simp_all
qed (rule hub_peers.proxy_returns proxy_without_manager_returns)+

text \<open>Peers that all answer 502, and a counter of the attempts.\<close>

definition demo_refusing_net :: "(unit, nat) peer_net" where
  "demo_refusing_net = \<lparr>LoadX509KeyPair = (\<lambda>_ _ s. (Inr (), Suc s)), TLSDial = (\<lambda>_ _ s. (Inr 0, s)),
     Exchange = (\<lambda>_ r s. (Inr \<lparr>StatusCode = 502, respHeader = Map.empty, respBody = []\<rparr>, s))\<rparr>"

theorem peer_search_ends_witness:
  "\<exists>w' n. Manager_TryNextPeer demo_C demo_refusing_net newWriter (demo_request 0 ''/api'') (errors_New ''x'') demo_key nextPeer
     ([''10.0.0.2:6443'', ''10.0.0.3:6443''], -1) 0 = Some (w', n) \<and> n \<le> 2"
proof -
  have "counts_attempts (\<lambda>s. s) demo_refusing_net" by (simp add: counts_attempts_def demo_refusing_net_def)
  from peer_search_ends [OF this, where n = 0 and s = 0 and peers = "[''10.0.0.2:6443'', ''10.0.0.3:6443'']"
      and C = demo_C and w = newWriter and r = "demo_request 0 ''/api''" and e = "errors_New ''x''" and key = demo_key, THEN conjunct1]
  show ?thesis by (simp add: numeral_2_eq_2)
qed

end
