(* ===== verification/Peer_Start.thy ===== *)
theory Peer_Start
  imports Peer_Server Http_Server
begin

text \<open>
  \<^verbatim>\<open>StartServer\<close> of \<^verbatim>\<open>src/pkg/hub/peer/server.go\<close>: what it loads before it serves, who it lets in, and
  how it ends. The route it serves is \<open>peer_router\<close> of \<open>Peer_Server\<close>; the goroutines are those of
  \<open>Http_Server\<close>.

  A file system and a certificate store are parameters: \<open>LoadX509KeyPair\<close>, \<open>ReadFile\<close>, the pool type
  \<open>'pool\<close> with \<open>NewCertPool\<close> and \<open>AppendCertsFromPEM\<close>, which answers whether it found a certificate.
\<close>

section \<open>Setting up\<close>

text \<open>\<^verbatim>\<open>tls.ClientAuthType\<close> and the fields of \<^verbatim>\<open>tls.Config\<close> and \<^verbatim>\<open>http.Server\<close> that are set.\<close>

datatype ClientAuthType =
    NoClientCert | RequestClientCert | RequireAnyClientCert | VerifyClientCertIfGiven | RequireAndVerifyClientCert

record ('cert, 'pool) server_tls =
  serverCertificates :: "'cert list"
  ClientAuth :: ClientAuthType
  ClientCAs :: 'pool

record ('cert, 'pool, 's) peer_server =
  serverAddr :: string
  serverHandler :: "'s handler"
  serverTLS :: "('cert, 'pool) server_tls"

record ('pool, 's) ca_store =
  ReadFile :: "string \<Rightarrow> 's \<Rightarrow> string res \<times> 's"
  NewCertPool :: 'pool
  AppendCertsFromPEM :: "string \<Rightarrow> 'pool \<Rightarrow> bool \<times> 'pool"

text \<open>Up to the call of \<^verbatim>\<open>ListenAndServeTLS\<close>; \<open>Inl\<close> is the message of \<^verbatim>\<open>log.Fatalf\<close>.\<close>

definition StartServer_setup ::
    "Config \<Rightarrow> ('cert, 's) peer_net \<Rightarrow> ('pool, 's) ca_store \<Rightarrow> 's handler \<Rightarrow> 's \<Rightarrow>
       (string + ('cert, 'pool, 's) peer_server) \<times> 's" where
  "StartServer_setup C pn ca router s =
     (case LoadX509KeyPair pn (filepath_Join [PeerCertDir C, ''tls.crt'']) (filepath_Join [PeerCertDir C, ''tls.key'']) s of
        (Inl err, s) \<Rightarrow> (Inl (Sprintf ''failed to load peer cert: %s'' [Str (Error err)]), s)
      | (Inr cert, s) \<Rightarrow>
          (case ReadFile ca (filepath_Join [PeerCertDir C, ''ca.crt'']) s of
             (Inl err, s) \<Rightarrow> (Inl (Sprintf ''failed to load peer CA: %s'' [Str (Error err)]), s)
           | (Inr caCert, s) \<Rightarrow>
               let caCertPool = snd (AppendCertsFromPEM ca caCert (NewCertPool ca));
                   tlsConfig = \<lparr>serverCertificates = [cert], ClientAuth = RequireAndVerifyClientCert,
                                ClientCAs = caCertPool\<rparr>
               in (Inr \<lparr>serverAddr = PeerBindAddr C, serverHandler = router, serverTLS = tlsConfig\<rparr>, s)))"

text \<open>
  What \<^verbatim>\<open>crypto/tls\<close> documents of the client authentication types: \<open>Verify\<close> is the check of a
  certificate chain against a pool.
\<close>

fun client_auth_ok :: "('pool \<Rightarrow> 'cert \<Rightarrow> bool) \<Rightarrow> ClientAuthType \<Rightarrow> 'pool \<Rightarrow> 'cert option \<Rightarrow> bool" where
  "client_auth_ok Verify NoClientCert pool c = True"
| "client_auth_ok Verify RequestClientCert pool c = True"
| "client_auth_ok Verify RequireAnyClientCert pool c = (c \<noteq> None)"
| "client_auth_ok Verify VerifyClientCertIfGiven pool c = (case c of None \<Rightarrow> True | Some c \<Rightarrow> Verify pool c)"
| "client_auth_ok Verify RequireAndVerifyClientCert pool c = (case c of None \<Rightarrow> False | Some c \<Rightarrow> Verify pool c)"

text \<open>A request over a new connection of a client with the given certificate.\<close>

datatype 's served_request = HandshakeFailed | Handled "(writer \<times> 's) option"

definition serve_peer ::
    "('pool \<Rightarrow> 'cert \<Rightarrow> bool) \<Rightarrow> ('cert, 'pool, 's) peer_server \<Rightarrow> 'cert option \<Rightarrow> request \<Rightarrow> writer \<Rightarrow> 's \<Rightarrow> 's served_request" where
  "serve_peer Verify srv c r w s =
     (if client_auth_ok Verify (ClientAuth (serverTLS srv)) (ClientCAs (serverTLS srv)) c
      then Handled (serverHandler srv r w s) else HandshakeFailed)"

lemma StartServer_setupE:
  assumes "StartServer_setup C pn ca router s = (Inr srv, s')"
  obtains crt s1 caCert where
    "LoadX509KeyPair pn (filepath_Join [PeerCertDir C, ''tls.crt'']) (filepath_Join [PeerCertDir C, ''tls.key'']) s = (Inr crt, s1)"
    and "ReadFile ca (filepath_Join [PeerCertDir C, ''ca.crt'']) s1 = (Inr caCert, s')"
    and "serverTLS srv = \<lparr>serverCertificates = [crt], ClientAuth = RequireAndVerifyClientCert,
      ClientCAs = snd (AppendCertsFromPEM ca caCert (NewCertPool ca))\<rparr>"
    and "serverHandler srv = router"
  using assms by (fastforce simp: StartServer_setup_def Let_def split: sum.splits prod.splits)

section \<open>Ending\<close>

text \<open>
  What \<^verbatim>\<open>StartServer\<close> does with the error of \<^verbatim>\<open>ListenAndServeTLS\<close>. Between the two receives of
  \<^verbatim>\<open>ctx.Done()\<close> and \<^verbatim>\<open>idleConnsClosed\<close> it runs as in \<open>Http_Server\<close>: \<open>stop\<close> is the end of the context.
\<close>

definition peer_after_serve :: "err option \<Rightarrow> main_state" where
  "peer_after_serve r =
     (case r of
        Some err \<Rightarrow> if err \<noteq> ErrServerClosed then Returned (Some err) else WaitIdle
      | None \<Rightarrow> WaitIdle)"

interpretation peer_served: served peer_after_serve
  by unfold_locales (simp_all add: peer_after_serve_def split: option.split)

text \<open>An error return comes from serving, and is not the error that a shutdown causes.\<close>

definition peer_inv :: "server_run \<Rightarrow> bool" where
  "peer_inv a \<longleftrightarrow> runMain a \<noteq> Returned (Some ErrServerClosed)
    \<and> (runMain a = WaitIdle \<longrightarrow> runStopper a \<noteq> WaitStop) \<and> \<not> exited (runMain a)"

lemma peer_inv_step: "server_step peer_after_serve a b \<Longrightarrow> peer_inv a \<Longrightarrow> peer_inv b"
  by (induction rule: server_step.induct)
     (auto simp: peer_inv_def peer_after_serve_def elim!: serve_resultE split: if_splits)

lemma peer_inv_reachable: "server_reachable peer_after_serve a \<Longrightarrow> peer_inv a"
proof (induction rule: server_reachable.induct)
  case start
  then show ?case by (simp add: peer_inv_def server_start_def)
qed (blast intro: peer_inv_step)

section \<open>Properties\<close>

text \<open>
  C20: The peer server lets in exactly the clients whose certificate verifies against the pool made from
  \<^verbatim>\<open>ca.crt\<close> of the configured directory, as the file was read when it started. Whatever else a client
  presents, nothing or a certificate of another authority, its handshake fails, and the proxy handler is
  not reached.
\<close>

theorem peers_authenticated:
  assumes "StartServer_setup C pn ca router s = (Inr srv, s')"
  shows "\<exists>crt s1 caCert.
    LoadX509KeyPair pn (filepath_Join [PeerCertDir C, ''tls.crt'']) (filepath_Join [PeerCertDir C, ''tls.key'']) s = (Inr crt, s1)
    \<and> ReadFile ca (filepath_Join [PeerCertDir C, ''ca.crt'']) s1 = (Inr caCert, s')
    \<and> (\<forall>Verify cert r w t. serve_peer Verify srv cert r w t =
         (if \<exists>c. cert = Some c \<and> Verify (snd (AppendCertsFromPEM ca caCert (NewCertPool ca))) c
          then Handled (router r w t) else HandshakeFailed))"
proof -
  from assms obtain crt s1 caCert where
    "LoadX509KeyPair pn (filepath_Join [PeerCertDir C, ''tls.crt'']) (filepath_Join [PeerCertDir C, ''tls.key'']) s = (Inr crt, s1)"
    "ReadFile ca (filepath_Join [PeerCertDir C, ''ca.crt'']) s1 = (Inr caCert, s')"
    and srv: "serverTLS srv = \<lparr>serverCertificates = [crt], ClientAuth = RequireAndVerifyClientCert,
      ClientCAs = snd (AppendCertsFromPEM ca caCert (NewCertPool ca))\<rparr>" "serverHandler srv = router"
    by (rule StartServer_setupE)
  moreover have "serve_peer Verify srv cert r w t =
      (if \<exists>c. cert = Some c \<and> Verify (snd (AppendCertsFromPEM ca caCert (NewCertPool ca))) c
       then Handled (router r w t) else HandshakeFailed)" for Verify cert r w t
    by (cases cert) (simp_all add: serve_peer_def srv)
  ultimately show ?thesis by blast
qed

definition demo_ca :: "(string list, nat) ca_store" where
  "demo_ca = \<lparr>ReadFile = (\<lambda>_ s. (Inr ''CA'', s)), NewCertPool = [], AppendCertsFromPEM = (\<lambda>pem pool. (True, pem # pool))\<rparr>"

definition demo_pn :: "(string, nat) peer_net" where
  "demo_pn = \<lparr>LoadX509KeyPair = (\<lambda>_ _ s. (Inr ''CP'', s)), TLSDial = (\<lambda>_ _ s. (Inl (errors_New ''timeout''), s)),
     Exchange = (\<lambda>_ _ s. (Inl (errors_New ''EOF''), s))\<rparr>"

definition demo_server :: "(string, string list, nat) peer_server" where
  "demo_server = \<lparr>serverAddr = PeerBindAddr hub_C, serverHandler = (\<lambda>_ w s. Some (w, s)),
     serverTLS = \<lparr>serverCertificates = [''CP''], ClientAuth = RequireAndVerifyClientCert, ClientCAs = [''CA'']\<rparr>\<rparr>"

lemma demo_setup: "StartServer_setup hub_C demo_pn demo_ca (\<lambda>_ w s. Some (w, s)) 0 = (Inr demo_server, 0)"
  by (simp add: StartServer_setup_def demo_pn_def demo_ca_def demo_server_def)

theorem peers_authenticated_witness:
  "serve_peer (\<lambda>pool c. pool = [c]) demo_server (Some ''CB'') (demo_request 0 ''/'') newWriter 0 = HandshakeFailed
   \<and> serve_peer (\<lambda>pool c. pool = [c]) demo_server (Some ''CA'') (demo_request 0 ''/'') newWriter 0 = Handled (Some (newWriter, 0))"
proof -
  obtain caCert where "ReadFile demo_ca (filepath_Join [PeerCertDir hub_C, ''ca.crt'']) 0 = (Inr caCert, 0)"
    and p: "\<forall>Verify cert r w t. serve_peer Verify demo_server cert r w t =
         (if \<exists>c. cert = Some c \<and> Verify (snd (AppendCertsFromPEM demo_ca caCert (NewCertPool demo_ca))) c
          then Handled (Some (w, t)) else HandshakeFailed)"
    using peers_authenticated [OF demo_setup] by (auto simp: demo_pn_def demo_ca_def)
  then have "caCert = ''CA''" by (simp add: demo_ca_def)
  then show ?thesis unfolding p [rule_format] by (simp add: demo_ca_def)
qed

text \<open>
  When the peer server ends without an error, its context was done, the shutdown is complete and
  it has no connection left; it never ends with \<^verbatim>\<open>ErrServerClosed\<close> as its error.
\<close>

lemma StartServer_clean_end:
  assumes "server_reachable peer_after_serve a"
  shows "runMain a \<noteq> Returned (Some ErrServerClosed)
    \<and> (runMain a = Returned None \<longrightarrow> stopRequested a \<and> runStopper a = ChannelClosed \<and> openConns a = 0)"
  using peer_inv_reachable [OF assms] peer_served.clean_end [OF assms] by (simp add: peer_inv_def)

text \<open>A server that has ended after handlers have taken over \<open>n\<close> of its connections.\<close>

definition demo_end :: "nat \<Rightarrow> server_run" where
  "demo_end n = \<lparr>runMain = Returned None, runStopper = ChannelClosed, stopRequested = True, openConns = 0,
     hijackedConns = n\<rparr>"

lemma demo_run: "server_reachable peer_after_serve (demo_end n)"
proof -
  let ?s = "\<lambda>m p. \<lparr>runMain = m, runStopper = p, stopRequested = True, openConns = 0, hijackedConns = n\<rparr>"
  have "server_reachable peer_after_serve (server_start\<lparr>hijackedConns := n\<rparr>)"
  proof (induction n)
    case 0
    show ?case using server_reachable.start [of peer_after_serve] by (simp add: server_start_def)
  next
    case (Suc n)
    from server_reachable.step [OF this server_step.accept]
    have "server_reachable peer_after_serve (server_start\<lparr>openConns := 1, hijackedConns := n\<rparr>)"
      by (simp add: server_start_def)
    from server_reachable.step [OF this server_step.hijack [of _ 0]] show ?case by (simp add: server_start_def)
  qed
  from server_reachable.step [OF this server_step.stop]
  have "server_reachable peer_after_serve (?s Serving WaitStop)" by (simp add: server_start_def)
  from server_reachable.step [OF this server_step.shutdown]
  have "server_reachable peer_after_serve (?s Serving InShutdown)" by simp
  from server_reachable.step [OF this server_step.serve [where r = "Some ErrServerClosed"]]
  have "server_reachable peer_after_serve (?s WaitIdle InShutdown)" by (simp add: peer_after_serve_def)
  from server_reachable.step [OF this server_step.idle]
  have "server_reachable peer_after_serve (?s WaitIdle ChannelClosed)" by simp
  from server_reachable.step [OF this server_step.leave] show ?thesis by (simp add: demo_end_def)
qed

text \<open>
  Once its shutdown has begun the peer server always ends: every step of it takes one unit of the
  remaining work, which is a natural number, and while it has not returned some step is possible.
\<close>

lemma StartServer_shutdown_ends:
  assumes "server_reachable peer_after_serve a" and "runStopper a \<noteq> WaitStop"
  shows "(\<forall>b. server_step peer_after_serve a b \<longrightarrow> runStopper b \<noteq> WaitStop \<and> shutdown_work b < shutdown_work a)
    \<and> ((\<exists>b. server_step peer_after_serve a b) \<or> (\<exists>r. runMain a = Returned r))"
  using peer_served.shutdown_step [OF assms] peer_served.shutdown_unstuck [OF assms(2)]
    peer_inv_reachable [OF assms(1)] by (auto simp: peer_inv_def)

end
