(* ===== verification/Agent_Main.thy ===== *)
theory Agent_Main
  imports Subresources Http_Server Peer_Start
begin

text \<open>
  \<^verbatim>\<open>src/cmd/kopilot-agent/main.go\<close>: the agent connects to the hub, reads its service account and
  serves, over the yamux session, a reverse proxy to the API server of its cluster.

  Dialling the hub (gorilla/websocket), the yamux client and flag parsing are parameters; reading
  files and certificate pools are those of \<open>Peer_Start\<close>; the serving goroutines are those of
  \<open>Http_Server\<close>. The message of \<^verbatim>\<open>log.Fatalf\<close>, which ends the process, is an \<open>Inl\<close>.
\<close>

section \<open>Setting up\<close>

datatype agent_flag = FConnect | FApiserver

record agent_flags =
  connectFlag :: string
  apiserverAddr :: string

definition agent_flag_defaults :: agent_flags where
  "agent_flag_defaults = \<lparr>connectFlag = [], apiserverAddr = ''kubernetes.default''\<rparr>"

text \<open>The two \<^verbatim>\<open>flag.StringVar\<close> calls; each is given the variable, a name and its default.\<close>

definition agent_InitFlags ::
    "(agent_flag \<Rightarrow> string \<Rightarrow> string \<Rightarrow> string \<Rightarrow> 'fs \<times> agent_flags \<Rightarrow> 'fs \<times> agent_flags) \<Rightarrow> 'fs \<Rightarrow> 'fs \<times> agent_flags" where
  "agent_InitFlags StringVar fs =
     (let st = (fs, agent_flag_defaults);
          st = StringVar FConnect ''connect'' (connectFlag (snd st)) ''connect URL of kopilot-hub'' st;
          st = StringVar FApiserver ''apiserver'' (apiserverAddr (snd st)) ''kube-apiserver address'' st
      in st)"

record 's agent_net =
  ws_Dial :: "unit tls_Config \<Rightarrow> string \<Rightarrow> 's \<Rightarrow> conn res \<times> 's"
  wsUnderlyingConn :: "conn \<Rightarrow> conn"
  yamux_Client :: "conn \<Rightarrow> 's \<Rightarrow> session res \<times> 's"

text \<open>What is served, and on which listener: the target, the service account token and the trusted CAs.\<close>

record 'pool agent_server =
  agentSession :: session
  apiserverURL :: URL
  agentToken :: string
  RootCAs :: 'pool

definition agent_saDir :: string where
  "agent_saDir = ''/run/secrets/kubernetes.io/serviceaccount''"

definition agent_setup ::
    "agent_flags \<Rightarrow> 's agent_net \<Rightarrow> ('pool, 's) ca_store \<Rightarrow> 's \<Rightarrow> (string + 'pool agent_server) \<times> 's" where
  "agent_setup flags net ca s =
     (case ws_Dial net \<lparr>InsecureSkipVerify = True, Certificates = []\<rparr> (connectFlag flags) s of
        (Inl err, s) \<Rightarrow> (Inl (Sprintf ''failed to dial hub %q: %s'' [Str (connectFlag flags), Str (Error err)]), s)
      | (Inr wsConn, s) \<Rightarrow>
     (case yamux_Client net (wsUnderlyingConn net wsConn) s of
        (Inl err, s) \<Rightarrow> (Inl (Sprintf ''failed to create multiplex channel: %s'' [Str (Error err)]), s)
      | (Inr sess, s) \<Rightarrow>
     (case url_Parse (Sprintf ''https://%s'' [Str (apiserverAddr flags)]) of
        Inl err \<Rightarrow> (Inl (Sprintf ''failed to parse apiserver URL: %s'' [Str (Error err)]), s)
      | Inr url \<Rightarrow>
     (case ReadFile ca (filepath_Join [agent_saDir, ''token'']) s of
        (Inl err, s) \<Rightarrow> (Inl (Sprintf ''failed to read token: %s'' [Str (Error err)]), s)
      | (Inr token, s) \<Rightarrow>
     (case ReadFile ca (filepath_Join [agent_saDir, ''ca.crt'']) s of
        (Inl err, s) \<Rightarrow> (Inl (Sprintf ''failed to load CA cert: %s'' [Str (Error err)]), s)
      | (Inr caCert, s) \<Rightarrow>
          (Inr \<lparr>agentSession = sess, apiserverURL = url, agentToken = token,
             RootCAs = snd (AppendCertsFromPEM ca caCert (NewCertPool ca))\<rparr>, s))))))"

section \<open>The proxy\<close>

definition agent_director :: "'pool agent_server \<Rightarrow> request \<Rightarrow> request" where
  "agent_director srv req =
     (let req = single_host_director (apiserverURL srv) req
      in req\<lparr>Header := header_Set ''Authorization'' (Sprintf ''Bearer %s'' [Str (agentToken srv)]) (Header req)\<rparr>)"

text \<open>
  \<open>dialTLS\<close> opens a TLS connection to a host that verifies against a pool; the proxy has no hooks. The
  transport may take an idle connection instead of opening one: \<open>Transport_Pool\<close> has it so, here every request dials.
\<close>

definition agent_proxy ::
    "('pool \<Rightarrow> string \<Rightarrow> 's \<Rightarrow> 'c res \<times> 's) \<Rightarrow> ('c \<Rightarrow> request \<Rightarrow> 's \<Rightarrow> response res \<times> 's) \<Rightarrow> 'pool agent_server \<Rightarrow> 's handler" where
  "agent_proxy dialTLS exch srv req w s =
     (case ServeHTTP (agent_director srv) (\<lambda>r. RoundTrip (dialTLS (RootCAs srv) (Host (reqURL r))) exch r)
             (\<lambda>_. None) req w s of
        Replied w s \<Rightarrow> Some (w, s)
      | CallErrorHandler w r e s \<Rightarrow> Some (defaultErrorHandler w, s))"

text \<open>What \<open>main\<close> does with the error of \<^verbatim>\<open>server.Serve\<close>.\<close>

definition agent_after_serve :: "err option \<Rightarrow> main_state" where
  "agent_after_serve r =
     (case r of
        Some err \<Rightarrow> Exited (Sprintf ''error running apiserver proxy: %s'' [Str (Error err)])
      | None \<Rightarrow> WaitIdle)"

interpretation agent_served: served agent_after_serve
  by unfold_locales (simp_all add: agent_after_serve_def split: option.split)

section \<open>The header the API server sees\<close>

text \<open>
  The director sets the header, but the proxy then removes what the \<^verbatim>\<open>Connection\<close> header of the client
  names. A request that comes from a reverse proxy has at most \<^verbatim>\<open>Upgrade\<close> there.
\<close>

definition tame_connection :: "header \<Rightarrow> bool" where
  "tame_connection h \<longleftrightarrow> h ''Connection'' \<in> {None, Some [''Upgrade'']}"

definition agent_outgoing :: "'pool agent_server \<Rightarrow> request \<Rightarrow> request" where
  "agent_outgoing srv r = outgoing_request (agent_director srv) r"

lemma canonical_lits [simp]:
  "CanonicalHeaderKey ''Authorization'' = ''Authorization''" "CanonicalHeaderKey ''Connection'' = ''Connection''"
  "CanonicalHeaderKey ''Upgrade'' = ''Upgrade''" "CanonicalHeaderKey ''Te'' = ''Te''"
  "CanonicalHeaderKey ''User-Agent'' = ''User-Agent''" "CanonicalHeaderKey ''X-Forwarded-For'' = ''X-Forwarded-For''"
  by code_simp+

lemma connection_options_tame: "tame_connection h \<Longrightarrow> set (connection_options h) \<subseteq> {''Upgrade''}"
proof -
  assume "tame_connection h"
  then have "lookup_slice h ''Connection'' = [] \<or> lookup_slice h ''Connection'' = [''Upgrade'']"
    by (auto simp: tame_connection_def lookup_slice_def)
  moreover have "filter (\<lambda>sf. sf \<noteq> []) (map TrimSpace (concat (map (Split (CHR '','')) [''Upgrade'']))) = [''Upgrade'']"
    by code_simp
  ultimately show ?thesis by (auto simp: connection_options_def simp del: map_concat)
qed

lemma forwardedFor_other: "k \<noteq> ''X-Forwarded-For'' \<Longrightarrow> forwardedFor ip h k = h k"
  by (simp add: forwardedFor_def header_Set_def split: option.split list.split)

text \<open>What the proxy sends on has a tame \<^verbatim>\<open>Connection\<close> header.\<close>

lemma outgoing_header_tame: "tame_connection (outgoing_header req h)"
proof -
  have "''Connection'' \<in> set hopHeaders" by (simp add: hopHeaders_def)
  then show ?thesis
    by (simp add: canonical_hop tame_connection_def outgoing_header_def Let_def forwardedFor_other fold_header_Del header_Set_def)
qed

lemma agent_request_tame: "tame_connection (Header (agent_request subpath r))"
  by (simp add: agent_request_def outgoing_request_def Let_def outgoing_header_tame)

text \<open>A header that is neither hop-by-hop nor named by \<^verbatim>\<open>Connection\<close> is sent as the director left it.\<close>

lemma outgoing_header_keeps:
  assumes "k \<notin> CanonicalHeaderKey ` set (connection_options h)" and "k \<notin> set hopHeaders" and "k \<noteq> ''X-Forwarded-For''"
  shows "outgoing_header req h k = h k"
proof -
  have "k \<noteq> ''Te''" "k \<noteq> ''Upgrade''" "k \<noteq> ''Connection''" using assms(2) by (auto simp: hopHeaders_def)
  then show ?thesis
    using assms
    by (simp add: outgoing_header_def Let_def forwardedFor_other fold_header_Del header_Set_def removeConnectionHeaders_other
        canonical_hop)
qed

lemma agent_director_header:
  "Header (agent_director srv r) ''Authorization'' = Some [''Bearer '' @ agentToken srv]"
  "tame_connection (Header r) \<Longrightarrow> tame_connection (Header (agent_director srv r))"
  by (simp_all add: agent_director_def single_host_director_def Let_def header_Set_def tame_connection_def split: prod.split)

lemma agent_Authorization:
  assumes "tame_connection (Header r)"
  shows "Header (agent_outgoing srv r) ''Authorization'' = Some [''Bearer '' @ agentToken srv]"
proof -
  let ?r = "if ContentLength r = 0 then r\<lparr>reqBody := Body []\<rparr> else r"
  have "tame_connection (Header (agent_director srv ?r))" using assms by (intro agent_director_header) simp
  from connection_options_tame [OF this]
  have "''Authorization'' \<notin> CanonicalHeaderKey ` set (connection_options (Header (agent_director srv ?r)))" by auto
  then show ?thesis
    by (simp add: agent_outgoing_def outgoing_request_def Let_def outgoing_header_keeps hopHeaders_def agent_director_header)
qed

section \<open>How serving ends\<close>

text \<open>
  The agent never ends cleanly. \<^verbatim>\<open>Serve\<close> always returns a non-nil error, also after \<^verbatim>\<open>Shutdown\<close>, and
  \<^verbatim>\<open>main\<close> does not except \<^verbatim>\<open>ErrServerClosed\<close>: whatever happens, the only end is \<^verbatim>\<open>log.Fatalf\<close>, and the
  wait for the idle connections is never reached.
\<close>

lemma agent_never_ends_cleanly:
  assumes "server_reachable agent_after_serve a"
  shows "runMain a = Serving \<or> (\<exists>e. runMain a = Exited (''error running apiserver proxy: '' @ Error e))"
  using assms
proof (induction rule: server_reachable.induct)
  case start
  then show ?case by (simp add: server_start_def)
next
  case (step a b)
  from step(2,3) show ?case
    by (induction rule: server_step.induct) (auto simp: agent_after_serve_def elim!: serve_resultE)
qed

text \<open>
  A stop signal cuts off the requests in flight. With any number of open connections the agent can
  be stopped and, while \<^verbatim>\<open>Shutdown\<close> still waits for them, exit with a failure because the server is closed.
\<close>

lemma server_stop_drops_requests:
  "\<exists>a. server_reachable agent_after_serve a \<and> stopRequested a \<and> runStopper a = InShutdown \<and> openConns a = n
     \<and> runMain a = Exited ''error running apiserver proxy: http: Server closed''"
proof -
  let ?s = "\<lambda>n. \<lparr>runMain = Serving, runStopper = WaitStop, stopRequested = False, openConns = n, hijackedConns = 0\<rparr>"
  have "server_reachable agent_after_serve (?s n)"
  proof (induction n)
    case 0
    then show ?case using server_reachable.start [of agent_after_serve] by (simp add: server_start_def)
  next
    case (Suc n)
    from server_reachable.step [OF this server_step.accept] show ?case by simp
  qed
  from server_reachable.step [OF this server_step.stop]
  have "server_reachable agent_after_serve ((?s n)\<lparr>stopRequested := True\<rparr>)" by simp
  from server_reachable.step [OF this server_step.shutdown]
  have "server_reachable agent_after_serve ((?s n)\<lparr>stopRequested := True, runStopper := InShutdown\<rparr>)" by simp
  from server_reachable.step [OF this server_step.serve [where r = "Some ErrServerClosed"]]
  show ?thesis by (intro exI conjI) (auto simp: agent_after_serve_def ErrServerClosed_def)
qed

end
