(* ===== verification/Wire.thy ===== *)
theory Wire
  imports Go_Http
begin

text \<open>
  Two programs joined by an HTTP connection: what the server of \<^verbatim>\<open>net/http\<close> makes of a request that
  the transport of another process sent, and what that process gets back. The transport writes
  \<open>RequestURI\<close> into the request line; the server parses it with \<^verbatim>\<open>url.ParseRequestURI\<close>. Header fields arrive as
  they are: that the transport asks for \<^verbatim>\<open>gzip\<close> of its own, which it undoes before anybody sees the answer, and that
  it checks their syntax is left out.
\<close>

section \<open>Requests on the wire\<close>

text \<open>\<^verbatim>\<open>url.ParseRequestURI\<close> of a request line that begins with a path.\<close>

definition ParseRequestURI :: "string \<Rightarrow> URL res" where
  "ParseRequestURI raw =
     (if list_ex isCTL raw then Inl (parse_error raw ''net/url: invalid control character in URL'')
      else let (path, query) = Cut (CHR ''?'') raw
           in if \<not> HasPrefix path ''/'' then Inl (parse_error raw ''invalid URI for request'')
              else (case setPath path \<lparr>Scheme = [], Host = [], Path = [], RawPath = [],
                            RawQuery = (case query of None \<Rightarrow> [] | Some q \<Rightarrow> q)\<rparr> of
                      Inl e \<Rightarrow> Inl (parse_error raw (Error e))
                    | Inr u \<Rightarrow> Inr u))"

text \<open>A request as it arrives: only its URL is read anew. A malformed one is answered 400 by the server.\<close>

definition received :: "request \<Rightarrow> request res" where
  "received q = (case ParseRequestURI (RequestURI (reqURL q)) of Inl e \<Rightarrow> Inl e | Inr u \<Rightarrow> Inr (q\<lparr>reqURL := u\<rparr>))"

text \<open>What a handler has written, as the client reads it.\<close>

definition response_of :: "writer \<Rightarrow> response" where
  "response_of w = (case wStatus w of
       None \<Rightarrow> \<lparr>StatusCode = StatusOK, respHeader = wHeader w, respBody = wBody w\<rparr>
     | Some c \<Rightarrow> \<lparr>StatusCode = c, respHeader = wSent w, respBody = wBody w\<rparr>)"

text \<open>The exchange with a server that runs the handler \<open>h\<close>; one that panics drops the connection.\<close>

definition serve_exchange ::
    "(request \<Rightarrow> writer \<Rightarrow> 's \<Rightarrow> (writer \<times> 's) option) \<Rightarrow> 'c \<Rightarrow> request \<Rightarrow> 's \<Rightarrow> response res \<times> 's" where
  "serve_exchange h c q s =
     (case received q of
        Inl e \<Rightarrow> (Inr \<lparr>StatusCode = StatusBadRequest, respHeader = Map.empty, respBody = StatusText StatusBadRequest\<rparr>, s)
      | Inr r \<Rightarrow>
          (case h r newWriter s of
             None \<Rightarrow> (Inl (errors_New ''EOF''), s)
           | Some (w, s) \<Rightarrow> (Inr (response_of w), s)))"

section \<open>A URL survives the wire\<close>

lemma upper_hex_unreserved: "n < 16 \<Longrightarrow> unreserved (upper_hex n)"
  using hex_roundtrip [of n]
  by (auto simp: upper_hex_def unreserved_def is_alnum_def is_digit_def is_upper_def digit_hex)

lemma escape_chars: "c \<in> set (escape s encodePath) \<Longrightarrow> c = CHR ''%'' \<or> \<not> shouldEscape c encodePath"
proof (induction s)
  case Nil
  then show ?case by (simp add: escape_def)
next
  case (Cons x s)
  have hi: "(of_char x :: nat) div 16 < 16" and lo: "(of_char x :: nat) mod 16 < 16"
    using of_char_less [of x] by (simp_all add: less_mult_imp_div_less)
  have "escape (x # s) encodePath = escape_char encodePath x @ escape s encodePath" by (simp add: escape_def)
  with Cons upper_hex_unreserved [OF hi] upper_hex_unreserved [OF lo] show ?case
    by (auto simp: escape_char_def unreserved_noescape split: if_splits)
qed

lemma noescape_cases: "\<not> shouldEscape c encodePath \<Longrightarrow> is_alnum c \<or> c \<in> set ''-_.~$&+,/:;=@''"
  by (auto simp: shouldEscape_def split: if_splits)

lemma alnum_not_ctl: "is_alnum c \<Longrightarrow> \<not> isCTL c"
  by (auto simp: isCTL_def is_alnum_def is_upper_def is_lower_def is_digit_def)

lemma alnum_not_question: "is_alnum c \<Longrightarrow> c \<noteq> CHR ''?''"
  by (auto simp: is_alnum_def is_upper_def is_lower_def is_digit_def)

text \<open>The bytes of an encoded path: never a question mark or a control byte.\<close>

lemma EscapedPath_chars:
  assumes "c \<in> set (EscapedPath u)"
  shows "c \<noteq> CHR ''?''" and "\<not> isCTL c"
proof -
  have "c \<in> set (CHR 0x27 # ''!$&()*+,;=:@[]%'') \<or> \<not> shouldEscape c encodePath"
    using assms escape_chars [of c "Path u"] by (auto simp: EscapedPath_def validEncodedPath_def split: if_splits)
  moreover have "set (CHR 0x27 # ''!$&()*+,;=:@[]%'') \<subseteq> set (CHR 0x27 # ''!$&()*+,;=:@[]%-_./~'')"
    and "set ''-_.~$&+,/:;=@'' \<subseteq> set (CHR 0x27 # ''!$&()*+,;=:@[]%-_./~'')" by simp_all
  ultimately have "is_alnum c \<or> c \<in> set (CHR 0x27 # ''!$&()*+,;=:@[]%-_./~'')"
    using noescape_cases [of c] by blast
  then show "c \<noteq> CHR ''?''" and "\<not> isCTL c"
    using alnum_not_ctl [of c] alnum_not_question [of c] by (auto simp: isCTL_def)
qed

definition no_ctl :: "string \<Rightarrow> bool" where
  "no_ctl s \<longleftrightarrow> \<not> list_ex isCTL s"

lemma ParseRequestURI_RequestURI:
  assumes "slash_path u" and "no_ctl (RawQuery u)"
  shows "\<exists>rp. ParseRequestURI (RequestURI u) =
      Inr \<lparr>Scheme = [], Host = [], Path = Path u, RawPath = rp, RawQuery = RawQuery u\<rparr>
    \<and> (rp = [] \<or> HasPrefix rp ''/'')"
proof -
  let ?p = "EscapedPath u" and ?q = "if RawQuery u = [] then [] else CHR ''?'' # RawQuery u"
  have sl: "HasPrefix ?p ''/''" by (rule slash_EscapedPath [OF assms(1)])
  then have ne: "?p \<noteq> []" by (auto simp: HasPrefix_def)
  then have uri: "RequestURI u = ?p @ ?q" by (simp add: RequestURI_def Let_def)
  have "CHR ''?'' \<notin> set ?p" using EscapedPath_chars(1) by blast
  then have cut: "Cut (CHR ''?'') (?p @ ?q) = (?p, if RawQuery u = [] then None else Some (RawQuery u))"
    using Cut_none [of "CHR ''?''" ?p] Cut_some [of "CHR ''?''" ?p "RawQuery u"] by simp
  have ctl: "\<not> list_ex isCTL (?p @ ?q)"
    using EscapedPath_chars(2) [of _ u] assms(2) by (auto simp: list_ex_iff no_ctl_def isCTL_lit)
  let ?rp = "if ?p = escape (Path u) encodePath then [] else ?p"
  have "ParseRequestURI (RequestURI u) =
      Inr \<lparr>Scheme = [], Host = [], Path = Path u, RawPath = ?rp, RawQuery = RawQuery u\<rparr>"
    unfolding uri ParseRequestURI_def cut Let_def prod.case using ctl sl
    by (simp add: setPath_def unescape_EscapedPath)
  with sl show ?thesis by (intro exI [of _ ?rp]) simp
qed

lemma received_slash:
  assumes "slash_path (reqURL q)" and "no_ctl (RawQuery (reqURL q))"
  obtains r where "received q = Inr r" and "slash_path (reqURL r)" and "Path (reqURL r) = Path (reqURL q)"
    and "RawQuery (reqURL r) = RawQuery (reqURL q)" and "Method r = Method q" and "Header r = Header q"
    and "reqBody r = reqBody q" and "ContentLength r = ContentLength q"
proof -
  from ParseRequestURI_RequestURI [OF assms] obtain rp where
    p: "ParseRequestURI (RequestURI (reqURL q)) =
      Inr \<lparr>Scheme = [], Host = [], Path = Path (reqURL q), RawPath = rp, RawQuery = RawQuery (reqURL q)\<rparr>"
    and s: "rp = [] \<or> HasPrefix rp ''/''" by blast
  let ?r = "q\<lparr>reqURL := \<lparr>Scheme = [], Host = [], Path = Path (reqURL q), RawPath = rp, RawQuery = RawQuery (reqURL q)\<rparr>\<rparr>"
  have "received q = Inr ?r" by (simp add: received_def p)
  then show ?thesis by (rule that) (use assms(1) s in \<open>simp_all add: slash_path_def\<close>)
qed

text \<open>A URL without a path is requested as the root.\<close>

lemma unescape_empty: "unescape s encodePath = Inr [] \<Longrightarrow> s = []"
proof (cases s)
  case (Cons c t)
  moreover have "map_sum id ((#) x) r \<noteq> Inr []" for x :: char and r :: "string res" by (cases r) simp_all
  ultimately show "unescape s encodePath = Inr [] \<Longrightarrow> s = []" by (auto split: if_splits list.splits)
qed

lemma EscapedPath_empty: "Path u = [] \<Longrightarrow> EscapedPath u = []"
  using unescape_empty [of "RawPath u"] by (auto simp: EscapedPath_def escape_def)

lemma received_root:
  assumes "Path (reqURL q) = []" and "no_ctl (RawQuery (reqURL q))"
  shows "received q = Inr (q\<lparr>reqURL := \<lparr>Scheme = [], Host = [], Path = ''/'', RawPath = [], RawQuery = RawQuery (reqURL q)\<rparr>\<rparr>)"
proof -
  let ?q = "RawQuery (reqURL q)"
  have uri: "RequestURI (reqURL q) = ''/'' @ (if ?q = [] then [] else CHR ''?'' # ?q)"
    by (simp add: RequestURI_def EscapedPath_empty [OF assms(1)] Let_def)
  have ctl: "\<not> list_ex isCTL (''/'' @ (if ?q = [] then [] else CHR ''?'' # ?q))"
    using assms(2) by (simp add: no_ctl_def isCTL_lit)
  have cut: "Cut (CHR ''?'') (''/'' @ (if ?q = [] then [] else CHR ''?'' # ?q)) = (''/'', if ?q = [] then None else Some ?q)"
    using Cut_none [of "CHR ''?''" "''/''"] Cut_some [of "CHR ''?''" "''/''" ?q] by simp
  have "setPath ''/'' u = Inr (u\<lparr>Path := ''/'', RawPath := []\<rparr>)" for u
    by (simp add: setPath_def escape_def escape_char_def slash_noescape)
  then show ?thesis using ctl unfolding received_def ParseRequestURI_def uri cut by (simp add: HasPrefix_def)
qed

text \<open>The path a server reads from the request line.\<close>

definition wire_path :: "string \<Rightarrow> string" where
  "wire_path p = (if p = [] then ''/'' else p)"

lemma received_path:
  assumes "slash_path (reqURL q) \<or> Path (reqURL q) = []" and "no_ctl (RawQuery (reqURL q))"
  obtains r where "received q = Inr r" and "slash_path (reqURL r)" and "Path (reqURL r) = wire_path (Path (reqURL q))"
    and "RawQuery (reqURL r) = RawQuery (reqURL q)" and "Method r = Method q" and "Header r = Header q"
    and "reqBody r = reqBody q" and "ContentLength r = ContentLength q"
  using assms(1)
proof
  assume s: "slash_path (reqURL q)"
  then have "wire_path (Path (reqURL q)) = Path (reqURL q)" by (auto simp: slash_path_def wire_path_def HasPrefix_def)
  with received_slash [OF s assms(2)] that show ?thesis by metis
next
  assume p: "Path (reqURL q) = []"
  show ?thesis by (rule that [OF received_root [OF p assms(2)]]) (simp_all add: slash_path_def HasPrefix_def wire_path_def p)
qed

lemma response_of_status:
  "wStatus w = Some c \<Longrightarrow> StatusCode (response_of w) = c \<and> respBody (response_of w) = wBody w"
  by (simp add: response_of_def)

lemma serve_exchange_answer:
  "received q = Inr r \<Longrightarrow> h r newWriter s = Some (w, s') \<Longrightarrow> serve_exchange h c q s = (Inr (response_of w), s')"
  by (simp add: serve_exchange_def)

end
