(* ===== verification/Proxy_Outcomes.thy ===== *)
theory Proxy_Outcomes
  imports Proxy Agent_Main Wire
begin

text \<open>
  What one reverse proxy, and two in a row, make of every result of a round trip: an answer, a protocol
  switch that was asked for, one that was not, and an error. Hub and agent are such a pair; the
  headers that survive both, in either direction, are those that are meant for the ends.
\<close>

section \<open>The protocol a request asks for\<close>

lemma upgradeType_cong:
  "lookup_slice h ''Connection'' = lookup_slice g ''Connection'' \<Longrightarrow> lookup_slice h ''Upgrade'' = lookup_slice g ''Upgrade'' \<Longrightarrow>
     upgradeType h = upgradeType g"
  by (simp add: upgradeType_def header_Get_def)

lemma lower_lower [simp]: "lower (lower c) = lower c"
proof (cases "is_upper c")
  case True
  then have "(of_char c :: nat) + 32 < 256" by (simp add: is_upper_def)
  then have "(of_char (lower c) :: nat) = of_char c + 32" using True by (simp add: lower_def)
  then have "\<not> is_upper (lower c)" using True by (simp add: is_upper_def)
  then show ?thesis by (simp add: lower_def)
qed (simp add: lower_def)

lemma ToLower_ToLower [simp]: "ToLower (ToLower s) = ToLower s"
  by (simp add: ToLower_def)

lemma ToLower_upgradeType [simp]: "ToLower (upgradeType h) = upgradeType h"
  by (simp add: upgradeType_def) (simp add: ToLower_def)

lemma contains_upgrade: "contains_token [''Upgrade''] ''Upgrade''" "\<not> contains_token [] t"
  by code_simp (simp add: contains_token_def)

lemma hop_members: "''Connection'' \<in> set hopHeaders" "''Upgrade'' \<in> set hopHeaders" "''Te'' \<in> set hopHeaders"
  by (simp_all add: hopHeaders_def)

lemma upgradeType_outgoing_header: "upgradeType (outgoing_header req h) = upgradeType h"
proof (cases "upgradeType h = []")
  case True
  then have "outgoing_header req h ''Connection'' = None"
    using hop_members by (simp add: outgoing_header_def Let_def forwardedFor_other fold_header_Del header_Set_def canonical_hop)
  then have "lookup_slice (outgoing_header req h) ''Connection'' = []" by (simp add: lookup_slice_def)
  with True show ?thesis by (simp add: upgradeType_def contains_upgrade)
next
  case False
  then have "lookup_slice (outgoing_header req h) ''Connection'' = [''Upgrade'']"
    and "lookup_slice (outgoing_header req h) ''Upgrade'' = [upgradeType h]"
    by (simp_all add: outgoing_header_def Let_def forwardedFor_other header_Set_def lookup_slice_def)
  then have "upgradeType (outgoing_header req h) = ToLower (upgradeType h)"
    by (simp add: upgradeType_def [of "outgoing_header req h"] contains_upgrade header_Get_def)
  then show ?thesis by simp
qed

lemma upgradeType_outgoing:
  assumes "\<And>r. upgradeType (Header (d r)) = upgradeType (Header r)"
  shows "upgradeType (Header (outgoing_request d r)) = upgradeType (Header r)"
  by (simp add: outgoing_request_def Let_def upgradeType_outgoing_header assms)

lemma single_host_header:
  "k \<noteq> ''User-Agent'' \<Longrightarrow> Header (single_host_director t r) k = Header r k"
  "Header r k = Some vs \<Longrightarrow> Header (single_host_director t r) k = Some vs"
  by (auto simp: single_host_director_def header_Set_def Let_def split: prod.split)

lemma upgradeType_agent_request [simp]: "upgradeType (Header (agent_request subpath r)) = upgradeType (Header r)"
  unfolding agent_request_def
  by (rule upgradeType_outgoing) (simp add: proxy_director_def Let_def upgradeType_def header_Get_def lookup_slice_def single_host_header)

lemma upgradeType_agent_outgoing [simp]: "upgradeType (Header (agent_outgoing srv r)) = upgradeType (Header r)"
  unfolding agent_outgoing_def
  by (rule upgradeType_outgoing)
    (simp add: agent_director_def Let_def upgradeType_def header_Get_def lookup_slice_def header_Set_def single_host_header)

section \<open>How a proxy ends\<close>

definition switched :: "response \<Rightarrow> writer \<Rightarrow> writer" where
  "switched res w = w\<lparr>wHeader := copyHeader (wHeader w) (respHeader res), wStatus := Some StatusSwitchingProtocols,
     wSent := copyHeader (wHeader w) (respHeader res), wHijacked := True\<rparr>"

text \<open>What a proxy without a hook writes for the result of its round trip, if it does not call the error handler.\<close>

definition proxied :: "string \<Rightarrow> response res \<Rightarrow> writer \<Rightarrow> writer option" where
  "proxied up x w = (case x of
       Inl e \<Rightarrow> None
     | Inr res \<Rightarrow>
         if StatusCode res \<noteq> StatusSwitchingProtocols then Some (relay res w)
         else if upgradeType (respHeader res) = up then Some (switched res w) else None)"

lemma ServeHTTP_proxied:
  assumes "rt (outgoing_request d r) s = (x, s')"
  shows "proxied (upgradeType (Header (outgoing_request d r))) x w = None \<Longrightarrow>
      \<exists>q e. ServeHTTP d rt (\<lambda>_. None) r w s = CallErrorHandler w q e s'"
    and "proxied (upgradeType (Header (outgoing_request d r))) x w = Some w' \<Longrightarrow>
      (\<And>res h. x = Inr res \<Longrightarrow> m (res\<lparr>respHeader := h\<rparr>) = None) \<Longrightarrow> ServeHTTP d rt m r w s = Replied w' s'"
proof -
  show "proxied (upgradeType (Header (outgoing_request d r))) x w = None \<Longrightarrow>
      \<exists>q e. ServeHTTP d rt (\<lambda>_. None) r w s = CallErrorHandler w q e s'"
    using assms by (auto simp: ServeHTTP_def proxied_def switch_protocols_def closeBody_def Let_def split: sum.splits if_splits)
  assume p: "proxied (upgradeType (Header (outgoing_request d r))) x w = Some w'"
    and m: "\<And>res h. x = Inr res \<Longrightarrow> m (res\<lparr>respHeader := h\<rparr>) = None"
  obtain res where x: "x = Inr res" using p by (auto simp: proxied_def split: sum.splits)
  have "m res = None" using m [OF x, of "respHeader res"] by simp
  then show "ServeHTTP d rt m r w s = Replied w' s'"
    using assms p m [OF x]
    by (auto simp: ServeHTTP_def proxied_def switch_protocols_def switched_def relay_def relayed_header_def closeBody_def
        Let_def x split: if_splits)
qed

lemma agent_proxy_proxied:
  assumes "RoundTrip (dialTLS (RootCAs srv) (Host (reqURL (agent_outgoing srv r)))) exch (agent_outgoing srv r) s = (x, s')"
  shows "agent_proxy dialTLS exch srv r w s =
    Some (case proxied (upgradeType (Header r)) x w of None \<Rightarrow> WriteHeader 502 w | Some w' \<Rightarrow> w', s')"
proof -
  let ?rt = "\<lambda>r. RoundTrip (dialTLS (RootCAs srv) (Host (reqURL r))) exch r"
  have "?rt (outgoing_request (agent_director srv) r) s = (x, s')" using assms by (simp add: agent_outgoing_def)
  from ServeHTTP_proxied(1) [where rt = ?rt, OF this, of w]
    ServeHTTP_proxied(2) [where rt = ?rt and m = "\<lambda>_. None", OF this, of w] upgradeType_agent_outgoing [of srv r]
  show ?thesis
    by (cases "proxied (upgradeType (Header r)) x w") (auto simp: agent_proxy_def agent_outgoing_def defaultErrorHandler_def)
qed

lemma proxy_handler_proxied:
  assumes "get (Namespace key) (Name key) s = (Inr cl, s1)" and "dial key s1 = (Inr c, s2)" and "reqBody r \<noteq> ClosedBody"
    and "exch c (agent_request subpath r) s2 = (x, s3)" and "proxied (upgradeType (Header r)) x w = Some w'"
  shows "NewProxyHandler isnf get dial exch pm key subpath r w s = Some (w', s3)"
proof -
  have "reqBody (agent_request subpath r) \<noteq> ClosedBody"
    using forwarded_agent [of subpath r] assms(3) by (simp add: forwarded_def)
  then have "RoundTrip (dial key) exch (agent_request subpath r) s1 = (x, s3)"
    using RoundTrip_exch [where dial = "dial key" and exch = exch, OF assms(2)] assms(4) by simp
  from ServeHTTP_proxied(2) [where rt = "RoundTrip (dial key) exch" and d = "proxy_director local_target subpath" and w = w and w' = w'
      and m = "\<lambda>_. None", OF this [unfolded agent_request_def]] assms(5) upgradeType_agent_request [of subpath r]
  show ?thesis
    by (simp add: proxy_handler_serve [where get = get and key = key, OF assms(1)] agent_request_def)
qed

section \<open>Two proxies in a row\<close>

text \<open>
  What the client of two proxies gets for the result \<open>x\<close> of the inner round trip: status, body and the headers that are
  not those of one connection only, in front of which are the ones its writer \<open>w\<close> had before; the connection itself
  after a switch to the protocol \<open>up\<close> it has asked for; and 502 without a body for an error or another switch.
\<close>

definition header_passed :: "response \<Rightarrow> string \<Rightarrow> bool" where
  "header_passed res k \<longleftrightarrow> StatusCode res = 101 \<or>
     k \<notin> set hopHeaders \<and> k \<notin> CanonicalHeaderKey ` set (connection_options (respHeader res))"

definition delivered :: "string \<Rightarrow> response res \<Rightarrow> writer \<Rightarrow> writer \<Rightarrow> bool" where
  "delivered up x w w' \<longleftrightarrow> (case x of
       Inl e \<Rightarrow> wStatus w' = Some 502 \<and> wBody w' = [] \<and> \<not> wHijacked w'
     | Inr res \<Rightarrow>
         if StatusCode res = 101 \<and> upgradeType (respHeader res) \<noteq> up
         then wStatus w' = Some 502 \<and> wBody w' = [] \<and> \<not> wHijacked w'
         else wStatus w' = Some (StatusCode res) \<and> (StatusCode res = 101 \<or> wBody w' = respBody res)
           \<and> (wHijacked w' \<longleftrightarrow> StatusCode res = 101)
           \<and> (\<forall>k vs. header_passed res k \<and> respHeader res k = Some vs \<and> vs \<noteq> [] \<longrightarrow>
                wSent w' k = Some (lookup_slice (wHeader w) k @ vs)))"

lemma copyHeader_some: "h k = Some vs \<Longrightarrow> vs \<noteq> [] \<Longrightarrow> copyHeader g h k = Some (lookup_slice g k @ vs)"
  by (cases vs) (simp_all add: copyHeader_def)

lemma lookup_copyHeader [simp]: "lookup_slice (copyHeader g h) k = lookup_slice g k @ lookup_slice h k"
  by (simp add: copyHeader_def lookup_slice_def split: option.split list.split)

lemma relayed_header_eq:
  "relayed_header res k =
     (if k \<in> set hopHeaders \<or> k \<in> CanonicalHeaderKey ` set (connection_options (respHeader res)) then None else respHeader res k)"
  by (simp add: relayed_header_def fold_header_Del canonical_hop removeConnectionHeaders_def)

text \<open>A relayed response names no header as one of its connection.\<close>

lemma connection_options_none: "lookup_slice h ''Connection'' = [] \<Longrightarrow> connection_options h = []"
  by (simp add: connection_options_def)

lemma relay_writer:
  assumes "fresh w"
  shows "wHijacked (relay res w) = False" and "wSent (relay res w) = copyHeader (wHeader w) (relayed_header res)"
  using assms by (simp_all add: relay_def fresh_def Write_def WriteHeader_def Let_def)

lemma relayed_once:
  assumes "header_passed res k" and "respHeader res k = Some vs" and "vs \<noteq> []" and "StatusCode res \<noteq> 101"
  shows "respHeader (response_of (relay res newWriter)) k = Some vs" and "header_passed (response_of (relay res newWriter)) k"
proof -
  let ?h = "copyHeader Map.empty (relayed_header res)"
  have h: "respHeader (response_of (relay res newWriter)) = ?h"
    using relay_writer(2) [OF fresh_newWriter, of res] relay_fresh [OF fresh_newWriter, of res]
    by (simp add: response_of_def newWriter_def)
  have "lookup_slice (relayed_header res) ''Connection'' = []"
    using hop_members(1) by (simp add: relayed_header_eq lookup_slice_def)
  then have "lookup_slice ?h ''Connection'' = []" by simp
  from connection_options_none [OF this] have "connection_options ?h = []" .
  then show "header_passed (response_of (relay res newWriter)) k" using assms(1,4) by (simp add: header_passed_def h)
  show "respHeader (response_of (relay res newWriter)) k = Some vs"
    using assms copyHeader_some [of "relayed_header res" k vs Map.empty] by (simp add: h header_passed_def relayed_header_eq)
qed

lemma upgradeType_switched [simp]: "upgradeType (respHeader (response_of (switched res newWriter))) = upgradeType (respHeader res)"
  by (rule upgradeType_cong) (simp_all add: response_of_def switched_def newWriter_def)

lemma switched_header:
  "respHeader res k = Some vs \<Longrightarrow> vs \<noteq> [] \<Longrightarrow> respHeader (response_of (switched res newWriter)) k = Some vs"
  using copyHeader_some [of "respHeader res" k vs Map.empty] by (simp add: response_of_def switched_def newWriter_def)

text \<open>One proxy delivers; and what is delivered of the answer of a proxy is delivered of what it has relayed.\<close>

definition switch_wanted :: "string \<Rightarrow> response \<Rightarrow> bool" where
  "switch_wanted up res \<longleftrightarrow> (StatusCode res = 101 \<longrightarrow> upgradeType (respHeader res) = up)"

lemma proxied_wanted: "switch_wanted up res \<Longrightarrow> \<exists>w'. proxied up (Inr res) w = Some w'"
  by (simp add: proxied_def switch_wanted_def)

lemma proxied_delivered:
  assumes "fresh w" and "proxied up (Inr res) w = Some w'"
  shows "delivered up (Inr res) w w'"
proof (cases "StatusCode res = 101")
  case True
  with assms(2) show ?thesis
    by (auto simp: proxied_def delivered_def switched_def intro: copyHeader_some split: if_splits)
next
  case False
  with assms(2) have "w' = relay res w" by (simp add: proxied_def)
  with False relay_fresh [OF assms(1), of res] show ?thesis
    by (auto simp: delivered_def relay_writer [OF assms(1)] header_passed_def relayed_header_eq intro!: copyHeader_some)
qed

lemma proxied_response:
  assumes "proxied up (Inr res) newWriter = Some a"
  shows "StatusCode (response_of a) = StatusCode res" and "switch_wanted up (response_of a)"
  using assms relay_fresh [OF fresh_newWriter, of res]
  by (auto simp: proxied_def response_of_def switched_def switch_wanted_def [of up] newWriter_def split: if_splits
      intro!: upgradeType_cong)

lemma delivered_through:
  assumes "proxied up (Inr res) newWriter = Some a" and "delivered up (Inr (response_of a)) w w'"
  shows "delivered up (Inr res) w w'"
proof (cases "StatusCode res = 101")
  case True
  with assms(1) have "a = switched res newWriter" "upgradeType (respHeader res) = up"
    by (simp_all add: proxied_def split: if_splits)
  with True assms(2) proxied_response(1) [OF assms(1)] switched_header [of res]
  show ?thesis by (simp add: delivered_def header_passed_def)
next
  case False
  with assms(1) have a: "a = relay res newWriter" by (simp add: proxied_def)
  have "respBody (response_of a) = respBody res"
    using relay_fresh [OF fresh_newWriter, of res] by (auto simp: a response_of_def)
  with False assms(2) proxied_response(1) [OF assms(1)] relayed_once [OF _ _ _ False]
  show ?thesis by (simp add: delivered_def a)
qed

lemma proxied_twice:
  assumes "fresh w" and "proxied up (Inr res) newWriter = Some a"
  shows "\<exists>w'. proxied up (Inr (response_of a)) w = Some w' \<and> delivered up (Inr res) w w'"
  using proxied_wanted [OF proxied_response(2) [OF assms(2)], of w] proxied_delivered [OF assms(1)]
    delivered_through [OF assms(2)] by blast

lemma failed_delivered:
  assumes "fresh w" and "proxied up x newWriter = None"
  shows "\<exists>w'. proxied up (Inr (response_of (WriteHeader 502 newWriter))) w = Some w' \<and> delivered up x w w'"
proof -
  let ?r = "response_of (WriteHeader 502 newWriter)"
  have r: "StatusCode ?r = 502" "respBody ?r = []" by (simp_all add: response_of_def WriteHeader_def newWriter_def)
  then have "delivered up x w (relay ?r w)"
    using relay_fresh [OF assms(1), of ?r] assms
    by (auto simp: delivered_def proxied_def relay_writer split: sum.splits if_splits)
  moreover have "proxied up (Inr ?r) w = Some (relay ?r w)" using r by (simp add: proxied_def)
  ultimately show ?thesis by blast
qed

text \<open>What a proxy without a handler for errors, such as that of the agent, answers for the result of its round trip.\<close>

definition answered :: "string \<Rightarrow> response res \<Rightarrow> response" where
  "answered up x = response_of (case proxied up x newWriter of None \<Rightarrow> WriteHeader 502 newWriter | Some a \<Rightarrow> a)"

lemma proxies_deliver:
  assumes "fresh w"
  shows "\<exists>w'. proxied up (Inr (answered up x)) w = Some w' \<and> delivered up x w w'"
proof (cases "proxied up x newWriter")
  case None
  with failed_delivered [OF assms this] show ?thesis by (simp add: answered_def)
next
  case (Some a)
  then obtain res where "x = Inr res" by (auto simp: proxied_def split: sum.splits)
  with Some proxied_twice [OF assms, of up res a] show ?thesis by (simp add: answered_def)
qed

lemma answered_through:
  assumes "switch_wanted up res"
  shows "StatusCode (answered up (Inr res)) = StatusCode res" and "switch_wanted up (answered up (Inr res))"
    and "delivered up (Inr (answered up (Inr res))) w w' \<Longrightarrow> delivered up (Inr res) w w'"
proof -
  obtain a where a: "proxied up (Inr res) newWriter = Some a" using proxied_wanted [OF assms] by blast
  then have "answered up (Inr res) = response_of a" by (simp add: answered_def)
  with proxied_response [OF a] delivered_through [OF a, of w w']
  show "StatusCode (answered up (Inr res)) = StatusCode res" and "switch_wanted up (answered up (Inr res))"
    and "delivered up (Inr (answered up (Inr res))) w w' \<Longrightarrow> delivered up (Inr res) w w'" by simp_all
qed

section \<open>The headers of the request\<close>

text \<open>A header of the client that is meant for the API server: not of the connection, and not one the agent sets.\<close>

definition client_header :: "request \<Rightarrow> string \<Rightarrow> bool" where
  "client_header r k \<longleftrightarrow> k \<notin> set hopHeaders \<and> k \<notin> CanonicalHeaderKey ` set (connection_options (Header r))
     \<and> k \<noteq> ''X-Forwarded-For'' \<and> k \<noteq> ''Authorization''"

lemma connection_options_cong: "h ''Connection'' = g ''Connection'' \<Longrightarrow> connection_options h = connection_options g"
  by (simp add: connection_options_def lookup_slice_def)

lemma outgoing_client_header:
  assumes "client_header r k" and "Header r k = Some vs"
    and "\<And>r. Header (d r) ''Connection'' = Header r ''Connection''" and "\<And>r. Header r k = Some vs \<Longrightarrow> Header (d r) k = Some vs"
  shows "Header (outgoing_request d r) k = Some vs"
proof -
  let ?r = "if ContentLength r = 0 then r\<lparr>reqBody := Body []\<rparr> else r"
  have "connection_options (Header (d ?r)) = connection_options (Header r)"
    by (rule connection_options_cong) (simp add: assms(3))
  then have "outgoing_header r (Header (d ?r)) k = Header (d ?r) k"
    using assms(1) by (intro outgoing_header_keeps) (simp_all add: client_header_def)
  moreover have "Header (d ?r) k = Some vs" by (rule assms(4)) (simp add: assms(2))
  ultimately show ?thesis by (simp add: outgoing_request_def Let_def)
qed

text \<open>What a proxy sends on is still meant for the API server at the next one.\<close>

lemma client_header_outgoing: "client_header r k \<Longrightarrow> client_header (outgoing_request d r) k"
proof -
  assume k: "client_header r k"
  have "tame_connection (Header (outgoing_request d r))"
    by (simp add: outgoing_request_def Let_def outgoing_header_tame)
  from connection_options_tame [OF this]
  have "k \<notin> CanonicalHeaderKey ` set (connection_options (Header (outgoing_request d r)))"
    using k hop_members(2) by (auto simp: client_header_def)
  with k show ?thesis by (simp add: client_header_def)
qed

lemma agent_request_header:
  "client_header r k \<Longrightarrow> Header r k = Some vs \<Longrightarrow> Header (agent_request subpath r) k = Some vs"
  unfolding agent_request_def
  by (rule outgoing_client_header) (simp_all add: proxy_director_def Let_def single_host_header)

section \<open>Requests on their way\<close>

text \<open>\<open>r'\<close> still carries what the client's request \<open>r\<close> asks for.\<close>

definition carries :: "request \<Rightarrow> request \<Rightarrow> bool" where
  "carries r r' \<longleftrightarrow> RawQuery (reqURL r') = RawQuery (reqURL r) \<and> Method r' = Method r \<and> ContentLength r' = ContentLength r
     \<and> upgradeType (Header r') = upgradeType (Header r)
     \<and> (\<forall>k vs. client_header r k \<and> Header r k = Some vs \<longrightarrow> client_header r' k \<and> Header r' k = Some vs)"

lemma carries_refl [simp]: "carries r r"
  by (simp add: carries_def)

lemma carries_trans: "carries r r' \<Longrightarrow> carries r' r'' \<Longrightarrow> carries r r''"
  by (simp add: carries_def)

lemma carries_agent: "carries r (agent_request subpath r)"
  using forwarded_agent [of subpath r] agent_request_header client_header_outgoing [of r _ "proxy_director local_target subpath"]
  by (auto simp: carries_def forwarded_def agent_request_def [symmetric])

text \<open>What an agent is sent for the client's request \<open>r\<close>, by whichever hub.\<close>

definition sent_to_agent :: "string \<Rightarrow> request \<Rightarrow> request \<Rightarrow> bool" where
  "sent_to_agent subpath r q \<longleftrightarrow> (\<exists>r'. carries r r' \<and> q = agent_request subpath r')"

lemma sent_forwarded: "sent_to_agent subpath r q \<Longrightarrow> ContentLength r = 0 \<Longrightarrow> forwarded subpath r q"
  using forwarded_agent by (auto simp: sent_to_agent_def carries_def forwarded_def)

section \<open>The headers the agent sends\<close>

lemma agent_outgoing_header:
  assumes "tame_connection (Header r)" and "k \<notin> set hopHeaders" and "k \<noteq> ''X-Forwarded-For''" and "k \<noteq> ''Authorization''"
    and "Header r k = Some vs"
  shows "Header (agent_outgoing srv r) k = Some vs"
proof -
  let ?r = "if ContentLength r = 0 then r\<lparr>reqBody := Body []\<rparr> else r"
  let ?h = "Header (agent_director srv ?r)"
  have "tame_connection ?h" using assms(1) by (intro agent_director_header) simp
  from connection_options_tame [OF this] have "k \<notin> CanonicalHeaderKey ` set (connection_options ?h)"
    using assms(2) hop_members(2) by auto
  then have "outgoing_header r ?h k = ?h k" by (rule outgoing_header_keeps [OF _ assms(2,3)])
  moreover have "?h k = Some vs"
    using single_host_header(2) [of ?r k vs] assms(4,5) by (simp add: agent_director_def Let_def header_Set_def)
  ultimately show ?thesis by (simp add: agent_outgoing_def outgoing_request_def Let_def)
qed

lemma carries_close [simp]: "carries r (closeBody r') = carries r r'"
  by (simp add: carries_def closeBody_def client_header_def)

lemma proxy_local:
  assumes "get (Namespace key) (Name key) s = (Inr cl, s1)" and "dial key s1 = (Inr c, s2)"
    and "reqBody r \<noteq> ClosedBody" and "fresh w"
  shows "\<exists>q. forwarded subpath r q \<and> upgradeType (Header q) = upgradeType (Header r)
    \<and> (\<forall>k vs. client_header r k \<and> Header r k = Some vs \<longrightarrow> Header q k = Some vs)
    \<and> (\<forall>res s3. exch c q s2 = (Inr res, s3) \<and> switch_wanted (upgradeType (Header r)) res \<longrightarrow>
         (\<exists>w'. (\<forall>pm. NewProxyHandler isnf get dial exch pm key subpath r w s = Some (w', s3))
            \<and> delivered (upgradeType (Header r)) (Inr res) w w'))"
proof (intro exI [of _ "agent_request subpath r"] conjI forwarded_agent upgradeType_agent_request allI impI)
  fix k vs
  assume "client_header r k \<and> Header r k = Some vs"
  then show "Header (agent_request subpath r) k = Some vs" using agent_request_header by blast
next
  fix res s3
  assume x: "exch c (agent_request subpath r) s2 = (Inr res, s3) \<and> switch_wanted (upgradeType (Header r)) res"
  then obtain w' where w': "proxied (upgradeType (Header r)) (Inr res) w = Some w'"
    using proxied_wanted by blast
  from proxy_handler_proxied [where get = get and key = key and dial = dial and exch = exch and isnf = isnf,
      OF assms(1-3) conjunct1 [OF x] w'] proxied_delivered [OF assms(4) w']
  show "\<exists>w'. (\<forall>pm. NewProxyHandler isnf get dial exch pm key subpath r w s = Some (w', s3))
      \<and> delivered (upgradeType (Header r)) (Inr res) w w'" by blast
qed

section \<open>Properties\<close>

text \<open>
  C15: With a session that opens, the member cluster's answer is the answer. The agent is sent a
  request to 127.0.0.1 whose path decodes to the path behind the subresource and whose query, method, body
  and headers are the client's; status, body and headers of its response go to the client unchanged, and the
  connection after the protocol switch the client has asked for. No peer is asked, whatever the status is: the
  answer is the same for every peer manager.
\<close>

theorem proxy_relays_member:
  assumes "get (Namespace key) (Name key) s = (Inr cl, s1)" and "dial key s1 = (Inr c, s2)"
    and "reqBody r \<noteq> ClosedBody" and "fresh w"
  shows "\<exists>q. forwarded subpath r q \<and> upgradeType (Header q) = upgradeType (Header r)
    \<and> (\<forall>k vs. client_header r k \<and> Header r k = Some vs \<longrightarrow> Header q k = Some vs)
    \<and> (\<forall>res s3. exch c q s2 = (Inr res, s3) \<and> switch_wanted (upgradeType (Header r)) res \<longrightarrow>
         (\<exists>w'. (\<forall>pm. NewProxyHandler isnf get dial exch pm key subpath r w s = Some (w', s3))
            \<and> delivered (upgradeType (Header r)) (Inr res) w w'))"
  by (rule proxy_local [where get = get and key = key and dial = dial and exch = exch, OF assms])

theorem proxy_relays_member_witness:
  "\<exists>w' h'. NewProxyHandler (\<lambda>_. False) (demo_lookup ''abc'') (DialCluster demo_ks demo_yamux) demo_exchange None demo_key
     ''/api'' (demo_query ''watch=1'') newWriter demo_hub = Some (w', h') \<and> wBody w' = ''pods''"
proof -
  have "live demo_yamux 3" "3 \<in># held demo_hub (demo_ks demo_key)" by (simp_all add: demo_live demo_held)
  then obtain c h' where d: "DialCluster demo_ks demo_yamux demo_key demo_hub = (Inr c, h')" using demo_dial by blast
  have b: "reqBody (demo_query ''watch=1'') \<noteq> ClosedBody" by (simp add: demo_query_def)
  let ?up = "upgradeType (Header (demo_query ''watch=1''))"
  from proxy_relays_member [where get = "demo_lookup ''abc''" and key = demo_key and dial = "DialCluster demo_ks demo_yamux"
      and isnf = "\<lambda>_. False" and exch = demo_exchange and subpath = "''/api''", OF demo_lookup d b fresh_newWriter]
  obtain q where q: "\<forall>res s3. demo_exchange c q h' = (Inr res, s3) \<and> switch_wanted ?up res \<longrightarrow>
      (\<exists>w'. (\<forall>pm. NewProxyHandler (\<lambda>_. False) (demo_lookup ''abc'') (DialCluster demo_ks demo_yamux) demo_exchange pm demo_key
        ''/api'' (demo_query ''watch=1'') newWriter demo_hub = Some (w', s3))
        \<and> delivered ?up (Inr res) newWriter w')" by blast
  have "demo_exchange c q h' = (Inr \<lparr>StatusCode = 200, respHeader = Map.empty, respBody = ''pods''\<rparr>, h')"
    by (simp add: demo_exchange_def)
  with q show ?thesis by (fastforce simp: switch_wanted_def delivered_def)
qed

end
