(* ===== verification/Proxy_Paths.thy ===== *)
theory Proxy_Paths
  imports Proxy Wire
begin

text \<open>
  What becomes of the encoding of a path on its way to the agent. The director of the proxy handler sets the
  decoded path of the URL and leaves its \<^verbatim>\<open>RawPath\<close>, the encoding the client chose, as the inner director
  made it: for the whole path of the hub's request. The two do not belong together any more, so the transport
  ignores the encoding and writes the default one.
\<close>

section \<open>The request line\<close>

abbreviation with_raw :: "request \<Rightarrow> string \<Rightarrow> request" where
  "with_raw r rp \<equiv> r\<lparr>reqURL := (reqURL r)\<lparr>RawPath := rp\<rparr>\<rparr>"

lemma unescape_slash: "unescape (CHR ''/'' # s) encodePath = map_sum id ((#) (CHR ''/'')) (unescape s encodePath)"
  by simp

lemma local_raw:
  "snd (joinURLPath local_target u) = [] \<or> snd (joinURLPath local_target u) = EscapedPath u
     \<or> snd (joinURLPath local_target u) = CHR ''/'' # EscapedPath u"
  by (simp add: joinURLPath_def local_target_def EscapedPath_def escape_def Let_def HasSuffix_def)

lemma agent_EscapedPath:
  assumes "length subpath < length (Path (reqURL r))" and "HasPrefix subpath ''/''"
  shows "EscapedPath (reqURL (agent_request subpath r)) = escape subpath encodePath"
proof -
  let ?rp = "snd (joinURLPath local_target (reqURL r))"
  have "unescape ?rp encodePath \<noteq> Inr subpath \<or> ?rp = []"
    using local_raw [of "reqURL r"] assms(1) by (auto simp: unescape_slash unescape_EscapedPath)
  moreover have "subpath \<noteq> ''*''" using assms(2) by (auto simp: HasPrefix_def)
  ultimately show ?thesis by (auto simp: EscapedPath_def agent_request_URL)
qed

lemma agent_request_raw:
  "agent_request subpath (with_raw r rp) =
     with_raw (agent_request subpath r) (snd (joinURLPath local_target ((reqURL r)\<lparr>RawPath := rp\<rparr>)))"
proof (rule request.equality)
  show "reqURL (agent_request subpath (with_raw r rp)) =
      reqURL (with_raw (agent_request subpath r) (snd (joinURLPath local_target ((reqURL r)\<lparr>RawPath := rp\<rparr>))))"
    by (simp add: agent_request_URL)
qed (simp_all add: agent_request_def outgoing_request_def outgoing_header_def proxy_director_def single_host_director_def
      Let_def split: prod.split)

lemma received_raw:
  assumes "length subpath < length (Path (reqURL r))" and "HasPrefix subpath ''/''"
  shows "received (agent_request subpath (with_raw r rp)) = received (agent_request subpath r)"
proof -
  have "EscapedPath (reqURL (agent_request subpath (with_raw r rp))) = EscapedPath (reqURL (agent_request subpath r))"
    using agent_EscapedPath [of subpath "with_raw r rp"] agent_EscapedPath [of subpath r] assms by simp
  then have "RequestURI (reqURL (agent_request subpath (with_raw r rp))) = RequestURI (reqURL (agent_request subpath r))"
    by (simp add: RequestURI_def agent_request_URL)
  then show ?thesis by (simp add: received_def agent_request_raw split: sum.split)
qed

section \<open>Properties\<close>

lemma RoundTrip_raw:
  fixes dial :: "'s \<Rightarrow> 'c res \<times> 's"
  assumes "length subpath < length (Path (reqURL r))" and "HasPrefix subpath ''/''"
  shows "RoundTrip dial (serve_exchange h) (agent_request subpath (with_raw r rp)) s = RoundTrip dial (serve_exchange h) (agent_request subpath r) s"
proof -
  have "serve_exchange h c (agent_request subpath (with_raw r rp)) s = serve_exchange h c (agent_request subpath r) s" for c :: 'c and s
    by (simp add: serve_exchange_def received_raw [OF assms])
  then show ?thesis by (auto simp: RoundTrip_def agent_request_raw split: prod.split sum.split)
qed

text \<open>How serving ends: what is replied, or the error, but not the request an error handler would get.\<close>

fun ending :: "'s outcome \<Rightarrow> writer \<times> err option \<times> 's" where
  "ending (Replied w s) = (w, None, s)"
| "ending (CallErrorHandler w r e s) = (w, Some e, s)"

lemma ServeHTTP_raw:
  assumes "length subpath < length (Path (reqURL r))" and "HasPrefix subpath ''/''"
  shows "ending (ServeHTTP (proxy_director local_target subpath) (RoundTrip dial (serve_exchange h)) m (with_raw r rp) w s) =
    ending (ServeHTTP (proxy_director local_target subpath) (RoundTrip dial (serve_exchange h)) m r w s)"
proof -
  have o: "outgoing_request (proxy_director local_target subpath) (with_raw r rp) = agent_request subpath (with_raw r rp)"
    "outgoing_request (proxy_director local_target subpath) r = agent_request subpath r"
    by (simp_all add: agent_request_def)
  have h: "Header (agent_request subpath (with_raw r rp)) = Header (agent_request subpath r)"
    by (simp add: agent_request_raw)
  show ?thesis
    unfolding ServeHTTP_def o Let_def RoundTrip_raw [OF assms]
    by (simp add: switch_protocols_def closeBody_def h Let_def split: prod.split sum.split option.split)
qed

text \<open>
  C35: The encoding of a path is lost. Requests that differ in \<^verbatim>\<open>RawPath\<close> alone, such as one for
  \<^verbatim>\<open>/files/a%2Fb\<close> and one for \<^verbatim>\<open>/files/a/b\<close>, have the same effect and the same answer whatever server is at
  the other end of the session, because the agent gets the default encoding of the decoded path. It needs
  only that the subpath is what follows the route in the path of the request, so is shorter.
\<close>

theorem encoded_path_lost:
  assumes "length subpath < length (Path (reqURL r))" and "HasPrefix subpath ''/''"
  shows "NewProxyHandler isnf get dial (serve_exchange agent) None key subpath (r\<lparr>reqURL := (reqURL r)\<lparr>RawPath := rp\<rparr>\<rparr>) w s =
    NewProxyHandler isnf get dial (serve_exchange agent) None key subpath r w s"
proof -
  obtain res s1 where g: "get (Namespace key) (Name key) s = (res, s1)" by fastforce
  show ?thesis
  proof (cases res)
    case (Inl e)
    with g show ?thesis by (simp add: proxy_handler_missing [where get = get and key = key])
  next
    case (Inr cl)
    let ?o = "\<lambda>r. ServeHTTP (proxy_director local_target subpath) (RoundTrip (dial key) (serve_exchange agent)) (\<lambda>_. None) r w s1"
    have h: "NewProxyHandler isnf get dial (serve_exchange agent) None key subpath r w s =
        (case ending (?o r) of (w, None, s) \<Rightarrow> Some (w, s) | (w, Some e, s) \<Rightarrow> Some (defaultErrorHandler w, s))" for r
      using g Inr by (cases "?o r") (simp_all add: proxy_handler_serve [where get = get and key = key])
    show ?thesis unfolding h ServeHTTP_raw [OF assms] ..
  qed
qed

definition demo_encoded :: "string \<Rightarrow> request" where
  "demo_encoded raw = \<lparr>Method = ''GET'',
     reqURL = \<lparr>Scheme = [], Host = [], Path = ''/clusters/x/proxy/a/b'', RawPath = raw, RawQuery = []\<rparr>,
     Header = Map.empty, reqBody = Body [], ContentLength = 0, remoteIP = None\<rparr>"

theorem encoded_path_lost_witness:
  "NewProxyHandler (\<lambda>_. False) (demo_lookup ''abc'') (\<lambda>k s. (Inr 1, s)) (serve_exchange (\<lambda>r w s. Some (w, RawPath (reqURL r) @ s))) None
     demo_key ''/a/b'' (demo_encoded ''/clusters/x/proxy/a%2Fb'') newWriter [] =
   NewProxyHandler (\<lambda>_. False) (demo_lookup ''abc'') (\<lambda>k s. (Inr 1, s)) (serve_exchange (\<lambda>r w s. Some (w, RawPath (reqURL r) @ s))) None
     demo_key ''/a/b'' (demo_encoded []) newWriter []
   \<and> unescape ''/clusters/x/proxy/a%2Fb'' encodePath = Inr ''/clusters/x/proxy/a/b''"
proof (rule conjI)
  have "demo_encoded raw = (demo_encoded [])\<lparr>reqURL := (reqURL (demo_encoded []))\<lparr>RawPath := raw\<rparr>\<rparr>" for raw
    by (simp add: demo_encoded_def)
  from encoded_path_lost [where r = "demo_encoded []" and rp = "''/clusters/x/proxy/a%2Fb''" and subpath = "''/a/b''"
      and isnf = "\<lambda>_. False" and get = "demo_lookup ''abc''" and dial = "\<lambda>k s. (Inr 1, s)" and key = demo_key
      and agent = "\<lambda>r w s. Some (w, RawPath (reqURL r) @ s)" and w = newWriter and s = "[]", folded this]
  show "NewProxyHandler (\<lambda>_. False) (demo_lookup ''abc'') (\<lambda>k s. (Inr 1, s)) (serve_exchange (\<lambda>r w s. Some (w, RawPath (reqURL r) @ s))) None
     demo_key ''/a/b'' (demo_encoded ''/clusters/x/proxy/a%2Fb'') newWriter [] =
   NewProxyHandler (\<lambda>_. False) (demo_lookup ''abc'') (\<lambda>k s. (Inr 1, s)) (serve_exchange (\<lambda>r w s. Some (w, RawPath (reqURL r) @ s))) None
     demo_key ''/a/b'' (demo_encoded []) newWriter []"
    by (simp add: demo_encoded_def HasPrefix_def)
qed code_simp

end
