(* ===== verification/Hub_Trace.thy ===== *)
theory Hub_Trace
  imports Proxy Peer_Server
begin

text \<open>
  The protocol that the handlers of a hub follow when they run concurrently. A state is the hub together with
  the trace of what has happened, newest first, a ghost that no handler reads. The actions of the protocol are
  what the handlers may do to what they share: a registration, with the evidence for it, and a dial, each under
  the mutex of the session manager, and what library calls of any request bring about in between. The sequential
  handlers of \<open>Subresources\<close> are shown to do nothing but sequences of these actions when their library calls,
  during which all other handlers may run, do nothing else either (rely and guarantee). \<open>Connect_Threads\<close> shows
  the same for the connect handler cut into its statements, without an assumption on the others.
\<close>

section \<open>Events and actions\<close>

text \<open>
  An event belongs to the connect request \<open>r\<close> for the cluster \<open>key\<close>: the lookup has answered a cluster, the
  WebSocket is up, yamux runs over its connection. \<open>Registered\<close> records a call of \<open>AddClusterSession\<close>.
\<close>

datatype 'm event =
    LookedUp NamespacedName request "'m Cluster"
  | Upgraded NamespacedName request conn
  | Multiplexed NamespacedName request conn session
  | Registered NamespacedName session

record ('m, 'w) traced =
  thub :: "'w hub"
  trace :: "'m event list"

definition traced_add :: "(NamespacedName \<Rightarrow> string) \<Rightarrow> NamespacedName \<Rightarrow> session \<Rightarrow> ('m, 'w) traced \<Rightarrow> ('m, 'w) traced" where
  "traced_add ks key s st = st\<lparr>thub := add_session ks key s (thub st), trace := Registered key s # trace st\<rparr>"

definition traced_dial :: "(NamespacedName \<Rightarrow> string) \<Rightarrow> 'w yamux \<Rightarrow> NamespacedName \<Rightarrow> ('m, 'w) traced \<Rightarrow> conn res \<times> ('m, 'w) traced" where
  "traced_dial ks yx key st = (let (c, h) = DialCluster ks yx key (thub st) in (c, st\<lparr>thub := h\<rparr>))"

text \<open>
  \<open>authenticated raw t key s\<close>: some connect request for the cluster carried the token that the lookup for
  this request answered, was upgraded, and the session runs over its connection.
\<close>

definition authenticated :: "(conn \<Rightarrow> conn) \<Rightarrow> 'm event list \<Rightarrow> NamespacedName \<Rightarrow> session \<Rightarrow> bool" where
  "authenticated raw t key s \<longleftrightarrow>
     (\<exists>r cl c. LookedUp key r cl \<in> set t \<and> query_Get (reqURL r) ''token'' = Token cl
        \<and> Upgraded key r c \<in> set t \<and> Multiplexed key r (raw c) s \<in> set t)"

text \<open>
  The protocol is a specification, not the code: \<open>AddClusterSession\<close> asks nobody for evidence, the rule
  \<open>registered\<close> does, and the handlers have to show below that whenever they register a session they have it.
\<close>

inductive act ::
    "(NamespacedName \<Rightarrow> string) \<Rightarrow> 'w yamux \<Rightarrow> (conn \<Rightarrow> conn) \<Rightarrow> ('m, 'w) traced \<Rightarrow> ('m, 'w) traced \<Rightarrow> bool"
  for ks yx raw where
  looked_up: "act ks yx raw st (st\<lparr>trace := LookedUp key r cl # trace st\<rparr>)"
| upgraded: "act ks yx raw st (st\<lparr>trace := Upgraded key r c # trace st\<rparr>)"
| multiplexed: "act ks yx raw st (st\<lparr>trace := Multiplexed key r c s # trace st\<rparr>)"
| registered: "authenticated raw (trace st) key s \<Longrightarrow> act ks yx raw st (traced_add ks key s st)"
| dialled: "traced_dial ks yx key st = (c, st') \<Longrightarrow> act ks yx raw st st'"
| elsewhere: "act ks yx raw st (st\<lparr>thub := (thub st)\<lparr>world := w\<rparr>\<rparr>)"

abbreviation acts ::
    "(NamespacedName \<Rightarrow> string) \<Rightarrow> 'w yamux \<Rightarrow> (conn \<Rightarrow> conn) \<Rightarrow> ('m, 'w) traced \<Rightarrow> ('m, 'w) traced \<Rightarrow> bool" where
  "acts ks yx raw \<equiv> (act ks yx raw)\<^sup>*\<^sup>*"

definition hub_start :: "rng \<Rightarrow> 'w \<Rightarrow> ('m, 'w) traced" where
  "hub_start r w = \<lparr>thub = \<lparr>mgr = NewSessionManager, rand = r, world = w\<rparr>, trace = []\<rparr>"

section \<open>What holds in every state\<close>

lemma authenticated_mono: "authenticated raw t key s \<Longrightarrow> set t \<subseteq> set t' \<Longrightarrow> authenticated raw t' key s"
  unfolding authenticated_def by (elim exE conjE, intro exI conjI) (auto intro: subsetD)

lemma act_extends: "act ks yx raw a b \<Longrightarrow> set (trace a) \<subseteq> set (trace b)"
  by (induction rule: act.induct) (auto simp: traced_add_def traced_dial_def split: prod.splits)

lemma acts_extends: "acts ks yx raw a b \<Longrightarrow> set (trace a) \<subseteq> set (trace b)"
  by (induction rule: rtranclp_induct) (auto dest: act_extends)

definition safe :: "(NamespacedName \<Rightarrow> string) \<Rightarrow> (conn \<Rightarrow> conn) \<Rightarrow> ('m, 'w) traced \<Rightarrow> bool" where
  "safe ks raw st \<longleftrightarrow>
     (\<forall>cid s. s \<in># held (thub st) cid \<longrightarrow> (\<exists>key. ks key = cid \<and> authenticated raw (trace st) key s))"

lemma safe_start: "safe ks raw (hub_start r w)"
  by (simp add: safe_def hub_start_def held_def sessions_def NewSessionManager_def)

lemma safeI_fewer:
  assumes "safe ks raw st" and "\<And>i. held (thub st') i \<subseteq># held (thub st) i" and "set (trace st) \<subseteq> set (trace st')"
  shows "safe ks raw st'"
  unfolding safe_def
proof (intro allI impI)
  fix cid s
  assume "s \<in># held (thub st') cid"
  then have "s \<in># held (thub st) cid" using assms(2) mset_subset_eqD by metis
  then obtain key where "ks key = cid" "authenticated raw (trace st) key s" using assms(1) unfolding safe_def by blast
  then show "\<exists>key. ks key = cid \<and> authenticated raw (trace st') key s"
    using authenticated_mono [OF _ assms(3)] by blast
qed

lemma act_safe: "act ks yx raw a b \<Longrightarrow> safe ks raw a \<Longrightarrow> safe ks raw b"
proof (induction rule: act.induct)
  case (registered st key s)
  let ?st = "traced_add ks key s st"
  have m: "authenticated raw (trace st) k t \<Longrightarrow> authenticated raw (trace ?st) k t" for k t
    by (erule authenticated_mono) (auto simp: traced_add_def)
  show ?case
    unfolding safe_def
  proof (intro allI impI)
    fix cid t
    assume t: "t \<in># held (thub ?st) cid"
    show "\<exists>k. ks k = cid \<and> authenticated raw (trace ?st) k t"
    proof (cases "cid = ks key \<and> t = s")
      case True
      with m [OF registered.hyps] show ?thesis by blast
    next
      case False
      with t have "t \<in># held (thub st) cid" by (auto simp: traced_add_def sm.add_held split: if_splits)
      with registered.prems m show ?thesis unfolding safe_def by blast
    qed
  qed
next
  case (dialled key st c st')
  then obtain h where d: "DialCluster ks yx key (thub st) = (c, h)" "st' = st\<lparr>thub := h\<rparr>"
    by (auto simp: traced_dial_def split: prod.splits)
  show ?case by (rule safeI_fewer [OF dialled.prems]) (use sm.dial_sub [OF d(1)] d(2) in auto)
qed (erule safeI_fewer; auto simp: held_def)+

lemma acts_safe: "acts ks yx raw a b \<Longrightarrow> safe ks raw a \<Longrightarrow> safe ks raw b"
  by (induction rule: rtranclp_induct) (auto intro: act_safe)

section \<open>What the handlers do\<close>

text \<open>
  A step of a handler that its library makes: whatever the library waits for, the rest of the hub takes
  actions meanwhile, and the state it returns is one they lead to.
\<close>

definition follows ::
    "(NamespacedName \<Rightarrow> string) \<Rightarrow> 'w yamux \<Rightarrow> (conn \<Rightarrow> conn) \<Rightarrow> (('m, 'w) traced \<Rightarrow> 'a \<times> ('m, 'w) traced) \<Rightarrow> bool" where
  "follows ks yx raw f \<longleftrightarrow> (\<forall>s. acts ks yx raw s (snd (f s)))"

lemma followsD: "follows ks yx raw f \<Longrightarrow> f s = (x, s') \<Longrightarrow> acts ks yx raw s s'"
  by (metis follows_def snd_conv)

lemma followsI: "(\<And>s x s'. f s = (x, s') \<Longrightarrow> acts ks yx raw s s') \<Longrightarrow> follows ks yx raw f"
  unfolding follows_def by (metis prod.collapse)

lemma follows_dial: "follows ks yx raw (traced_dial ks yx key)"
  by (rule followsI) (rule r_into_rtranclp, erule act.dialled)

text \<open>The client of a connect request and the libraries it meets record what they have answered.\<close>

definition connect_env ::
    "(NamespacedName \<Rightarrow> string) \<Rightarrow> 'w yamux \<Rightarrow> ('m, 'w) traced ws_lib \<Rightarrow> ('m, ('m, 'w) traced) cluster_get \<Rightarrow>
       NamespacedName \<Rightarrow> request \<Rightarrow> bool" where
  "connect_env ks yx ws get key r \<longleftrightarrow>
     follows ks yx (UnderlyingConn ws) (get (Namespace key) (Name key))
     \<and> (\<forall>s cl s'. get (Namespace key) (Name key) s = (Inr cl, s') \<longrightarrow> LookedUp key r cl \<in> set (trace s'))
     \<and> (\<forall>rb wb w. follows ks yx (UnderlyingConn ws) (\<lambda>s. let (x, w', s') = Upgrade ws rb wb r w s in ((x, w'), s')))
     \<and> (\<forall>rb wb w s c w' s'. Upgrade ws rb wb r w s = (Inr c, w', s') \<longrightarrow> Upgraded key r c \<in> set (trace s'))
     \<and> (\<forall>c. follows ks yx (UnderlyingConn ws) (yamux_Server ws c))
     \<and> (\<forall>c s t s'. yamux_Server ws c s = (Inr t, s') \<longrightarrow> Multiplexed key r c t \<in> set (trace s'))"

lemma connect_envD:
  assumes "connect_env ks yx ws get key r"
  shows "get (Namespace key) (Name key) s = (x, s') \<Longrightarrow> acts ks yx (UnderlyingConn ws) s s'"
    and "get (Namespace key) (Name key) s = (Inr cl, s') \<Longrightarrow> LookedUp key r cl \<in> set (trace s')"
    and "Upgrade ws rb wb r w s = (u, w', s') \<Longrightarrow> acts ks yx (UnderlyingConn ws) s s'"
    and "Upgrade ws rb wb r w s = (Inr c, w', s') \<Longrightarrow> Upgraded key r c \<in> set (trace s')"
    and "yamux_Server ws c s = (y, s') \<Longrightarrow> acts ks yx (UnderlyingConn ws) s s'"
    and "yamux_Server ws c s = (Inr t, s') \<Longrightarrow> Multiplexed key r c t \<in> set (trace s')"
proof -
  note e = assms [unfolded connect_env_def]
  show "get (Namespace key) (Name key) s = (x, s') \<Longrightarrow> acts ks yx (UnderlyingConn ws) s s'"
    using e [THEN conjunct1] by (rule followsD)
  show "get (Namespace key) (Name key) s = (Inr cl, s') \<Longrightarrow> LookedUp key r cl \<in> set (trace s')"
    by (rule e [THEN conjunct2, THEN conjunct1, rule_format])
  show "acts ks yx (UnderlyingConn ws) s s'" if u: "Upgrade ws rb wb r w s = (u, w', s')"
    by (rule followsD [OF e [THEN conjunct2, THEN conjunct2, THEN conjunct1, rule_format, of rb wb w], of s "(u, w')"])
       (simp add: u)
  show "Upgrade ws rb wb r w s = (Inr c, w', s') \<Longrightarrow> Upgraded key r c \<in> set (trace s')"
    by (rule e [THEN conjunct2, THEN conjunct2, THEN conjunct2, THEN conjunct1, rule_format])
  show "yamux_Server ws c s = (y, s') \<Longrightarrow> acts ks yx (UnderlyingConn ws) s s'"
    by (rule followsD [OF e [THEN conjunct2, THEN conjunct2, THEN conjunct2, THEN conjunct2, THEN conjunct1, rule_format]])
  show "yamux_Server ws c s = (Inr t, s') \<Longrightarrow> Multiplexed key r c t \<in> set (trace s')"
    by (rule e [THEN conjunct2, THEN conjunct2, THEN conjunct2, THEN conjunct2, THEN conjunct2, rule_format])
qed

lemma connect_handler_acts:
  assumes env: "connect_env ks yx ws get key r"
    and run: "connect_handler isnf ws (Some get) (Some (traced_add ks)) key r w s = Some (w', s')"
  shows "acts ks yx (UnderlyingConn ws) s s'"
proof -
  note d = connect_envD [OF env]
  obtain x s1 where g: "get (Namespace key) (Name key) s = (x, s1)" by fastforce
  note a1 = d(1) [OF g]
  show ?thesis
  proof (cases "\<exists>cl. x = Inr cl \<and> query_Get (reqURL r) ''token'' = Token cl")
    case False
    with run g a1 show ?thesis by (auto simp: connect_handler_def Let_def split: sum.splits if_splits)
  next
    case True
    then obtain cl where cl: "x = Inr cl" "query_Get (reqURL r) ''token'' = Token cl" by blast
    obtain u w2 s2 where u: "Upgrade ws 1024 1024 r w s1 = (u, w2, s2)" using prod_cases3 by blast
    note a2 = rtranclp_trans [OF a1 d(3) [OF u]]
    show ?thesis
    proof (cases u)
      case (Inl e)
      with run g cl u a2 show ?thesis by (simp add: connect_handler_def Let_def)
    next
      case (Inr c)
      obtain y s3 where y: "yamux_Server ws (UnderlyingConn ws c) s2 = (y, s3)" by fastforce
      note a3 = rtranclp_trans [OF a2 d(5) [OF y]]
      show ?thesis
      proof (cases y)
        case (Inl e)
        with run g cl u Inr y a3 show ?thesis by (simp add: connect_handler_def Let_def)
      next
        case y': (Inr t)
        have "LookedUp key r cl \<in> set (trace s3)"
          using d(2) [OF g [unfolded cl(1)]] acts_extends [OF rtranclp_trans [OF d(3) [OF u] d(5) [OF y]]] by blast
        moreover have "Upgraded key r c \<in> set (trace s3)"
          using d(4) [OF u [unfolded Inr]] acts_extends [OF d(5) [OF y]] by blast
        moreover have "Multiplexed key r (UnderlyingConn ws c) t \<in> set (trace s3)"
          by (rule d(6) [OF y [unfolded y']])
        ultimately have "authenticated (UnderlyingConn ws) (trace s3) key t"
          unfolding authenticated_def using cl(2) by blast
        then have "act ks yx (UnderlyingConn ws) s3 (traced_add ks key t s3)" by (rule act.registered)
        with a3 have "acts ks yx (UnderlyingConn ws) s (traced_add ks key t s3)" by (rule rtranclp.rtrancl_into_rtrancl)
        with run g cl u Inr y y' show ?thesis by (simp add: connect_handler_def Let_def)
      qed
    qed
  qed
qed

lemma follows_RoundTrip:
  assumes "follows ks yx raw dial" and "\<And>c. follows ks yx raw (exch c r)"
  shows "follows ks yx raw (RoundTrip dial exch r)"
proof (rule followsI)
  fix s x s'
  assume run: "RoundTrip dial exch r s = (x, s')"
  obtain y s1 where y: "dial s = (y, s1)" by fastforce
  note a = followsD [OF assms(1) y]
  show "acts ks yx raw s s'"
  proof (cases y)
    case (Inl e)
    with run y a show ?thesis by (simp add: RoundTrip_def)
  next
    case (Inr c)
    show ?thesis
    proof (cases "reqBody r = ClosedBody \<and> ContentLength r \<noteq> 0")
      case True
      with run y Inr a show ?thesis by (simp add: RoundTrip_def)
    next
      case False
      with run y Inr have "exch c r s1 = (x, s')" by (auto simp: RoundTrip_def split: if_splits)
      from rtranclp_trans [OF a followsD [OF assms(2) this]] show ?thesis .
    qed
  qed
qed

lemma ServeHTTP_acts:
  assumes "\<And>q. follows ks yx raw (rt q)"
  shows "acts ks yx raw s (outcome_state (ServeHTTP d rt m r w s))"
  using assms [of "outgoing_request d r"] by (simp add: ServeHTTP_state follows_def)

text \<open>The libraries of the peer manager, and those of the proxy handler itself.\<close>

definition peers_env ::
    "(NamespacedName \<Rightarrow> string) \<Rightarrow> 'w yamux \<Rightarrow> (conn \<Rightarrow> conn) \<Rightarrow> ('m, 'w) traced get_endpoints \<Rightarrow>
       ('cert, ('m, 'w) traced) peer_net \<Rightarrow> bool" where
  "peers_env ks yx raw getEndpoints pn \<longleftrightarrow>
     (\<forall>ns n. follows ks yx raw (getEndpoints ns n))
     \<and> (\<forall>f k. follows ks yx raw (LoadX509KeyPair pn f k))
     \<and> (\<forall>cfg a. follows ks yx raw (TLSDial pn cfg a))
     \<and> (\<forall>c r. follows ks yx raw (Exchange pn c r))"

lemma peers_envD:
  assumes "peers_env ks yx raw getEndpoints pn"
  shows "follows ks yx raw (getEndpoints ns n)" and "follows ks yx raw (LoadX509KeyPair pn f k)"
    and "follows ks yx raw (TLSDial pn cfg a)" and "follows ks yx raw (Exchange pn c r)"
  using assms by (simp_all add: peers_env_def)

lemma follows_peer_transport: "peers_env ks yx raw ge pn \<Longrightarrow> follows ks yx raw (peer_transport pn cert r)"
  unfolding peer_transport_def by (rule followsI, rule followsD [OF follows_RoundTrip], rule peers_envD(3), assumption,
      rule peers_envD(4), assumption)

lemma peer_search_acts:
  assumes env: "peers_env ks yx raw ge pn"
  shows "peer_search C pn key peers w r s = (w', s') \<Longrightarrow> acts ks yx raw s s'"
proof (induction peers arbitrary: w r s)
  case (Cons p ps)
  show ?case
  proof (cases "p = [] \<or> (\<exists>e. url_Parse (''https://'' @ p @ proxy_prefix key) = Inl e)")
    case True
    with Cons.prems show ?thesis by (auto simp: peer_search.simps split: if_splits)
  next
    case False
    then obtain t where t: "p \<noteq> []" "url_Parse (''https://'' @ p @ proxy_prefix key) = Inr t"
      by (cases "url_Parse (''https://'' @ p @ proxy_prefix key)") auto
    obtain x s1 where x: "LoadX509KeyPair pn (filepath_Join [PeerCertDir C, ''tls.crt''])
        (filepath_Join [PeerCertDir C, ''tls.key'']) s = (x, s1)" by fastforce
    note a1 = followsD [OF peers_envD(2) [OF env] x]
    show ?thesis
    proof (cases x)
      case (Inl e)
      with Cons.prems t x a1 show ?thesis by (simp add: peer_search.simps)
    next
      case (Inr cert)
      let ?o = "ServeHTTP (single_host_director t) (peer_transport pn cert) peer_ModifyResponse r w s1"
      have a2: "acts ks yx raw s (outcome_state ?o)"
        by (rule rtranclp_trans [OF a1 ServeHTTP_acts]) (rule follows_peer_transport [OF env])
      show ?thesis
      proof (cases ?o)
        case (Replied w1 s2)
        with Cons.prems t x Inr a2 show ?thesis by (simp add: peer_search.simps)
      next
        case (CallErrorHandler w1 r1 e s2)
        show ?thesis
        proof (cases "Error e = []")
          case False
          with Cons.prems t x Inr a2 CallErrorHandler show ?thesis by (simp add: peer_search.simps)
        next
          case True
          with Cons.prems t x Inr CallErrorHandler
          have "peer_search C pn key ps w1 (trim_proxy_prefix key r1) s2 = (w', s')" by (simp add: peer_search.simps)
          from Cons.IH [OF this] a2 CallErrorHandler show ?thesis by (simp add: rtranclp_trans)
        qed
      qed
    qed
  qed
qed simp

lemma follows_ListPeers: "peers_env ks yx raw ge pn \<Longrightarrow> follows ks yx raw (Manager_ListPeers C ge)"
  by (rule followsI) (auto simp: Manager_ListPeers_def split: prod.splits sum.splits list.splits
      dest!: followsD [OF peers_envD(1)])

lemma error_handler_acts:
  assumes env: "peers_env ks yx raw ge pn"
    and run: "proxy_error_handler (NewManager C ge pn) key w r e s = Some (w', s')"
  shows "acts ks yx raw s s'"
proof -
  obtain x s1 where x: "Manager_ListPeers C ge s = (x, s1)" by fastforce
  note a = followsD [OF follows_ListPeers [OF env] x]
  show ?thesis
  proof (cases x)
    case (Inl e)
    with run x a show ?thesis by (simp add: proxy_error_handler_def NewManager_def)
  next
    case (Inr ps)
    with run x have "peer_search C pn key ps w r s1 = (w', s')"
      by (simp add: proxy_error_handler_def NewManager_def TryNextPeer_walk)
    from rtranclp_trans [OF a peer_search_acts [OF env this]] show ?thesis .
  qed
qed

lemma proxy_handler_acts:
  assumes lookup: "follows ks yx raw (get (Namespace key) (Name key))"
    and exch: "\<And>c q. follows ks yx raw (exch c q)" and env: "peers_env ks yx raw ge pn"
    and pm: "pm = None \<or> pm = Some (NewManager C ge pn)"
    and run: "NewProxyHandler isnf get (traced_dial ks yx) exch pm key subpath r w s = Some (w', s')"
  shows "acts ks yx raw s s'"
proof -
  obtain x s1 where g: "get (Namespace key) (Name key) s = (x, s1)" by fastforce
  note a1 = followsD [OF lookup g]
  show ?thesis
  proof (cases x)
    case (Inl e)
    with run a1 g show ?thesis by (simp add: proxy_handler_missing [where get = get and key = key])
  next
    case (Inr cl)
    let ?o = "ServeHTTP (proxy_director local_target subpath) (RoundTrip (traced_dial ks yx key) exch) (\<lambda>_. None) r w s1"
    have a2: "acts ks yx raw s (outcome_state ?o)"
      by (rule rtranclp_trans [OF a1 ServeHTTP_acts]) (rule follows_RoundTrip [OF follows_dial exch])
    note run' = run [unfolded proxy_handler_serve [where get = get and key = key, OF g [unfolded Inr]]]
    show ?thesis
    proof (cases ?o)
      case (Replied w1 s2)
      with run' a2 show ?thesis by simp
    next
      case (CallErrorHandler w1 r1 e s2)
      from pm show ?thesis
      proof
        assume "pm = None"
        with run' a2 CallErrorHandler show ?thesis by simp
      next
        assume "pm = Some (NewManager C ge pn)"
        with run' CallErrorHandler have "proxy_error_handler (NewManager C ge pn) key w1 r1 e s2 = Some (w', s')" by simp
        from error_handler_acts [OF env this] a2 CallErrorHandler show ?thesis by (simp add: rtranclp_trans)
      qed
    qed
  qed
qed

section \<open>Properties\<close>

definition hub_env ::
    "(NamespacedName \<Rightarrow> string) \<Rightarrow> 'w yamux \<Rightarrow> (conn \<Rightarrow> conn) \<Rightarrow> ('m, ('m, 'w) traced) cluster_get \<Rightarrow>
       (conn \<Rightarrow> request \<Rightarrow> ('m, 'w) traced \<Rightarrow> response res \<times> ('m, 'w) traced) \<Rightarrow>
       ('m, 'w) traced get_endpoints \<Rightarrow> ('cert, ('m, 'w) traced) peer_net \<Rightarrow> bool" where
  "hub_env ks yx raw get exch ge pn \<longleftrightarrow>
     (\<forall>ns n. follows ks yx raw (get ns n)) \<and> (\<forall>c q. follows ks yx raw (exch c q)) \<and> peers_env ks yx raw ge pn"

lemma agent_handler_acts:
  assumes "follows ks yx raw (get (Namespace key) (Name key))"
    and "agent_handler isnf ws subPath C get key r w s = Some (w', s')"
  shows "acts ks yx raw s s'"
  using assms(2) followsD [OF assms(1), of s]
  by (auto simp: agent_handler_def Let_def split: prod.splits sum.splits if_splits)

lemma agent_handler_returns: "\<exists>w' s'. agent_handler isnf ws subPath C get key r w s = Some (w', s')"
  by (simp add: agent_handler_def Let_def split: prod.split sum.split)

lemma connect_handler_returns: "\<exists>w' s'. connect_handler isnf ws (Some get) (Some add) key r w s = Some (w', s')"
  by (simp add: connect_handler_def Let_def split: prod.split sum.split)

lemma proxy_handler_returns: "\<exists>w' s'. NewProxyHandler isnf get dial exch (Some (NewManager C ge pn)) key subpath r w s = Some (w', s')"
  using hub_peers.proxy_returns by fastforce

lemma peer_proxy_returns: "\<exists>w' s'. NewProxyHandler isnf get dial exch None key subpath r w s = Some (w', s')"
  using proxy_without_manager_returns by fastforce

text \<open>
  C12: Under any interleaving with other requests the four handlers of a hub return, and what they did to
  it is a sequence of atomic actions of the protocol: a session is registered only with the evidence that a
  connect request for its cluster carried the token that was looked up for it, was upgraded, and that the
  session runs over its connection; every other change is a dial or a library call.
\<close>

theorem handlers_follow_protocol:
  assumes "connect_env ks yx ws get key r" and "hub_env ks yx (UnderlyingConn ws) get exch ge pn"
  shows "(\<exists>w' s'. connect_handler isnf ws (Some get) (Some (traced_add ks)) key r w s = Some (w', s')
        \<and> acts ks yx (UnderlyingConn ws) s s')
    \<and> (\<exists>w' s'. agent_handler isnf ws subPath C get key r w s = Some (w', s') \<and> acts ks yx (UnderlyingConn ws) s s')
    \<and> (\<exists>w' s'. NewProxyHandler isnf get (traced_dial ks yx) exch (Some (NewManager C ge pn)) key subpath r w s = Some (w', s')
        \<and> acts ks yx (UnderlyingConn ws) s s')
    \<and> (\<exists>w' s'. peer_handler isnf get (traced_dial ks yx) exch vars r w s = Some (w', s')
        \<and> acts ks yx (UnderlyingConn ws) s s')"
proof -
  note e = assms(2) [unfolded hub_env_def]
  have get: "follows ks yx (UnderlyingConn ws) (get ns n)" for ns n using e by blast
  have exch: "follows ks yx (UnderlyingConn ws) (exch c q)" for c q using e by blast
  have env: "peers_env ks yx (UnderlyingConn ws) ge pn" using e by blast
  note proxy = proxy_handler_acts [where get = get and exch = exch and ks = ks and yx = yx and raw = "UnderlyingConn ws",
      OF get exch env]
  show ?thesis
  proof (intro conjI)
    show "\<exists>w' s'. connect_handler isnf ws (Some get) (Some (traced_add ks)) key r w s = Some (w', s')
        \<and> acts ks yx (UnderlyingConn ws) s s'"
      using connect_handler_returns connect_handler_acts [OF assms(1)] by fastforce
    show "\<exists>w' s'. agent_handler isnf ws subPath C get key r w s = Some (w', s') \<and> acts ks yx (UnderlyingConn ws) s s'"
      using agent_handler_returns agent_handler_acts [where get = get and key = key, OF get] by fastforce
    show "\<exists>w' s'. NewProxyHandler isnf get (traced_dial ks yx) exch (Some (NewManager C ge pn)) key subpath r w s = Some (w', s')
        \<and> acts ks yx (UnderlyingConn ws) s s'"
      using proxy_handler_returns proxy [OF disjI2 [OF refl]] by fastforce
    show "\<exists>w' s'. peer_handler isnf get (traced_dial ks yx) exch vars r w s = Some (w', s')
        \<and> acts ks yx (UnderlyingConn ws) s s'"
      unfolding peer_handler_def Let_def using peer_proxy_returns proxy [OF disjI1 [OF refl]] by fastforce
  qed
qed

text \<open>A hub whose libraries answer at once and record it.\<close>

definition traced_lookup :: "request \<Rightarrow> (unit, (unit, nat) traced) cluster_get" where
  "traced_lookup r ns n s = (Inr (demo_cluster ''abc''),
     s\<lparr>trace := LookedUp \<lparr>Namespace = ns, Name = n\<rparr> r (demo_cluster ''abc'') # trace s\<rparr>)"

definition traced_ws :: "NamespacedName \<Rightarrow> request \<Rightarrow> (unit, nat) traced ws_lib" where
  "traced_ws key r = \<lparr>Upgrade = (\<lambda>_ _ _ w s. (Inr 5, w\<lparr>wStatus := Some 101, wHijacked := True\<rparr>, s\<lparr>trace := Upgraded key r 5 # trace s\<rparr>)),
     UnderlyingConn = Suc,
     yamux_Server = (\<lambda>c s. (Inr (c + 10), s\<lparr>trace := Multiplexed key r c (c + 10) # trace s\<rparr>))\<rparr>"

definition silent_peers :: "(unit, 's) peer_net" where
  "silent_peers = \<lparr>LoadX509KeyPair = (\<lambda>_ _ s. (Inr (), s)), TLSDial = (\<lambda>_ _ s. (Inl (errors_New ''timeout''), s)),
     Exchange = (\<lambda>_ _ s. (Inl (errors_New ''EOF''), s))\<rparr>"

abbreviation join_request :: request where "join_request \<equiv> demo_query ''token=abc''"

lemma traced_connect_env:
  "connect_env demo_ks demo_yamux (traced_ws demo_key join_request) (traced_lookup join_request) demo_key join_request"
  by (auto simp: connect_env_def follows_def traced_ws_def traced_lookup_def
      intro!: r_into_rtranclp act.looked_up act.upgraded act.multiplexed)

lemma traced_hub_env:
  "hub_env demo_ks demo_yamux raw (traced_lookup join_request) (\<lambda>c q s. (Inl (errors_New ''EOF''), s))
     (\<lambda>ns n s. (Inr [], s)) silent_peers"
  by (auto simp: hub_env_def peers_env_def follows_def silent_peers_def traced_lookup_def
      intro!: r_into_rtranclp act.looked_up)

theorem handlers_follow_protocol_witness:
  "\<exists>w' s'. connect_handler (\<lambda>_. False) (traced_ws demo_key join_request) (Some (traced_lookup join_request))
       (Some (traced_add demo_ks)) demo_key join_request newWriter (hub_start (sconst 0) 0) = Some (w', s')
     \<and> acts demo_ks demo_yamux Suc (hub_start (sconst 0) 0) s'"
proof -
  have u: "UnderlyingConn (traced_ws demo_key join_request) = Suc" by (simp add: traced_ws_def)
  show ?thesis
    using handlers_follow_protocol [where ge = "\<lambda>ns n s. (Inr [], s)" and s = "hub_start (sconst 0) 0"
        and isnf = "\<lambda>_. False" and w = newWriter, OF traced_connect_env traced_hub_env, THEN conjunct1]
    unfolding u .
qed

end
