(* ===== verification/Peer_Address.thy ===== *)
theory Peer_Address
  imports Peer_Server
begin

text \<open>
  From the addresses of the service's endpoints to the connections: \<open>Manager_ListPeers\<close> writes a peer as
  address, colon and port, without brackets around an IPv6 address, and \<open>Manager_TryNextPeer\<close> makes it the
  authority of a URL. This theory follows the authority through the transport of \<^verbatim>\<open>net/http\<close> to what is
  dialled. The functions are those of Go 1.16.
\<close>

section \<open>What the transport dials\<close>

definition validOptionalPort :: "string \<Rightarrow> bool" where
  "validOptionalPort port \<longleftrightarrow> port = [] \<or> hd port = CHR '':'' \<and> list_all is_digit (tl port)"

text \<open>\<^verbatim>\<open>splitHostPort\<close> of \<^verbatim>\<open>net/url\<close>, behind \<^verbatim>\<open>URL.Hostname\<close> and \<^verbatim>\<open>URL.Port\<close>.\<close>

definition url_splitHostPort :: "string \<Rightarrow> string \<times> string" where
  "url_splitHostPort hostPort =
     (let (host, port) = (case CutLast (CHR '':'') hostPort of
            None \<Rightarrow> (hostPort, [])
          | Some (h, p) \<Rightarrow> if validOptionalPort (CHR '':'' # p) then (h, p) else (hostPort, []))
      in (if HasPrefix host ''['' \<and> HasSuffix host '']'' then butlast (tl host) else host, port))"

definition JoinHostPort :: "string \<Rightarrow> string \<Rightarrow> string" where
  "JoinHostPort host port = (if CHR '':'' \<in> set host then ''['' @ host @ '']:'' @ port else host @ '':'' @ port)"

text \<open>\<^verbatim>\<open>canonicalAddr\<close> of the transport, for hosts of ASCII bytes: the port of the scheme if there is none.\<close>

definition canonicalAddr :: "URL \<Rightarrow> string" where
  "canonicalAddr u =
     (let (host, port) = url_splitHostPort (Host u)
      in JoinHostPort host (if port = [] then (if Scheme u = ''https'' then ''443'' else ''80'') else port))"

text \<open>\<^verbatim>\<open>net.SplitHostPort\<close>, with which the dialer reads the address. An IPv6 address needs its brackets here.\<close>

definition AddrError :: "string \<Rightarrow> string \<Rightarrow> err" where
  "AddrError msg addr = Err ''*net.AddrError'' (''address '' @ addr @ '': '' @ msg)"

definition net_SplitHostPort :: "string \<Rightarrow> (string \<times> string) res" where
  "net_SplitHostPort hostport =
     (case CutLast (CHR '':'') hostport of
        None \<Rightarrow> Inl (AddrError ''missing port in address'' hostport)
      | Some (before, port) \<Rightarrow>
          (if HasPrefix hostport ''['' then
             (case Cut (CHR '']'') hostport of
                (_, None) \<Rightarrow> Inl (AddrError ''missing ']' in address'' hostport)
              | (inside, Some rest) \<Rightarrow>
                  (if rest \<noteq> CHR '':'' # port then
                     Inl (AddrError (if HasPrefix rest '':'' then ''too many colons in address'' else ''missing port in address'') hostport)
                   else if CHR ''['' \<in> set (tl hostport) then Inl (AddrError ''unexpected '[' in address'' hostport)
                   else if CHR '']'' \<in> set rest then Inl (AddrError ''unexpected ']' in address'' hostport)
                   else Inr (tl inside, port)))
           else if CHR '':'' \<in> set before then Inl (AddrError ''too many colons in address'' hostport)
           else if CHR ''['' \<in> set hostport then Inl (AddrError ''unexpected '[' in address'' hostport)
           else if CHR '']'' \<in> set hostport then Inl (AddrError ''unexpected ']' in address'' hostport)
           else Inr (before, port)))"

section \<open>Round trips\<close>

lemma digit_is_digit: "n < 10 \<Longrightarrow> is_digit (digit n)"
  by (simp add: is_digit_def digit_hex)

lemma show_nat_digits: "list_all is_digit (show_nat n)"
proof (induction n rule: show_nat.induct)
  case (1 n)
  then show ?case by (subst show_nat.simps) (simp add: digit_is_digit)
qed

lemma show_int_digits: "0 \<le> i \<Longrightarrow> list_all is_digit (show_int i)"
  by (simp add: show_int_def show_nat_digits)

lemma digits_no_colon: "list_all is_digit s \<Longrightarrow> CHR '':'' \<notin> set s"
  using plain_not [OF digits_plain, of s "CHR '':''"] by simp

lemma ip_text_not: "ip_text s \<Longrightarrow> \<not> unreserved c \<Longrightarrow> c \<noteq> CHR '':'' \<Longrightarrow> c \<notin> set s"
  by (auto simp: ip_text_def list_all_iff)

lemma ip_port_ok: "ip_text ip \<Longrightarrow> list_all is_digit port \<Longrightarrow> hostport_ok (ip @ CHR '':'' # port)"
  by (simp add: hostport_ok_def CutLast_some digits_no_colon)

lemma splitHostPort_ip:
  assumes "ip_text ip" and "list_all is_digit port"
  shows "url_splitHostPort (ip @ CHR '':'' # port) = (ip, port)"
proof -
  have "\<not> HasPrefix ip ''[''" using ip_text_not [OF assms(1), of "CHR ''[''"] by (auto dest: HasPrefix_single)
  then show ?thesis
    using assms by (simp add: url_splitHostPort_def CutLast_some digits_no_colon validOptionalPort_def)
qed

lemma SplitHostPort_JoinHostPort:
  assumes "ip_text ip" and "list_all is_digit port"
  shows "net_SplitHostPort (JoinHostPort ip port) = Inr (ip, port)"
proof -
  have ip: "CHR ''['' \<notin> set ip" "CHR '']'' \<notin> set ip"
    using ip_text_not [OF assms(1), of "CHR ''[''"] ip_text_not [OF assms(1), of "CHR '']''"] by simp_all
  have port: "CHR ''['' \<notin> set port" "CHR '']'' \<notin> set port" "CHR '':'' \<notin> set port"
    using plain_not [OF digits_plain [OF assms(2)]] by simp_all
  show ?thesis
  proof (cases "CHR '':'' \<in> set ip")
    case True
    have "CutLast (CHR '':'') ((CHR ''['' # ip @ '']'') @ CHR '':'' # port) = Some (CHR ''['' # ip @ '']'', port)"
      by (rule CutLast_some) (rule port(3))
    moreover have "Cut (CHR '']'') ((CHR ''['' # ip) @ CHR '']'' # CHR '':'' # port) = (CHR ''['' # ip, Some (CHR '':'' # port))"
      by (rule Cut_some) (simp add: ip)
    ultimately show ?thesis
      using True ip port by (simp add: net_SplitHostPort_def JoinHostPort_def HasPrefix_def)
  next
    case False
    have "CutLast (CHR '':'') (ip @ CHR '':'' # port) = Some (ip, port)" by (rule CutLast_some) (rule port(3))
    moreover have "\<not> HasPrefix (ip @ CHR '':'' # port) ''[''" using ip(1) by (cases ip) (auto simp: HasPrefix_def)
    ultimately show ?thesis
      using False ip port by (simp add: net_SplitHostPort_def JoinHostPort_def)
  qed
qed

text \<open>The string \<open>ListPeers\<close> returns cannot be dialled itself when the address is an IPv6 address.\<close>

lemma SplitHostPort_ip6:
  assumes "ip_text ip" and "CHR '':'' \<in> set ip" and "list_all is_digit port"
  shows "net_SplitHostPort (ip @ CHR '':'' # port) =
    Inl (AddrError ''too many colons in address'' (ip @ CHR '':'' # port))"
proof -
  have "\<not> HasPrefix (ip @ CHR '':'' # port) ''[''"
    using ip_text_not [OF assms(1), of "CHR ''[''"] assms(2) by (cases ip) (auto simp: HasPrefix_def)
  then show ?thesis
    using assms by (simp add: net_SplitHostPort_def CutLast_some digits_no_colon)
qed

lemma peer_dialled:
  assumes "key_ok key" and "ip_text a" and "0 \<le> port"
  shows "\<exists>target. url_Parse (Sprintf ''https://%s/proxy/%s/%s'' [Str (a @ CHR '':'' # show_int port), Str (Namespace key), Str (Name key)]) = Inr target
    \<and> net_SplitHostPort (canonicalAddr target) = Inr (a, show_int port)"
proof -
  let ?p = "a @ CHR '':'' # show_int port"
  note d = show_int_digits [OF assms(3)]
  have "host_ok ?p" using ip_port_ok [OF assms(2) d] by (simp add: host_ok_def)
  then have "url_Parse (Sprintf ''https://%s/proxy/%s/%s'' [Str ?p, Str (Namespace key), Str (Name key)]) = Inr (peer_target key ?p)"
    unfolding Sprintf_target by (rule parse_peer_target [OF assms(1)])
  moreover have "canonicalAddr (peer_target key ?p) = JoinHostPort a (show_int port)"
    using splitHostPort_ip [OF assms(2) d] by (simp add: canonicalAddr_def peer_target_def)
  ultimately show ?thesis using SplitHostPort_JoinHostPort [OF assms(2) d] by simp
qed

lemma find_mem: "find P ps = Some q \<Longrightarrow> q \<in> set ps"
  by (auto simp: find_Some_iff)

section \<open>Properties\<close>

text \<open>
  C32: Every peer is reached at its own address, IPv4 or IPv6, and at the port of the service that has the
  name \<^verbatim>\<open>peer\<close>, the first of them, or if none has it at the first port. For each entry of the list the URL
  \<open>TryNextPeer\<close> makes of it parses, and the address the transport dials splits into the endpoint's IP and this
  port; conversely every endpoint but the hub's own is in the list. For an IPv6 address the entry itself
  is not an address that can be dialled: it takes the URL to put the brackets back.
\<close>

theorem peers_dialled:
  assumes "getEndpoints (ServiceNamespace C) (ServiceName C) s = (Inr (sub # subs), s')" and "Ports sub = p # ps"
    and "key_ok key" and "\<And>a. a \<in> set (Addresses sub) \<Longrightarrow> ip_text a" and "\<And>q. q \<in> set (Ports sub) \<Longrightarrow> 0 \<le> Port q"
  shows "\<exists>peers. Manager_ListPeers C getEndpoints s = (Inr peers, s')
    \<and> list_all2 (\<lambda>peer a. \<exists>target.
          url_Parse (Sprintf ''https://%s/proxy/%s/%s'' [Str peer, Str (Namespace key), Str (Name key)]) = Inr target
          \<and> net_SplitHostPort (canonicalAddr target) =
              Inr (a, show_int (Port (case find (\<lambda>q. portName q = ''peer'') (p # ps) of Some q \<Rightarrow> q | None \<Rightarrow> p)))
          \<and> (CHR '':'' \<in> set a \<longrightarrow> (\<exists>e. net_SplitHostPort peer = Inl e)))
        peers (filter (\<lambda>a. a \<noteq> IP C) (Addresses sub))"
proof -
  define q where "q = (case find (\<lambda>q. portName q = ''peer'') (p # ps) of Some q \<Rightarrow> q | None \<Rightarrow> p)"
  let ?port = "peer_port (Port p) (p # ps)"
  let ?as = "filter (\<lambda>a. a \<noteq> IP C) (Addresses sub)"
  let ?peers = "map (\<lambda>a. a @ CHR '':'' # show_int ?port) ?as"
  have l: "Manager_ListPeers C getEndpoints s = (Inr ?peers, s')"
    using assms(1,2) by (simp add: Manager_ListPeers_def peer_addrs_filter)
  have q: "q \<in> set (Ports sub)" "?port = Port q"
    unfolding assms(2) peer_port_find q_def by (auto split: option.split dest: find_mem simp del: find.simps)
  have "\<exists>target. url_Parse (Sprintf ''https://%s/proxy/%s/%s'' [Str (a @ CHR '':'' # show_int ?port), Str (Namespace key), Str (Name key)]) = Inr target
      \<and> net_SplitHostPort (canonicalAddr target) = Inr (a, show_int (Port q))
      \<and> (CHR '':'' \<in> set a \<longrightarrow> (\<exists>e. net_SplitHostPort (a @ CHR '':'' # show_int ?port) = Inl e))" if "a \<in> set ?as" for a
  proof -
    have ip: "ip_text a" and n: "0 \<le> ?port" using that assms(4,5) q by auto
    from peer_dialled [OF assms(3) ip n] SplitHostPort_ip6 [OF ip _ show_int_digits [OF n]]
    show ?thesis unfolding q(2) [symmetric] by blast
  qed
  then have "list_all2 (\<lambda>peer a. \<exists>target.
      url_Parse (Sprintf ''https://%s/proxy/%s/%s'' [Str peer, Str (Namespace key), Str (Name key)]) = Inr target
      \<and> net_SplitHostPort (canonicalAddr target) = Inr (a, show_int (Port q))
      \<and> (CHR '':'' \<in> set a \<longrightarrow> (\<exists>e. net_SplitHostPort peer = Inl e))) ?peers ?as"
    unfolding list_all2_map1 by (intro list.rel_refl_strong)
  with l show ?thesis unfolding q_def by blast
qed

text \<open>A service with two ports, of which the second is the one for peers.\<close>

definition demo_sub6 :: EndpointSubset where
  "demo_sub6 = \<lparr>Addresses = [''10.0.0.1'', ''fd00::2''],
     Ports = [\<lparr>portName = ''https'', Port = 443\<rparr>, \<lparr>portName = ''peer'', Port = 6443\<rparr>]\<rparr>"

definition demo_endpoints6 :: "nat get_endpoints" where
  "demo_endpoints6 ns name s = (Inr [demo_sub6], s)"

theorem peers_dialled_witness:
  "\<exists>peer target. Manager_ListPeers demo_C demo_endpoints6 0 = (Inr [peer], 0)
     \<and> url_Parse (Sprintf ''https://%s/proxy/%s/%s'' [Str peer, Str (Namespace demo_key), Str (Name demo_key)]) = Inr target
     \<and> net_SplitHostPort (canonicalAddr target) = Inr (''fd00::2'', show_int 6443)"
proof -
  have g: "demo_endpoints6 (ServiceNamespace demo_C) (ServiceName demo_C) 0 = (Inr (demo_sub6 # []), 0)"
    by (simp add: demo_endpoints6_def)
  have ports: "Ports demo_sub6 = \<lparr>portName = ''https'', Port = 443\<rparr> # [\<lparr>portName = ''peer'', Port = 6443\<rparr>]"
    by (simp add: demo_sub6_def)
  have ip: "ip_text a" if "a \<in> set (Addresses demo_sub6)" for a
    using that by (auto simp: demo_sub6_def ip_text_def unreserved_def is_alnum_def is_upper_def is_lower_def is_digit_def)
  have po: "0 \<le> Port q" if "q \<in> set (Ports demo_sub6)" for q using that by (auto simp: demo_sub6_def)
  have f: "filter (\<lambda>a. a \<noteq> IP demo_C) (Addresses demo_sub6) = [''fd00::2'']" by (simp add: demo_C_def demo_sub6_def)
  from peers_dialled [where getEndpoints = demo_endpoints6 and C = demo_C, OF g ports demo_key_ok ip po] show ?thesis
    unfolding f by (auto simp: list_all2_Cons2)
qed

end
