(* ===== verification/Webhooks.thy ===== *)
theory Webhooks
  imports Api_Types
begin

text \<open>
  \<^verbatim>\<open>src/pkg/webhook/cluster\<close>: the mutating and the validating admission webhook of clusters. The
  mutator gives a cluster without a token a fresh one, the validator refuses a cluster without one.

  Library code is a parameter: the decoder and the response constructors of controller-runtime, JSON
  encoding (which depends on the embedded metadata of apimachinery), the source of UUIDs, field errors.
\<close>

section \<open>Libraries\<close>

text \<open>
  \<open>'d\<close> is a decoder, \<open>'q\<close> an admission request, \<open>'p\<close> a response, \<open>'f\<close> a field error.
\<close>

record ('d, 'q, 'm, 'p, 'f) admission_lib =
  Decode :: "'d \<Rightarrow> 'q \<Rightarrow> 'm Cluster res"
  Raw :: "'q \<Rightarrow> string"
  json_Marshal :: "'m Cluster \<Rightarrow> string res"
  Errored :: "nat \<Rightarrow> err \<Rightarrow> 'p"
  PatchResponseFromRaw :: "string \<Rightarrow> string \<Rightarrow> 'p"
  Denied :: "string \<Rightarrow> 'p"
  Allowed :: "string \<Rightarrow> 'p"
  Required :: "string \<Rightarrow> string \<Rightarrow> 'f"
  ToAggregate :: "'f list \<Rightarrow> err"

section \<open>The mutator\<close>

record 'd Mutator =
  mutatorDecoder :: "'d option"

definition NewMutator :: "'d Mutator" where
  "NewMutator = \<lparr>mutatorDecoder = None\<rparr>"

definition Mutator_InjectDecoder :: "'d \<Rightarrow> 'd Mutator \<Rightarrow> err option \<times> 'd Mutator" where
  "Mutator_InjectDecoder d h = (None, h\<lparr>mutatorDecoder := Some d\<rparr>)"

text \<open>Calling the nil decoder of a mutator that was not injected panics: \<open>None\<close>.\<close>

definition Mutator_Handle ::
    "('d, 'q, 'm, 'p, 'f) admission_lib \<Rightarrow> ('s \<Rightarrow> string \<times> 's) \<Rightarrow> 'd Mutator \<Rightarrow> 'q \<Rightarrow> 's \<Rightarrow> ('p \<times> 's) option" where
  "Mutator_Handle lib uuid_New h req s =
     (case mutatorDecoder h of
        None \<Rightarrow> None
      | Some d \<Rightarrow>
          (case Decode lib d req of
             Inl err \<Rightarrow> Some (Errored lib 400 err, s)
           | Inr cluster \<Rightarrow>
               let (cluster, s) =
                     (if Token cluster = [] then (let (u, s) = uuid_New s in (cluster\<lparr>Token := u\<rparr>, s)) else (cluster, s))
               in (case json_Marshal lib cluster of
                     Inl err \<Rightarrow> Some (Errored lib 500 err, s)
                   | Inr marshaled \<Rightarrow> Some (PatchResponseFromRaw lib (Raw lib req) marshaled, s))))"

section \<open>The validator\<close>

record 'd Validator =
  validatorDecoder :: "'d option"

definition NewValidator :: "'d Validator" where
  "NewValidator = \<lparr>validatorDecoder = None\<rparr>"

definition Validator_InjectDecoder :: "'d \<Rightarrow> 'd Validator \<Rightarrow> err option \<times> 'd Validator" where
  "Validator_InjectDecoder d h = (None, h\<lparr>validatorDecoder := Some d\<rparr>)"

definition Validator_Handle ::
    "('d, 'q, 'm, 'p, 'f) admission_lib \<Rightarrow> 'd Validator \<Rightarrow> 'q \<Rightarrow> 'p option" where
  "Validator_Handle lib h req =
     (case validatorDecoder h of
        None \<Rightarrow> None
      | Some d \<Rightarrow>
          (case Decode lib d req of
             Inl err \<Rightarrow> Some (Errored lib 400 err)
           | Inr cluster \<Rightarrow>
               let errs = [];
                   errs = (if Token cluster = [] then errs @ [Required lib ''token'' []] else errs)
               in if 0 < length errs then Some (Denied lib (Error (ToAggregate lib errs)))
                  else Some (Allowed lib [])))"

section \<open>The contract of the API server\<close>

text \<open>
  What the API server makes of a response: \<open>allows\<close> says whether it lets the request pass, \<open>patched\<close>
  the object it goes on with. \<open>admission_doc\<close> is what controller-runtime documents of its constructors
  and what JSON encoding promises: errors and denials do not pass, \<open>Allowed\<close> and patch responses
  do, and the patch computed from two documents leads from the first to the second; an encoded
  cluster decodes to itself.
\<close>

record ('q, 'p) api_server =
  allows :: "'p \<Rightarrow> bool"
  patched :: "'p \<Rightarrow> 'q \<Rightarrow> 'q"

definition admission_doc :: "('d, 'q, 'm, 'p, 'f) admission_lib \<Rightarrow> 'd \<Rightarrow> ('q, 'p) api_server \<Rightarrow> bool" where
  "admission_doc lib d api \<longleftrightarrow>
     (\<forall>c e. \<not> allows api (Errored lib c e)) \<and> (\<forall>m. \<not> allows api (Denied lib m)) \<and> (\<forall>m. allows api (Allowed lib m))
     \<and> (\<forall>a b. allows api (PatchResponseFromRaw lib a b))
     \<and> (\<forall>q b. Raw lib (patched api (PatchResponseFromRaw lib (Raw lib q) b) q) = b)
     \<and> (\<forall>q q'. Raw lib q = Raw lib q' \<longrightarrow> Decode lib d q = Decode lib d q')
     \<and> (\<forall>q cl j. json_Marshal lib cl = Inr j \<and> Raw lib q = j \<longrightarrow> Decode lib d q = Inr cl)"

lemma admission_docD:
  assumes "admission_doc lib d api"
  shows "\<not> allows api (Errored lib c e)" and "\<not> allows api (Denied lib m)" and "allows api (Allowed lib m)"
    and "allows api (PatchResponseFromRaw lib a b)"
    and "Raw lib (patched api (PatchResponseFromRaw lib (Raw lib q) b) q) = b"
    and "json_Marshal lib cl = Inr (Raw lib q) \<Longrightarrow> Decode lib d q = Inr cl"
  using assms unfolding admission_doc_def by (elim conjE; iprover)+

text \<open>One admission: mutate, and if that passes, validate what the patch made of the request.\<close>

definition admit ::
    "('d, 'q, 'm, 'p, 'f) admission_lib \<Rightarrow> ('q, 'p) api_server \<Rightarrow> ('s \<Rightarrow> string \<times> 's) \<Rightarrow> 'd Mutator \<Rightarrow> 'd Validator \<Rightarrow>
       'q \<Rightarrow> 's \<Rightarrow> ('q option \<times> 's) option" where
  "admit lib api uuid_New m v q s =
     (case Mutator_Handle lib uuid_New m q s of
        None \<Rightarrow> None
      | Some (p, s) \<Rightarrow>
          (if \<not> allows api p then Some (None, s)
           else (case Validator_Handle lib v (patched api p q) of
                   None \<Rightarrow> None
                 | Some p' \<Rightarrow> Some (if allows api p' then Some (patched api p q) else None, s))))"

section \<open>The handlers, branch by branch\<close>

text \<open>The token the mutator leaves in a cluster.\<close>

definition with_token :: "('s \<Rightarrow> string \<times> 's) \<Rightarrow> 'm Cluster \<Rightarrow> 's \<Rightarrow> 'm Cluster \<times> 's" where
  "with_token uuid_New cl s =
     (if Token cl = [] then (cl\<lparr>Token := fst (uuid_New s)\<rparr>, snd (uuid_New s)) else (cl, s))"

lemma Mutator_decoded:
  assumes "mutatorDecoder h = Some d" and "Decode lib d q = Inr cl" and "with_token uuid_New cl s = (cl', s')"
  shows "Mutator_Handle lib uuid_New h q s =
    Some (case json_Marshal lib cl' of Inl e \<Rightarrow> Errored lib 500 e | Inr j \<Rightarrow> PatchResponseFromRaw lib (Raw lib q) j, s')"
  using assms by (auto simp: Mutator_Handle_def with_token_def Let_def split: prod.splits sum.splits if_splits)

lemma Mutator_undecoded:
  "mutatorDecoder h = Some d \<Longrightarrow> Decode lib d q = Inl e \<Longrightarrow>
     Mutator_Handle lib uuid_New h q s = Some (Errored lib 400 e, s)"
  by (simp add: Mutator_Handle_def)

lemma Validator_decoded:
  "validatorDecoder h = Some d \<Longrightarrow> Decode lib d q = Inr cl \<Longrightarrow>
     Validator_Handle lib h q = Some (if Token cl = [] then Denied lib (Error (ToAggregate lib [Required lib ''token'' []]))
                                     else Allowed lib [])"
  by (simp add: Validator_Handle_def)

lemma Validator_undecoded:
  "validatorDecoder h = Some d \<Longrightarrow> Decode lib d q = Inl e \<Longrightarrow> Validator_Handle lib h q = Some (Errored lib 400 e)"
  by (simp add: Validator_Handle_def)

lemma with_token_set:
  "with_token uuid_New cl s = (cl', s') \<Longrightarrow> fst (uuid_New s) \<noteq> [] \<Longrightarrow>
     Token cl' \<noteq> [] \<and> clusterTypeMeta cl' = clusterTypeMeta cl \<and> ObjectMeta cl' = ObjectMeta cl
     \<and> (Token cl \<noteq> [] \<longrightarrow> cl' = cl \<and> s' = s)"
  by (auto simp: with_token_def split: if_splits)

lemma admit_token:
  assumes "admission_doc lib d api" and "validatorDecoder v = Some d" and "admit lib api uuid_New m v q s = Some (Some q', s')"
  shows "\<exists>cl. Decode lib d q' = Inr cl \<and> Token cl \<noteq> []"
proof -
  from assms(3) obtain p' where p': "Validator_Handle lib v q' = Some p'" "allows api p'"
    by (auto simp: admit_def split: option.splits if_splits prod.splits)
  show ?thesis
  proof (cases "Decode lib d q'")
    case (Inl e)
    then have "p' = Errored lib 400 e" using p'(1) Validator_undecoded [OF assms(2) Inl] by simp
    with p'(2) show ?thesis using admission_docD(1) [OF assms(1)] by blast
  next
    case (Inr cl)
    have "Token cl \<noteq> []"
    proof
      assume "Token cl = []"
      then have "p' = Denied lib (Error (ToAggregate lib [Required lib ''token'' []]))"
        using p'(1) Validator_decoded [OF assms(2) Inr] by simp
      with p'(2) show False using admission_docD(2) [OF assms(1)] by blast
    qed
    with Inr show ?thesis by blast
  qed
qed

section \<open>Admission\<close>

text \<open>
  Every cluster that is admitted has a token, and admission changes nothing else. If the object
  decodes, and the decoders are injected, the cluster that passes both webhooks has the metadata of the
  one submitted and its token if it had one, a fresh one otherwise; if it could be encoded at all it
  does pass.
\<close>

lemma admitted_has_token:
  assumes "admission_doc lib d api" and "mutatorDecoder m = Some d" and "validatorDecoder v = Some d"
    and "Decode lib d q = Inr cl" and "fst (uuid_New s) \<noteq> []"
  shows "\<exists>cl' s'. with_token uuid_New cl s = (cl', s')
    \<and> Token cl' \<noteq> [] \<and> clusterTypeMeta cl' = clusterTypeMeta cl \<and> ObjectMeta cl' = ObjectMeta cl
    \<and> (Token cl \<noteq> [] \<longrightarrow> cl' = cl)
    \<and> (\<exists>r. admit lib api uuid_New m v q s = Some (r, s')
        \<and> (case json_Marshal lib cl' of
             Inl _ \<Rightarrow> r = None
           | Inr j \<Rightarrow> (\<exists>q'. r = Some q' \<and> Raw lib q' = j \<and> Decode lib d q' = Inr cl')))"
proof -
  obtain cl' s' where t: "with_token uuid_New cl s = (cl', s')" by fastforce
  note w = with_token_set [OF t assms(5)]
  note m = Mutator_decoded [OF assms(2,4) t]
  have "\<exists>r. admit lib api uuid_New m v q s = Some (r, s')
        \<and> (case json_Marshal lib cl' of
             Inl _ \<Rightarrow> r = None
           | Inr j \<Rightarrow> (\<exists>q'. r = Some q' \<and> Raw lib q' = j \<and> Decode lib d q' = Inr cl'))"
  proof (cases "json_Marshal lib cl'")
    case (Inl e)
    then show ?thesis by (simp add: admit_def m admission_docD(1) [OF assms(1)])
  next
    case (Inr j)
    let ?q = "patched api (PatchResponseFromRaw lib (Raw lib q) j) q"
    have r: "Raw lib ?q = j" by (rule admission_docD(5) [OF assms(1)])
    then have d: "Decode lib d ?q = Inr cl'" using Inr by (intro admission_docD(6) [OF assms(1)]) simp
    have "admit lib api uuid_New m v q s = Some (Some ?q, s')"
      using w by (simp add: admit_def m Inr Validator_decoded [OF assms(3) d] admission_docD(3,4) [OF assms(1)])
    then show ?thesis using Inr r d by auto
  qed
  with t w show ?thesis by blast
qed

text \<open>A library for the witnesses: documents are tokens, requests are documents.\<close>

datatype demo_response = DErrored nat err | DPatch string | DDenied string | DAllowed

definition demo_admission :: "(unit, string, unit, demo_response, string) admission_lib" where
  "demo_admission = \<lparr>Decode = (\<lambda>_ q. Inr \<lparr>clusterTypeMeta = \<lparr>Kind = [], APIVersion = []\<rparr>, ObjectMeta = (), Token = q\<rparr>),
     Raw = (\<lambda>q. q),
     json_Marshal = (\<lambda>cl. if clusterTypeMeta cl = \<lparr>Kind = [], APIVersion = []\<rparr> then Inr (Token cl) else Inl (errors_New ''x'')),
     Errored = DErrored, PatchResponseFromRaw = (\<lambda>_. DPatch), Denied = DDenied, Allowed = (\<lambda>_. DAllowed),
     Required = (\<lambda>f m. f @ '': Required value''), ToAggregate = (\<lambda>es. errors_New (concat es))\<rparr>"

definition demo_api :: "(string, demo_response) api_server" where
  "demo_api = \<lparr>allows = (\<lambda>p. case p of DPatch _ \<Rightarrow> True | DAllowed \<Rightarrow> True | _ \<Rightarrow> False),
     patched = (\<lambda>p q. case p of DPatch j \<Rightarrow> j | _ \<Rightarrow> q)\<rparr>"

definition demo_mutator :: "unit Mutator" where
  "demo_mutator = snd (Mutator_InjectDecoder () NewMutator)"

definition demo_validator :: "unit Validator" where
  "demo_validator = snd (Validator_InjectDecoder () NewValidator)"

lemma demo_admission_doc: "admission_doc demo_admission () demo_api"
  by (auto simp: admission_doc_def demo_admission_def demo_api_def split: if_splits)

lemma demo_handlers: "mutatorDecoder demo_mutator = Some ()" "validatorDecoder demo_validator = Some ()"
  by (simp_all add: demo_mutator_def demo_validator_def Mutator_InjectDecoder_def Validator_InjectDecoder_def)

definition demo_uuid :: "nat \<Rightarrow> string \<times> nat" where
  "demo_uuid n = (''uuid-'' @ show_nat n, Suc n)"

lemma demo_uuid: "fst (demo_uuid n) \<noteq> []"
  by (simp add: demo_uuid_def)

text \<open>
  The validator lets a request pass exactly when its object decodes and has a token. A request
  that does not decode is refused with 400 by both webhooks, and consumes no UUID.
\<close>

lemma validator_decides:
  assumes "admission_doc lib d api" and "mutatorDecoder m = Some d" and "validatorDecoder v = Some d"
  shows "((\<exists>p. Validator_Handle lib v q = Some p \<and> allows api p) \<longleftrightarrow> (\<exists>cl. Decode lib d q = Inr cl \<and> Token cl \<noteq> []))
    \<and> (\<forall>e. Decode lib d q = Inl e \<longrightarrow> Validator_Handle lib v q = Some (Errored lib 400 e)
         \<and> Mutator_Handle lib uuid_New m q s = Some (Errored lib 400 e, s))"
proof (cases "Decode lib d q")
  case (Inl e)
  then show ?thesis
    using Inl by (simp add: Validator_undecoded [OF assms(3) Inl] Mutator_undecoded [OF assms(2) Inl, where uuid_New = uuid_New]
        admission_docD(1) [OF assms(1)])
next
  case (Inr cl)
  then show ?thesis
    using Inr by (simp add: Validator_decoded [OF assms(3) Inr] admission_docD(2,3) [OF assms(1)])
qed

end
