(* ===== verification/Webhook_Main.thy ===== *)
theory Webhook_Main
  imports Webhooks
begin

text \<open>
  \<^verbatim>\<open>src/cmd/kopilot-webhook/main.go\<close>: the webhook process registers the mutator and the validator under
  the paths the API server is configured with, and runs the manager of controller-runtime, which is a
  parameter: \<open>ctrlNewManager\<close> with the configured port, \<open>ctrlStart\<close> with the registered handlers.
\<close>

datatype 'd webhook_handler = HMutator "'d Mutator" | HValidator "'d Validator"

record ('d, 'mgr, 's) ctrl_lib =
  ctrlNewManager :: "int \<Rightarrow> 's \<Rightarrow> 'mgr res \<times> 's"
  ctrlStart :: "'mgr \<Rightarrow> (string \<times> 'd webhook_handler) list \<Rightarrow> 's \<Rightarrow> err option \<times> 's"

definition bindPort_default :: int where
  "bindPort_default = 9443"

definition webhook_routes :: "(string \<times> 'd webhook_handler) list" where
  "webhook_routes =
     [(''/mutate-v1alpha1-cluster'', HMutator NewMutator), (''/validate-v1alpha1-cluster'', HValidator NewValidator)]"

text \<open>\<open>Some\<close> is the message of \<^verbatim>\<open>log.Fatalf\<close>.\<close>

definition webhook_main :: "('d, 'mgr, 's) ctrl_lib \<Rightarrow> int \<Rightarrow> 's \<Rightarrow> string option \<times> 's" where
  "webhook_main lib bindPort s =
     (case ctrlNewManager lib bindPort s of
        (Inl err, s) \<Rightarrow> (Some (Sprintf ''failed to create controller manager: %s'' [Str (Error err)]), s)
      | (Inr mgr, s) \<Rightarrow>
          (case ctrlStart lib mgr webhook_routes s of
             (Some err, s) \<Rightarrow> (Some (Sprintf ''err running webhook: %s'' [Str (Error err)]), s)
           | (None, s) \<Rightarrow> (None, s)))"

text \<open>
  Registering injects the decoder into every handler that wants one; both do, so no handler that is
  served is left with a nil decoder.
\<close>

fun inject :: "'d \<Rightarrow> 'd webhook_handler \<Rightarrow> 'd webhook_handler" where
  "inject d (HMutator m) = HMutator (snd (Mutator_InjectDecoder d m))"
| "inject d (HValidator v) = HValidator (snd (Validator_InjectDecoder d v))"

fun handler_decoder :: "'d webhook_handler \<Rightarrow> 'd option" where
  "handler_decoder (HMutator m) = mutatorDecoder m"
| "handler_decoder (HValidator v) = validatorDecoder v"

lemma inject_decoder [simp]: "handler_decoder (inject d h) = Some d"
  by (cases h) (simp_all add: Mutator_InjectDecoder_def Validator_InjectDecoder_def)

lemma routes_decoded: "list_all (\<lambda>(p, h). handler_decoder (inject d h) = Some d) webhook_routes"
  by (simp add: webhook_routes_def)

section \<open>What the process does for the API server\<close>

text \<open>
  The API server calls the paths it is configured with (\<^verbatim>\<open>src/config/kopilot-webhook/manifests.yaml\<close>),
  the mutating webhook before the validating one, on every creation and update of a cluster.
\<close>

definition served_at :: "'d \<Rightarrow> string \<Rightarrow> 'd webhook_handler option" where
  "served_at d path = map_option (inject d) (map_of webhook_routes path)"

definition process_admit ::
    "('d, 'q, 'm, 'p, 'f) admission_lib \<Rightarrow> ('q, 'p) api_server \<Rightarrow> ('s \<Rightarrow> string \<times> 's) \<Rightarrow> 'd \<Rightarrow> 'q \<Rightarrow> 's \<Rightarrow> ('q option \<times> 's) option" where
  "process_admit lib api uuid_New d q s =
     (case (served_at d ''/mutate-v1alpha1-cluster'', served_at d ''/validate-v1alpha1-cluster'') of
        (Some (HMutator m), Some (HValidator v)) \<Rightarrow> admit lib api uuid_New m v q s
      | _ \<Rightarrow> None)"

lemma process_admit_handlers:
  obtains m v where "mutatorDecoder m = Some d" and "validatorDecoder v = Some d"
    and "\<And>q s. process_admit lib api uuid_New d q s = admit lib api uuid_New m v q s"
proof (rule that)
  show "mutatorDecoder (snd (Mutator_InjectDecoder d NewMutator)) = Some d"
    and "validatorDecoder (snd (Validator_InjectDecoder d NewValidator)) = Some d"
    by (simp_all add: Mutator_InjectDecoder_def Validator_InjectDecoder_def)
  show "process_admit lib api uuid_New d q s =
      admit lib api uuid_New (snd (Mutator_InjectDecoder d NewMutator)) (snd (Validator_InjectDecoder d NewValidator)) q s" for q s
    by (simp add: process_admit_def served_at_def webhook_routes_def)
qed

lemma with_token_again: "Token cl \<noteq> [] \<Longrightarrow> with_token uuid_New cl s = (cl, s)"
  by (simp add: with_token_def)

section \<open>Properties\<close>

text \<open>
  C17: What the webhook process makes of a cluster. An object that does not decode is refused. A cluster
  that does, and can be encoded, passes: its token is the one it was submitted with, or a fresh UUID if it
  had none, and nothing else of it is changed. When it is admitted again, as by an update, no UUID is
  drawn and the document stays what it is.
\<close>

theorem webhooks_admit:
  assumes "admission_doc lib d api" and "\<And>s. fst (uuid_New s) \<noteq> []"
  shows "(\<forall>e. Decode lib d q = Inl e \<longrightarrow> process_admit lib api uuid_New d q s = Some (None, s))
    \<and> (\<forall>cl. Decode lib d q = Inr cl \<longrightarrow>
         (\<exists>cl' s'. (cl', s') = (if Token cl = [] then (cl\<lparr>Token := fst (uuid_New s)\<rparr>, snd (uuid_New s)) else (cl, s))
            \<and> Token cl' \<noteq> []
            \<and> (case json_Marshal lib cl' of
                 Inl _ \<Rightarrow> process_admit lib api uuid_New d q s = Some (None, s')
               | Inr j \<Rightarrow> (\<exists>q'. process_admit lib api uuid_New d q s = Some (Some q', s') \<and> Raw lib q' = j
                    \<and> Decode lib d q' = Inr cl'
                    \<and> (\<forall>t. \<exists>q''. process_admit lib api uuid_New d q' t = Some (Some q'', t) \<and> Raw lib q'' = j)))))"
proof -
  obtain m v where d: "mutatorDecoder m = Some d" "validatorDecoder v = Some d"
    and a: "\<And>q s. process_admit lib api uuid_New d q s = admit lib api uuid_New m v q s"
    by (rule process_admit_handlers [where lib = lib and api = api and uuid_New = uuid_New and d = d]) blast
  have refused: "process_admit lib api uuid_New d q s = Some (None, s)" if "Decode lib d q = Inl e" for e
    by (simp add: a admit_def Mutator_undecoded [OF d(1) that] admission_docD(1) [OF assms(1)])
  have "\<exists>cl' s'. (cl', s') = (if Token cl = [] then (cl\<lparr>Token := fst (uuid_New s)\<rparr>, snd (uuid_New s)) else (cl, s))
            \<and> Token cl' \<noteq> []
            \<and> (case json_Marshal lib cl' of
                 Inl _ \<Rightarrow> process_admit lib api uuid_New d q s = Some (None, s')
               | Inr j \<Rightarrow> (\<exists>q'. process_admit lib api uuid_New d q s = Some (Some q', s') \<and> Raw lib q' = j
                    \<and> Decode lib d q' = Inr cl'
                    \<and> (\<forall>t. \<exists>q''. process_admit lib api uuid_New d q' t = Some (Some q'', t) \<and> Raw lib q'' = j)))"
    if c: "Decode lib d q = Inr cl" for cl
  proof -
    obtain cl' s' where t: "with_token uuid_New cl s = (cl', s')" "Token cl' \<noteq> []"
      and r: "\<exists>r. admit lib api uuid_New m v q s = Some (r, s')
        \<and> (case json_Marshal lib cl' of
             Inl _ \<Rightarrow> r = None
           | Inr j \<Rightarrow> (\<exists>q'. r = Some q' \<and> Raw lib q' = j \<and> Decode lib d q' = Inr cl'))"
      using admitted_has_token [where uuid_New = uuid_New and s = s, OF assms(1) d c assms(2)] by blast
    have again: "\<exists>q''. process_admit lib api uuid_New d q' u = Some (Some q'', u) \<and> Raw lib q'' = j"
      if j: "json_Marshal lib cl' = Inr j" and q': "Decode lib d q' = Inr cl'" for q' j u
      using admitted_has_token [where uuid_New = uuid_New and s = u, OF assms(1) d q' assms(2)]
      by (auto simp: a with_token_again [OF t(2)] j)
    show ?thesis
      by (rule exI [of _ cl'], rule exI [of _ s'])
         (use t r again in \<open>auto simp: with_token_def a split: sum.splits\<close>)
  qed
  with refused show ?thesis by blast
qed

theorem webhooks_admit_witness:
  "\<exists>q'. process_admit demo_admission demo_api demo_uuid () [] 7 = Some (Some q', 8) \<and> q' = fst (demo_uuid 7)"
proof -
  have c: "Decode demo_admission () [] = Inr \<lparr>clusterTypeMeta = \<lparr>Kind = [], APIVersion = []\<rparr>, ObjectMeta = (), Token = []\<rparr>"
    by (simp add: demo_admission_def)
  show ?thesis
    using webhooks_admit [where s = 7 and uuid_New = demo_uuid and q = "[]", OF demo_admission_doc demo_uuid, THEN conjunct2, rule_format, OF c]
    by (auto simp: demo_admission_def demo_uuid_def)
qed

end
