(* ===== verification/Hub_Main.thy ===== *)
theory Hub_Main
  imports Proxy Peer_Start
begin

text \<open>
  \<^verbatim>\<open>src/cmd/kopilot-hub/main.go\<close>: how the parts of the hub are put together, and how the process ends.

  Parameters: building the client configuration and the two clients (client-go), \<^verbatim>\<open>AddSubresource\<close> and
  \<^verbatim>\<open>Start\<close> of the subresource server. The peer server that runs beside it is the one of \<open>Peer_Start\<close>.
\<close>

section \<open>Setting up\<close>

text \<open>The subresources in the order they are added, over one session manager and one peer manager.\<close>

definition hub_subresources ::
    "(err \<Rightarrow> bool) \<Rightarrow> 's ws_lib \<Rightarrow> ('s Subresource \<Rightarrow> NamespacedName \<Rightarrow> string) \<Rightarrow> Config \<Rightarrow> ('m, 's) cluster_get \<Rightarrow>
       (conn, 's) SessionManager \<Rightarrow> (conn \<Rightarrow> request \<Rightarrow> 's \<Rightarrow> response res \<times> 's) \<Rightarrow>
       's get_endpoints \<Rightarrow> ('cert, 's) peer_net \<Rightarrow> 's Subresource list" where
  "hub_subresources IsNotFound ws subPath C client sessionManager exch getEndpoints pn =
     (let peerManager = NewManager C getEndpoints pn in
      [NewAgentSubresource IsNotFound ws subPath C client,
       NewConnectSubresource IsNotFound ws (Some client) (Some (ifAddClusterSession sessionManager)),
       NewProxySubresource IsNotFound client (ifDialCluster sessionManager) exch (Some peerManager)])"

record ('cfg, 'kube, 'cl) hub_clients =
  BuildConfigFromFlags :: "string \<Rightarrow> string \<Rightarrow> 'cfg res"
  kubeNewForConfig :: "'cfg \<Rightarrow> 'kube res"
  clientNewForConfig :: "'cfg \<Rightarrow> 'cl res"

text \<open>The clients \<open>main\<close> works with; \<open>Inl\<close> is the message of \<^verbatim>\<open>log.Fatalf\<close>.\<close>

definition hub_setup :: "('cfg, 'kube, 'cl) hub_clients \<Rightarrow> string + 'kube \<times> 'cl" where
  "hub_setup lib =
     (case BuildConfigFromFlags lib [] [] of
        Inl err \<Rightarrow> Inl (Sprintf ''failed to build kubeconfig: %s'' [Str (Error err)])
      | Inr cfg \<Rightarrow>
          (case kubeNewForConfig lib cfg of
             Inl err \<Rightarrow> Inl (Sprintf ''failed to create Kubernetes client: %s'' [Str (Error err)])
           | Inr kubeClient \<Rightarrow>
               (case clientNewForConfig lib cfg of
                  Inl err \<Rightarrow> Inl (Sprintf ''failed to create client: %s'' [Str (Error err)])
                | Inr client \<Rightarrow> Inr (kubeClient, client))))"

text \<open>
  \<^verbatim>\<open>main\<close> up to the servers: the configuration from the flags, the clients, the session manager, the
  subresources. \<open>clustersOf\<close> and \<open>endpointsOf\<close> read from the clients.
\<close>

definition hub_main ::
    "(config_field \<Rightarrow> string \<Rightarrow> string \<Rightarrow> string \<Rightarrow> 'fs \<times> Config \<Rightarrow> 'fs \<times> Config) \<Rightarrow> ('fs \<times> Config \<Rightarrow> Config) \<Rightarrow> 'fs \<Rightarrow>
       ('cfg, 'kube, 'cl) hub_clients \<Rightarrow> ('cl \<Rightarrow> ('m, 'w hub) cluster_get) \<Rightarrow> ('kube \<Rightarrow> 'w hub get_endpoints) \<Rightarrow>
       (err \<Rightarrow> bool) \<Rightarrow> 'w hub ws_lib \<Rightarrow> ('w hub Subresource \<Rightarrow> NamespacedName \<Rightarrow> string) \<Rightarrow> (NamespacedName \<Rightarrow> string) \<Rightarrow>
       'w yamux \<Rightarrow> (conn \<Rightarrow> request \<Rightarrow> 'w hub \<Rightarrow> response res \<times> 'w hub) \<Rightarrow> ('cert, 'w hub) peer_net \<Rightarrow>
       string + Config \<times> 'w hub Subresource list" where
  "hub_main StringVar Parse fs lib clustersOf endpointsOf IsNotFound ws subPath ks yx exch pn =
     (let C = Parse (InitFlags StringVar (fs, hub_C)) in
      case hub_setup lib of
        Inl msg \<Rightarrow> Inl msg
      | Inr (kubeClient, client) \<Rightarrow>
          Inr (C, hub_subresources IsNotFound ws subPath C (clustersOf client) (sessionManager_I ks yx) exch (endpointsOf kubeClient) pn))"

lemma hub_mainE:
  assumes "hub_main StringVar Parse fs lib clustersOf endpointsOf isnf ws subPath ks yx exch pn = Inr (C, subs)"
  obtains kube client where "hub_setup lib = Inr (kube, client)" and "C = Parse (InitFlags StringVar (fs, hub_C))"
    and "subs = [NewAgentSubresource isnf ws subPath C (clustersOf client),
       NewConnectSubresource isnf ws (Some (clustersOf client)) (Some (add_session ks)),
       NewProxySubresource isnf (clustersOf client) (DialCluster ks yx) exch (Some (NewManager C (endpointsOf kube) pn))]"
  using assms
  by (auto simp: hub_main_def hub_subresources_def sessionManager_I_def Let_def split: sum.splits)

section \<open>Running\<close>

text \<open>
  The process: the goroutine that reads the signals (the first ends the context, the second exits),
  the subresource server, the peer server, and \<open>main\<close>, which waits for both. The context of the group
  is done when its parent is: the functions of the group never return an error. Before it serves, the peer
  server can end the process with a message of \<open>StartServer_setup\<close>.
\<close>

datatype process = Running | MainReturned | OsExit nat | FatalExit string

record hub_run =
  signalled :: bool
  apiDown :: bool
  peerRun :: server_run
  process :: process

definition hub_run_start :: hub_run where
  "hub_run_start = \<lparr>signalled = False, apiDown = False, peerRun = server_start, process = Running\<rparr>"

inductive hub_run_step :: "hub_run \<Rightarrow> hub_run \<Rightarrow> bool" where
  first_signal: "process a = Running \<Longrightarrow> \<not> signalled a \<Longrightarrow> hub_run_step a (a\<lparr>signalled := True\<rparr>)"
| second_signal: "process a = Running \<Longrightarrow> signalled a \<Longrightarrow> hub_run_step a (a\<lparr>process := OsExit 1\<rparr>)"
| api_returns: "process a = Running \<Longrightarrow> \<not> apiDown a \<Longrightarrow> hub_run_step a (a\<lparr>apiDown := True\<rparr>)"
| api_fails: "process a = Running \<Longrightarrow> \<not> apiDown a \<Longrightarrow>
     hub_run_step a (a\<lparr>process := FatalExit (Sprintf ''error running server: %s'' [Str (Error e)])\<rparr>)"
| peer: "process a = Running \<Longrightarrow> server_step peer_after_serve (peerRun a) p \<Longrightarrow> (stopRequested p \<longrightarrow> signalled a) \<Longrightarrow>
     hub_run_step a (a\<lparr>peerRun := p\<rparr>)"
| peer_setup_fails: "process a = Running \<Longrightarrow> peerRun a = server_start \<Longrightarrow>
     msg \<in> {Sprintf ''failed to load peer cert: %s'' [Str (Error e)], Sprintf ''failed to load peer CA: %s'' [Str (Error e)]} \<Longrightarrow>
     hub_run_step a (a\<lparr>process := FatalExit msg\<rparr>)"
| peer_fails: "process a = Running \<Longrightarrow> runMain (peerRun a) = Returned (Some e) \<Longrightarrow>
     hub_run_step a (a\<lparr>process := FatalExit (Sprintf ''error running peer server: %s'' [Str (Error e)])\<rparr>)"
| wait: "process a = Running \<Longrightarrow> apiDown a \<Longrightarrow> runMain (peerRun a) = Returned None \<Longrightarrow>
     hub_run_step a (a\<lparr>process := MainReturned\<rparr>)"

inductive hub_run_reachable :: "hub_run \<Rightarrow> bool" where
  start: "hub_run_reachable hub_run_start"
| step: "hub_run_reachable a \<Longrightarrow> hub_run_step a b \<Longrightarrow> hub_run_reachable b"

definition hub_run_inv :: "hub_run \<Rightarrow> bool" where
  "hub_run_inv a \<longleftrightarrow> server_reachable peer_after_serve (peerRun a) \<and> (stopRequested (peerRun a) \<longrightarrow> signalled a)
     \<and> (process a = MainReturned \<longrightarrow> apiDown a \<and> runMain (peerRun a) = Returned None)
     \<and> (\<forall>n. process a = OsExit n \<longrightarrow> n = 1 \<and> signalled a)"

lemma hub_run_inv_step: "hub_run_step a b \<Longrightarrow> hub_run_inv a \<Longrightarrow> hub_run_inv b"
  by (induction rule: hub_run_step.induct) (auto simp: hub_run_inv_def intro: server_reachable.step)

lemma hub_run_inv_reachable: "hub_run_reachable a \<Longrightarrow> hub_run_inv a"
proof (induction rule: hub_run_reachable.induct)
  case start
  then show ?case by (simp add: hub_run_inv_def hub_run_start_def server_reachable.start) (simp add: server_start_def)
qed (blast intro: hub_run_inv_step)

section \<open>Shutting down\<close>

text \<open>What is left to do once the peer server shuts down: every step of the process takes one unit of it.\<close>

definition hub_work :: "hub_run \<Rightarrow> nat" where
  "hub_work a = shutdown_work (peerRun a) + (if apiDown a then 0 else 1) + (if process a = Running then 1 else 0)"

lemma hub_running: "hub_run_step a b \<Longrightarrow> process a = Running"
  by (induction rule: hub_run_step.induct) simp_all

lemma hub_shutdown_step:
  assumes "hub_run_inv a" and "runStopper (peerRun a) \<noteq> WaitStop" and "hub_run_step a b"
  shows "runStopper (peerRun b) \<noteq> WaitStop \<and> hub_work b < hub_work a"
proof -
  have r: "server_reachable peer_after_serve (peerRun a)" and "stopRequested (peerRun a) \<longrightarrow> signalled a"
    using assms(1) by (simp_all add: hub_run_inv_def)
  then have g: "signalled a" using peer_served.stop_inv_reachable [OF r] assms(2) by (simp add: peer_served.stop_inv_def)
  note p = peer_served.shutdown_step [OF r assms(2)]
  from assms(3) g p assms(2) show ?thesis
    by (induction rule: hub_run_step.induct) (auto simp: hub_work_def)
qed

lemma hub_shutdown_steps:
  "(hub_run_step ^^ n) a b \<Longrightarrow> hub_run_inv a \<Longrightarrow> runStopper (peerRun a) \<noteq> WaitStop \<Longrightarrow>
     hub_run_inv b \<and> runStopper (peerRun b) \<noteq> WaitStop \<and> n + hub_work b \<le> hub_work a"
proof (induction n arbitrary: b)
  case 0
  then show ?case by simp
next
  case (Suc n)
  then obtain c where c: "(hub_run_step ^^ n) a c" "hub_run_step c b" by auto
  from Suc.IH [OF c(1) Suc.prems(2,3)] hub_shutdown_step [OF _ _ c(2)] hub_run_inv_step [OF c(2)] show ?case by force
qed

lemma hub_work_bound: "runStopper (peerRun a) \<noteq> WaitStop \<Longrightarrow> hub_work a \<le> openConns (peerRun a) + 5"
  by (simp add: hub_work_def shutdown_work_def split: stopper.split main_state.split)

lemma hub_unstuck:
  assumes "hub_run_inv a" and "runStopper (peerRun a) \<noteq> WaitStop" and "process a = Running"
  shows "\<exists>b. hub_run_step a b \<and> (\<forall>n. process b \<noteq> OsExit n)"
proof (cases "apiDown a")
  case False
  from hub_run_step.api_returns [OF assms(3) this] assms(3) show ?thesis by force
next
  case True
  have r: "server_reachable peer_after_serve (peerRun a)" using assms(1) by (simp add: hub_run_inv_def)
  then have "stopRequested (peerRun a)"
    using peer_served.stop_inv_reachable [OF r] assms(2) by (simp add: peer_served.stop_inv_def)
  then have g: "signalled a" using assms(1) by (simp add: hub_run_inv_def)
  show ?thesis
  proof (cases "\<exists>p. server_step peer_after_serve (peerRun a) p")
    case True
    then obtain p where "server_step peer_after_serve (peerRun a) p" ..
    from hub_run_step.peer [OF assms(3) this] g assms(3) show ?thesis by force
  next
    case False
    then obtain x where x: "runMain (peerRun a) = Returned x"
      using peer_served.shutdown_unstuck [OF assms(2)] peer_inv_reachable [OF r] by (auto simp: peer_inv_def)
    show ?thesis
    proof (cases x)
      case None
      from hub_run_step.wait [OF assms(3) True] x None show ?thesis by force
    next
      case (Some e)
      from hub_run_step.peer_fails [OF assms(3), of e] x Some show ?thesis by force
    qed
  qed
qed

section \<open>A run\<close>

text \<open>A hub that has ended while handlers hold \<open>n\<close> connections that they have taken over.\<close>

definition demo_hub_end :: "nat \<Rightarrow> hub_run" where
  "demo_hub_end n = \<lparr>signalled = True, apiDown = True, peerRun = demo_end n, process = MainReturned\<rparr>"

lemma demo_peer_part:
  "server_reachable peer_after_serve p \<Longrightarrow>
     hub_run_reachable \<lparr>signalled = True, apiDown = True, peerRun = p, process = Running\<rparr>"
proof (induction rule: server_reachable.induct)
  case start
  from hub_run_reachable.step [OF hub_run_reachable.start hub_run_step.first_signal]
  have "hub_run_reachable \<lparr>signalled = True, apiDown = False, peerRun = server_start, process = Running\<rparr>"
    by (simp add: hub_run_start_def)
  from hub_run_reachable.step [OF this hub_run_step.api_returns] show ?case by simp
next
  case (step a b)
  from hub_run_reachable.step [OF step(3) hub_run_step.peer, of b] step(2) show ?case by simp
qed

lemma demo_hub_reachable: "hub_run_reachable (demo_hub_end n)"
  using hub_run_reachable.step [OF demo_peer_part [OF demo_run [of n]] hub_run_step.wait]
  by (simp add: demo_hub_end_def) (simp add: demo_end_def)

section \<open>Properties\<close>

text \<open>
  C22: The hub process returns from \<open>main\<close> only after a signal, when both servers have ended without
  an error and the peer server has no connection left that is still its own. It waits for no others: it may
  return with any number of connections, those of the protocol switches, that handlers have hijacked.
\<close>

theorem hub_clean_exit:
  assumes "hub_run_reachable a" and "process a = MainReturned"
  shows "signalled a \<and> apiDown a \<and> runMain (peerRun a) = Returned None \<and> openConns (peerRun a) = 0
    \<and> (\<exists>b. hub_run_reachable b \<and> process b = MainReturned \<and> hijackedConns (peerRun b) = n)"
  using hub_run_inv_reachable [OF assms(1)] assms(2) peer_served.clean_end [of "peerRun a"] demo_hub_reachable [of n]
  by (auto simp: hub_run_inv_def demo_hub_end_def demo_end_def)

theorem hub_clean_exit_witness: "signalled (demo_hub_end 3) \<and> openConns (peerRun (demo_hub_end 3)) = 0"
  using hub_clean_exit [OF demo_hub_reachable [of 3]] by (simp add: demo_hub_end_def)

text \<open>
  C21: Once the peer server of a hub has begun to shut down, the process ends: it takes at most five steps
  more than there are open peer connections, and as long as it runs some step is possible that is not the
  exit forced by a second signal.
\<close>

theorem hub_shutdown_ends:
  assumes "hub_run_reachable a" and "runStopper (peerRun a) \<noteq> WaitStop" and "(hub_run_step ^^ n) a b"
  shows "n \<le> openConns (peerRun a) + 5
    \<and> (process b = Running \<longrightarrow> (\<exists>c. hub_run_step b c \<and> (\<forall>k. process c \<noteq> OsExit k)))"
proof -
  have i: "hub_run_inv a" by (rule hub_run_inv_reachable [OF assms(1)])
  note b = hub_shutdown_steps [OF assms(3) i assms(2)]
  have "n \<le> openConns (peerRun a) + 5" using b hub_work_bound [OF assms(2)] by simp
  moreover have "process b = Running \<longrightarrow> (\<exists>c. hub_run_step b c \<and> (\<forall>k. process c \<noteq> OsExit k))"
    using hub_unstuck b by blast
  ultimately show ?thesis by blast
qed

theorem hub_shutdown_ends_witness:
  "\<exists>c. hub_run_step \<lparr>signalled = True, apiDown = True, peerRun = demo_end 0, process = Running\<rparr> c \<and> (\<forall>k. process c \<noteq> OsExit k)"
proof -
  let ?a = "\<lparr>signalled = True, apiDown = True, peerRun = demo_end 0, process = Running\<rparr>"
  have "runStopper (peerRun ?a) \<noteq> WaitStop" by (simp add: demo_end_def)
  moreover have "(hub_run_step ^^ 0) ?a ?a" by simp
  ultimately show ?thesis using hub_shutdown_ends [OF demo_peer_part [OF demo_run]] by fastforce
qed

end
