(* ===== verification/Rest_Client.thy ===== *)
theory Rest_Client
  imports Api_Types Complex_Main "HOL-Library.Word"
begin

text \<open>
  \<^verbatim>\<open>src/pkg/client/clientset/versioned\<close>: the clientset of the cluster API and its typed client
  \<^verbatim>\<open>clusters\<close>. Every method of the typed client builds one request with the fluent builder of
  client-go and performs it. The builder and its transport are library code: a method is modelled by
  the chain of builder calls it makes, in their order, and by what it does with the outcome; \<open>Do\<close>,
  \<open>Into\<close>, \<open>Error\<close> and \<open>Watch\<close> are parameters.
\<close>

section \<open>Requests\<close>

datatype verb = GET | POST | PUT | DELETE | PATCH string

text \<open>A \<^verbatim>\<open>time.Duration\<close> is a signed 64-bit number of nanoseconds.\<close>

type_synonym duration = "64 word"

record list_options =
  optRest :: string
  TimeoutSeconds :: "int option"
  optWatch :: bool

datatype ('m, 'o) call =
    CNamespace string
  | CResource string
  | CName string
  | CSubResource "string list"
  | CVersionedParams 'o
  | CListParams list_options
  | CTimeout duration
  | CBodyCluster "'m Cluster"
  | CBodyOptions 'o
  | CBodyData string

record ('m, 'l, 'o, 'r, 'i, 's) rest_client =
  Do :: "verb \<Rightarrow> ('m, 'o) call list \<Rightarrow> 's \<Rightarrow> 'r \<times> 's"
  IntoCluster :: "'r \<Rightarrow> 'm Cluster \<Rightarrow> 'm Cluster \<times> err option"
  IntoList :: "'r \<Rightarrow> ('m, 'l) ClusterList \<Rightarrow> ('m, 'l) ClusterList \<times> err option"
  ResultError :: "'r \<Rightarrow> err option"
  DoWatch :: "verb \<Rightarrow> ('m, 'o) call list \<Rightarrow> 's \<Rightarrow> 'i res \<times> 's"
  clusterName :: "'m \<Rightarrow> string"
  zeroMeta :: 'm
  zeroListMeta :: 'l

text \<open>\<^verbatim>\<open>time.Duration(*opts.TimeoutSeconds) * time.Second\<close>, in 64 bits.\<close>

definition time_Second :: duration where "time_Second = 1000000000"

definition list_timeout :: "list_options \<Rightarrow> duration" where
  "list_timeout opts = (case TimeoutSeconds opts of None \<Rightarrow> 0 | Some n \<Rightarrow> word_of_int n * time_Second)"

definition zeroTypeMeta :: TypeMeta where
  "zeroTypeMeta = \<lparr>Kind = [], APIVersion = []\<rparr>"

definition zeroCluster :: "('m, 'l, 'o, 'r, 'i, 's) rest_client \<Rightarrow> 'm Cluster" where
  "zeroCluster c = \<lparr>clusterTypeMeta = zeroTypeMeta, ObjectMeta = zeroMeta c, Token = []\<rparr>"

definition zeroClusterList :: "('m, 'l, 'o, 'r, 'i, 's) rest_client \<Rightarrow> ('m, 'l) ClusterList" where
  "zeroClusterList c = \<lparr>listTypeMeta = zeroTypeMeta, ListMeta = zeroListMeta c, Items = []\<rparr>"

section \<open>The typed client\<close>

record ('m, 'l, 'o, 'r, 'i, 's) clusters =
  restClient :: "('m, 'l, 'o, 'r, 'i, 's) rest_client"
  ns :: string

definition newClusters :: "('m, 'l, 'o, 'r, 'i, 's) rest_client \<Rightarrow> string \<Rightarrow> ('m, 'l, 'o, 'r, 'i, 's) clusters" where
  "newClusters rc namespace = \<lparr>restClient = rc, ns = namespace\<rparr>"

text \<open>A method that fills an object returns the object, filled or not, together with the error.\<close>

definition clusters_Get ::
    "('m, 'l, 'o, 'r, 'i, 's) clusters \<Rightarrow> string \<Rightarrow> 'o \<Rightarrow> 's \<Rightarrow> ('m Cluster \<times> err option) \<times> 's" where
  "clusters_Get c name options s =
     (let (r, s) = Do (restClient c) GET
            [CNamespace (ns c), CResource ''clusters'', CName name, CVersionedParams options] s
      in (IntoCluster (restClient c) r (zeroCluster (restClient c)), s))"

definition clusters_List ::
    "('m, 'l, 'o, 'r, 'i, 's) clusters \<Rightarrow> list_options \<Rightarrow> 's \<Rightarrow> (('m, 'l) ClusterList \<times> err option) \<times> 's" where
  "clusters_List c opts s =
     (let timeout = list_timeout opts;
          (r, s) = Do (restClient c) GET
            [CNamespace (ns c), CResource ''clusters'', CListParams opts, CTimeout timeout] s
      in (IntoList (restClient c) r (zeroClusterList (restClient c)), s))"

definition clusters_Watch ::
    "('m, 'l, 'o, 'r, 'i, 's) clusters \<Rightarrow> list_options \<Rightarrow> 's \<Rightarrow> 'i res \<times> 's" where
  "clusters_Watch c opts s =
     (let timeout = list_timeout opts;
          opts = opts\<lparr>optWatch := True\<rparr>
      in DoWatch (restClient c) GET
           [CNamespace (ns c), CResource ''clusters'', CListParams opts, CTimeout timeout] s)"

definition clusters_Create ::
    "('m, 'l, 'o, 'r, 'i, 's) clusters \<Rightarrow> 'm Cluster \<Rightarrow> 'o \<Rightarrow> 's \<Rightarrow> ('m Cluster \<times> err option) \<times> 's" where
  "clusters_Create c cluster opts s =
     (let (r, s) = Do (restClient c) POST
            [CNamespace (ns c), CResource ''clusters'', CVersionedParams opts, CBodyCluster cluster] s
      in (IntoCluster (restClient c) r (zeroCluster (restClient c)), s))"

definition clusters_Update ::
    "('m, 'l, 'o, 'r, 'i, 's) clusters \<Rightarrow> 'm Cluster \<Rightarrow> 'o \<Rightarrow> 's \<Rightarrow> ('m Cluster \<times> err option) \<times> 's" where
  "clusters_Update c cluster opts s =
     (let (r, s) = Do (restClient c) PUT
            [CNamespace (ns c), CResource ''clusters'', CName (clusterName (restClient c) (ObjectMeta cluster)),
             CVersionedParams opts, CBodyCluster cluster] s
      in (IntoCluster (restClient c) r (zeroCluster (restClient c)), s))"

definition clusters_Delete ::
    "('m, 'l, 'o, 'r, 'i, 's) clusters \<Rightarrow> string \<Rightarrow> 'o \<Rightarrow> 's \<Rightarrow> err option \<times> 's" where
  "clusters_Delete c name opts s =
     (let (r, s) = Do (restClient c) DELETE
            [CNamespace (ns c), CResource ''clusters'', CName name, CBodyOptions opts] s
      in (ResultError (restClient c) r, s))"

definition clusters_DeleteCollection ::
    "('m, 'l, 'o, 'r, 'i, 's) clusters \<Rightarrow> 'o \<Rightarrow> list_options \<Rightarrow> 's \<Rightarrow> err option \<times> 's" where
  "clusters_DeleteCollection c opts listOpts s =
     (let timeout = list_timeout listOpts;
          (r, s) = Do (restClient c) DELETE
            [CNamespace (ns c), CResource ''clusters'', CListParams listOpts, CTimeout timeout, CBodyOptions opts] s
      in (ResultError (restClient c) r, s))"

definition clusters_Patch ::
    "('m, 'l, 'o, 'r, 'i, 's) clusters \<Rightarrow> string \<Rightarrow> string \<Rightarrow> string \<Rightarrow> 'o \<Rightarrow> string list \<Rightarrow> 's \<Rightarrow> ('m Cluster \<times> err option) \<times> 's" where
  "clusters_Patch c name pt data opts subresources s =
     (let (r, s) = Do (restClient c) (PATCH pt)
            [CNamespace (ns c), CResource ''clusters'', CName name, CSubResource subresources,
             CVersionedParams opts, CBodyData data] s
      in (IntoCluster (restClient c) r (zeroCluster (restClient c)), s))"

section \<open>The clientset\<close>

text \<open>
  \<^verbatim>\<open>KopilotV1alpha1Client\<close> holds a REST client; a nil receiver answers a nil interface. Of the
  configuration the code looks at a few fields; \<open>cfgRest\<close> is the rest of it. \<open>QPS\<close> is a \<^verbatim>\<open>float32\<close>, and
  every finite one is a rational number.
\<close>

record ('rl, 'g) rest_Config =
  cfgRest :: 'g
  cfgGroupVersion :: "GroupVersion option"
  APIPath :: string
  NegotiatedSerializer :: string
  UserAgent :: string
  RateLimiter :: "'rl option"
  QPS :: rat
  Burst :: int

record ('rl, 'g, 'rc, 'd) rest_lib =
  RESTClientFor :: "('rl, 'g) rest_Config \<Rightarrow> 'rc res"
  DefaultKubernetesUserAgent :: string
  CodecsWithoutConversion :: string
  NewTokenBucketRateLimiter :: "rat \<Rightarrow> int \<Rightarrow> 'rl"
  NewDiscoveryClientForConfig :: "('rl, 'g) rest_Config \<Rightarrow> 'd res"
  NewDiscoveryClientForConfigOrDie :: "('rl, 'g) rest_Config \<Rightarrow> 'd option"
  NewDiscoveryClient :: "'rc \<Rightarrow> 'd"

record 'rc KopilotV1alpha1Client =
  v1alpha1RestClient :: 'rc

record ('rc, 'd) Clientset =
  DiscoveryClient :: 'd
  kopilotV1alpha1 :: "'rc KopilotV1alpha1Client"

definition setConfigDefaults :: "('rl, 'g, 'rc, 'd) rest_lib \<Rightarrow> ('rl, 'g) rest_Config \<Rightarrow> err option \<times> ('rl, 'g) rest_Config" where
  "setConfigDefaults lib config =
     (let config = config\<lparr>cfgGroupVersion := Some SchemeGroupVersion, APIPath := ''/apis'',
                          NegotiatedSerializer := CodecsWithoutConversion lib\<rparr>
      in (None, if UserAgent config = [] then config\<lparr>UserAgent := DefaultKubernetesUserAgent lib\<rparr> else config))"

definition v1alpha1_NewForConfig :: "('rl, 'g, 'rc, 'd) rest_lib \<Rightarrow> ('rl, 'g) rest_Config \<Rightarrow> 'rc KopilotV1alpha1Client res" where
  "v1alpha1_NewForConfig lib c =
     (case setConfigDefaults lib c of
        (Some err, _) \<Rightarrow> Inl err
      | (None, config) \<Rightarrow>
          (case RESTClientFor lib config of
             Inl err \<Rightarrow> Inl err
           | Inr client \<Rightarrow> Inr \<lparr>v1alpha1RestClient = client\<rparr>))"

text \<open>A panic is \<open>None\<close>.\<close>

definition v1alpha1_NewForConfigOrDie :: "('rl, 'g, 'rc, 'd) rest_lib \<Rightarrow> ('rl, 'g) rest_Config \<Rightarrow> 'rc KopilotV1alpha1Client option" where
  "v1alpha1_NewForConfigOrDie lib c = (case v1alpha1_NewForConfig lib c of Inl err \<Rightarrow> None | Inr client \<Rightarrow> Some client)"

definition v1alpha1_New :: "'rc \<Rightarrow> 'rc KopilotV1alpha1Client" where
  "v1alpha1_New c = \<lparr>v1alpha1RestClient = c\<rparr>"

definition RESTClient :: "'rc KopilotV1alpha1Client option \<Rightarrow> 'rc option" where
  "RESTClient c = (case c of None \<Rightarrow> None | Some c \<Rightarrow> Some (v1alpha1RestClient c))"

definition versioned_NewForConfig :: "('rl, 'g, 'rc, 'd) rest_lib \<Rightarrow> ('rl, 'g) rest_Config \<Rightarrow> ('rc, 'd) Clientset res" where
  "versioned_NewForConfig lib c =
     (if RateLimiter c = None \<and> 0 < QPS c \<and> Burst c \<le> 0
      then Inl (Errorf ''burst is required to be greater than 0 when RateLimiter is not set and QPS is set to greater than 0'' [])
      else let configShallowCopy =
                 (if RateLimiter c = None \<and> 0 < QPS c
                  then c\<lparr>RateLimiter := Some (NewTokenBucketRateLimiter lib (QPS c) (Burst c))\<rparr> else c)
           in (case v1alpha1_NewForConfig lib configShallowCopy of
                 Inl err \<Rightarrow> Inl err
               | Inr k \<Rightarrow>
                   (case NewDiscoveryClientForConfig lib configShallowCopy of
                      Inl err \<Rightarrow> Inl err
                    | Inr d \<Rightarrow> Inr \<lparr>DiscoveryClient = d, kopilotV1alpha1 = k\<rparr>)))"

definition KopilotV1alpha1 :: "('rc, 'd) Clientset \<Rightarrow> 'rc KopilotV1alpha1Client" where
  "KopilotV1alpha1 c = kopilotV1alpha1 c"

definition KopilotV1alpha1_Clusters ::
    "('m, 'l, 'o, 'r, 'i, 's) rest_client KopilotV1alpha1Client \<Rightarrow> string \<Rightarrow> ('m, 'l, 'o, 'r, 'i, 's) clusters" where
  "KopilotV1alpha1_Clusters c namespace = newClusters (v1alpha1RestClient c) namespace"

text \<open>
  What the handlers of the hub call: \<^verbatim>\<open>client.KopilotV1alpha1().Clusters(ns).Get(ctx, name, GetOptions{})\<close>,
  of which they use the object only when there is no error.
\<close>

definition client_get ::
    "'o \<Rightarrow> (('m, 'l, 'o, 'r, 'i, 's) rest_client, 'd) Clientset \<Rightarrow> string \<Rightarrow> string \<Rightarrow> 's \<Rightarrow> 'm Cluster res \<times> 's" where
  "client_get noOptions client namespace name s =
     (case clusters_Get (KopilotV1alpha1_Clusters (KopilotV1alpha1 client) namespace) name noOptions s of
        ((cluster, Some err), s) \<Rightarrow> (Inl err, s)
      | ((cluster, None), s) \<Rightarrow> (Inr cluster, s))"

section \<open>Time-outs\<close>

text \<open>The product is exact as long as it fits; one second more and it is negative.\<close>

lemma sint_duration: "sint (word_of_int n * time_Second :: duration) = signed_take_bit 63 (n * 1000000000)"
proof -
  have "word_of_int n * time_Second = (word_of_int (n * 1000000000) :: duration)"
    by (simp add: time_Second_def)
  then show ?thesis by (simp only: sint_sbintrunc') simp
qed

lemma duration_exact:
  "0 \<le> n \<Longrightarrow> n \<le> 9223372036 \<Longrightarrow> sint (word_of_int n * time_Second :: duration) = n * 1000000000"
  unfolding sint_duration by (intro signed_take_bit_int_eq_self) simp_all

lemma duration_wraps:
  assumes "9223372036 < n" and "n \<le> 18446744073"
  shows "sint (word_of_int n * time_Second :: duration) = n * 1000000000 - 2 ^ 64"
proof -
  have "(n * 1000000000 + 2 ^ 63) mod 2 ^ 64 = (n * 1000000000 - 2 ^ 63 + 2 ^ 64) mod (2 ^ 64 :: int)"
    by (simp add: add.commute)
  also have "\<dots> = n * 1000000000 - 2 ^ 63" using assms by (subst mod_add_self2) (simp add: mod_pos_pos_trivial)
  finally show ?thesis
    unfolding sint_duration signed_take_bit_eq_take_bit_shift take_bit_eq_mod by simp
qed

lemma duration_mod: "sint (word_of_int n * time_Second :: duration) mod 2 ^ 64 = n * 1000000000 mod 2 ^ 64"
  unfolding sint_duration take_bit_eq_mod [symmetric] by (simp add: take_bit_signed_take_bit)

lemma duration_less: "sint (t :: duration) < 2 ^ 63"
  using sint_lt [of t] by simp

section \<open>Properties\<close>

text \<open>
  The time-out of the options is what the server is asked for: \<open>List\<close>, \<open>Watch\<close> and
  \<open>DeleteCollection\<close> set the request's time-out to that many seconds, exactly, for every value up to
  9223372036. \<open>Watch\<close> differs from \<open>List\<close> in asking to watch.
\<close>

lemma client_timeouts:
  assumes "TimeoutSeconds opts = Some n" and "0 \<le> n" and "n \<le> 9223372036"
  shows "\<exists>t. sint t = n * 1000000000
    \<and> clusters_List c opts s =
        (let (r, s') = Do (restClient c) GET [CNamespace (ns c), CResource ''clusters'', CListParams opts, CTimeout t] s
         in (IntoList (restClient c) r (zeroClusterList (restClient c)), s'))
    \<and> clusters_Watch c opts s = DoWatch (restClient c) GET
        [CNamespace (ns c), CResource ''clusters'', CListParams (opts\<lparr>optWatch := True\<rparr>), CTimeout t] s
    \<and> clusters_DeleteCollection c delOpts opts s =
        (let (r, s') = Do (restClient c) DELETE
           [CNamespace (ns c), CResource ''clusters'', CListParams opts, CTimeout t, CBodyOptions delOpts] s
         in (ResultError (restClient c) r, s'))"
  using assms duration_exact [OF assms(2,3)]
  by (intro exI [of _ "list_timeout opts"])
     (simp add: clusters_List_def clusters_Watch_def clusters_DeleteCollection_def Let_def list_timeout_def)

definition demo_opts :: list_options where
  "demo_opts = \<lparr>optRest = [], TimeoutSeconds = Some 30, optWatch = False\<rparr>"

definition demo_rest :: "(unit, unit, unit, nat, string, nat) rest_client" where
  "demo_rest = \<lparr>Do = (\<lambda>v cs s. (length cs, Suc s)), IntoCluster = (\<lambda>r cl. (cl, None)), IntoList = (\<lambda>r l. (l, None)),
     ResultError = (\<lambda>_. None),
     DoWatch = (\<lambda>v cs s. (Inr (if list_ex (\<lambda>c. c = CTimeout 30000000000) cs then ''30s'' else []), Suc s)),
     clusterName = (\<lambda>_. ''sample''), zeroMeta = (), zeroListMeta = ()\<rparr>"

text \<open>
  C40: The time-out of a watch request is right up to 9223372036 seconds only. It is always the number of seconds
  in nanoseconds modulo \<open>2 ^ 64\<close>: exact up to there, wrong for every larger number, and negative from 9223372037 to
  18446744073 seconds, although the options ask for a long wait.
\<close>

theorem timeout_overflows:
  assumes "TimeoutSeconds opts = Some n" and "0 \<le> n"
  shows "\<exists>t. clusters_Watch c opts s = DoWatch (restClient c) GET
        [CNamespace (ns c), CResource ''clusters'', CListParams (opts\<lparr>optWatch := True\<rparr>), CTimeout t] s
    \<and> sint t mod 2 ^ 64 = n * 1000000000 mod 2 ^ 64
    \<and> (sint t = n * 1000000000 \<longleftrightarrow> n \<le> 9223372036)
    \<and> (9223372036 < n \<and> n \<le> 18446744073 \<longrightarrow> sint t = n * 1000000000 - 2 ^ 64 \<and> sint t < 0)"
proof (intro exI [of _ "list_timeout opts"] conjI)
  have t: "list_timeout opts = word_of_int n * time_Second" using assms(1) by (simp add: list_timeout_def)
  show "clusters_Watch c opts s = DoWatch (restClient c) GET
      [CNamespace (ns c), CResource ''clusters'', CListParams (opts\<lparr>optWatch := True\<rparr>), CTimeout (list_timeout opts)] s"
    by (simp add: clusters_Watch_def Let_def)
  show "sint (list_timeout opts) mod 2 ^ 64 = n * 1000000000 mod 2 ^ 64" unfolding t by (rule duration_mod)
  show "sint (list_timeout opts) = n * 1000000000 \<longleftrightarrow> n \<le> 9223372036"
    using duration_exact [OF assms(2)] duration_less [of "list_timeout opts"] unfolding t by auto
  show "9223372036 < n \<and> n \<le> 18446744073 \<longrightarrow> sint (list_timeout opts) = n * 1000000000 - 2 ^ 64 \<and> sint (list_timeout opts) < 0"
    using duration_wraps [of n] unfolding t by auto
qed

theorem timeout_overflows_witness:
  "\<exists>t. sint t < 0 \<and> clusters_Watch (newClusters demo_rest ''default'') (demo_opts\<lparr>TimeoutSeconds := Some 10000000000\<rparr>) 0 =
     DoWatch demo_rest GET [CNamespace ''default'', CResource ''clusters'',
       CListParams (demo_opts\<lparr>TimeoutSeconds := Some 10000000000, optWatch := True\<rparr>), CTimeout t] 0"
  using timeout_overflows [where c = "newClusters demo_rest ''default''" and s = 0
      and opts = "demo_opts\<lparr>TimeoutSeconds := Some 10000000000\<rparr>" and n = 10000000000]
  by (auto simp: newClusters_def)

text \<open>
  The clientset of a configuration talks to the API group of the cluster resource. When
  \<open>NewForConfig\<close> succeeds, the REST client was made for group, version and path of the group, with a
  user agent whenever a default one exists, and both clients share one configuration: the rate
  limiter given, or one of the configured rate and burst, which is then positive.
\<close>

lemma clientset_config:
  assumes "versioned_NewForConfig lib c = Inr cs"
  shows "\<exists>cfg shared. RESTClientFor lib cfg = Inr (v1alpha1RestClient (KopilotV1alpha1 cs))
    \<and> NewDiscoveryClientForConfig lib shared = Inr (DiscoveryClient cs)
    \<and> cfgGroupVersion cfg = Some SchemeGroupVersion \<and> APIPath cfg = ''/apis''
    \<and> (DefaultKubernetesUserAgent lib \<noteq> [] \<longrightarrow> UserAgent cfg \<noteq> [])
    \<and> RateLimiter cfg = RateLimiter shared
    \<and> RateLimiter shared = (case RateLimiter c of Some rl \<Rightarrow> Some rl
        | None \<Rightarrow> if 0 < QPS c then Some (NewTokenBucketRateLimiter lib (QPS c) (Burst c)) else None)
    \<and> (RateLimiter c = None \<and> 0 < QPS c \<longrightarrow> 0 < Burst c)"
proof -
  let ?shared = "if RateLimiter c = None \<and> 0 < QPS c
    then c\<lparr>RateLimiter := Some (NewTokenBucketRateLimiter lib (QPS c) (Burst c))\<rparr> else c"
  let ?cfg = "snd (setConfigDefaults lib ?shared)"
  have b: "RateLimiter c = None \<and> 0 < QPS c \<longrightarrow> 0 < Burst c"
    using assms by (auto simp: versioned_NewForConfig_def split: if_splits)
  with assms have "RESTClientFor lib ?cfg = Inr (v1alpha1RestClient (KopilotV1alpha1 cs))"
    and "NewDiscoveryClientForConfig lib ?shared = Inr (DiscoveryClient cs)"
    by (auto simp: versioned_NewForConfig_def v1alpha1_NewForConfig_def setConfigDefaults_def KopilotV1alpha1_def Let_def
        split: if_splits sum.splits)
  moreover have "cfgGroupVersion ?cfg = Some SchemeGroupVersion" "APIPath ?cfg = ''/apis''"
    "DefaultKubernetesUserAgent lib \<noteq> [] \<longrightarrow> UserAgent ?cfg \<noteq> []" "RateLimiter ?cfg = RateLimiter ?shared"
    by (simp_all add: setConfigDefaults_def Let_def)
  moreover have "RateLimiter ?shared = (case RateLimiter c of Some rl \<Rightarrow> Some rl
        | None \<Rightarrow> if 0 < QPS c then Some (NewTokenBucketRateLimiter lib (QPS c) (Burst c)) else None)"
    by (simp split: option.split)
  ultimately show ?thesis using b by blast
qed

end
