(* ===== verification/Clientset.thy ===== *)
theory Clientset
  imports Rest_Client
begin

text \<open>
  \<^verbatim>\<open>src/pkg/client/clientset/versioned/clientset.go\<close> and the Go interfaces of the clientset: code that
  uses the client works with values of \<open>ClusterInterface\<close>, \<open>KopilotV1alpha1Interface\<close> and
  \<open>versioned_Interface\<close>, records of the methods, and does not see whether the clientset behind them is
  the one of \<open>Rest_Client\<close> or the fake one.

  A method is a function on the state; \<open>None\<close> is a panic. A pointer that may be nil is an option.
\<close>

section \<open>The interfaces\<close>

type_synonym ('a, 's) go_call = "'s \<Rightarrow> ('a \<times> 's) option"
type_synonym 'a pointer_result = "'a option \<times> err option"

record ('m, 'l, 'o, 'i, 's) ClusterInterface =
  doCreate :: "'m Cluster \<Rightarrow> 'o \<Rightarrow> ('m Cluster pointer_result, 's) go_call"
  doUpdate :: "'m Cluster \<Rightarrow> 'o \<Rightarrow> ('m Cluster pointer_result, 's) go_call"
  doDelete :: "string \<Rightarrow> 'o \<Rightarrow> (err option, 's) go_call"
  doDeleteCollection :: "'o \<Rightarrow> list_options \<Rightarrow> (err option, 's) go_call"
  doGet :: "string \<Rightarrow> 'o \<Rightarrow> ('m Cluster pointer_result, 's) go_call"
  doList :: "list_options \<Rightarrow> (('m, 'l) ClusterList pointer_result, 's) go_call"
  doWatch :: "list_options \<Rightarrow> ('i pointer_result, 's) go_call"
  doPatch :: "string \<Rightarrow> string \<Rightarrow> string \<Rightarrow> 'o \<Rightarrow> string list \<Rightarrow> ('m Cluster pointer_result, 's) go_call"

text \<open>An interface value is nil, or holds a pointer, which may be nil itself.\<close>

datatype 'a interface_value = NilInterface | NilPointer | Holds 'a

record ('m, 'l, 'o, 'i, 's) ClustersGetter =
  ifClusters :: "string \<Rightarrow> ('m, 'l, 'o, 'i, 's) ClusterInterface"

record ('rc, 'm, 'l, 'o, 'i, 's) KopilotV1alpha1Interface = "('m, 'l, 'o, 'i, 's) ClustersGetter" +
  ifRESTClient :: "'rc interface_value"

record ('d, 'rc, 'm, 'l, 'o, 'i, 's) versioned_Interface =
  ifDiscovery :: "'d interface_value"
  ifKopilotV1alpha1 :: "('rc, 'm, 'l, 'o, 'i, 's) KopilotV1alpha1Interface"

section \<open>The clientset behind them\<close>

text \<open>The methods of the typed client return a pointer to the object they filled, also beside an error.\<close>

definition filled :: "('a \<times> err option) \<times> 's \<Rightarrow> ('a pointer_result \<times> 's) option" where
  "filled r = (let ((x, err), s) = r in Some ((Some x, err), s))"

definition watch_pointer :: "'i res \<times> 's \<Rightarrow> ('i pointer_result \<times> 's) option" where
  "watch_pointer r = (case r of (Inl err, s) \<Rightarrow> Some ((None, Some err), s) | (Inr w, s) \<Rightarrow> Some ((Some w, None), s))"

definition clusters_Interface :: "('m, 'l, 'o, 'r, 'i, 's) clusters \<Rightarrow> ('m, 'l, 'o, 'i, 's) ClusterInterface" where
  "clusters_Interface c =
     \<lparr>doCreate = (\<lambda>cluster opts s. filled (clusters_Create c cluster opts s)),
      doUpdate = (\<lambda>cluster opts s. filled (clusters_Update c cluster opts s)),
      doDelete = (\<lambda>name opts s. Some (clusters_Delete c name opts s)),
      doDeleteCollection = (\<lambda>opts listOpts s. Some (clusters_DeleteCollection c opts listOpts s)),
      doGet = (\<lambda>name opts s. filled (clusters_Get c name opts s)),
      doList = (\<lambda>opts s. filled (clusters_List c opts s)),
      doWatch = (\<lambda>opts s. watch_pointer (clusters_Watch c opts s)),
      doPatch = (\<lambda>name pt data opts subresources s. filled (clusters_Patch c name pt data opts subresources s))\<rparr>"

definition KopilotV1alpha1_Interface ::
    "('m, 'l, 'o, 'r, 'i, 's) rest_client KopilotV1alpha1Client \<Rightarrow>
       (('m, 'l, 'o, 'r, 'i, 's) rest_client, 'm, 'l, 'o, 'i, 's) KopilotV1alpha1Interface" where
  "KopilotV1alpha1_Interface c =
     \<lparr>ifClusters = (\<lambda>namespace. clusters_Interface (KopilotV1alpha1_Clusters c namespace)),
      ifRESTClient = (case RESTClient (Some c) of None \<Rightarrow> NilInterface | Some rc \<Rightarrow> Holds rc)\<rparr>"

text \<open>\<open>Discovery\<close> of a nil clientset is a nil interface.\<close>

definition Clientset_Discovery :: "('rc, 'd) Clientset option \<Rightarrow> 'd interface_value" where
  "Clientset_Discovery c = (case c of None \<Rightarrow> NilInterface | Some c \<Rightarrow> Holds (DiscoveryClient c))"

definition Clientset_Interface ::
    "(('m, 'l, 'o, 'r, 'i, 's) rest_client, 'd) Clientset \<Rightarrow>
       ('d, ('m, 'l, 'o, 'r, 'i, 's) rest_client, 'm, 'l, 'o, 'i, 's) versioned_Interface" where
  "Clientset_Interface c =
     \<lparr>ifDiscovery = Clientset_Discovery (Some c), ifKopilotV1alpha1 = KopilotV1alpha1_Interface (KopilotV1alpha1 c)\<rparr>"

section \<open>The other constructors\<close>

definition versioned_NewForConfigOrDie :: "('rl, 'g, 'rc, 'd) rest_lib \<Rightarrow> ('rl, 'g) rest_Config \<Rightarrow> ('rc, 'd) Clientset option" where
  "versioned_NewForConfigOrDie lib c =
     (case v1alpha1_NewForConfigOrDie lib c of
        None \<Rightarrow> None
      | Some k \<Rightarrow>
          (case NewDiscoveryClientForConfigOrDie lib c of
             None \<Rightarrow> None
           | Some d \<Rightarrow> Some \<lparr>DiscoveryClient = d, kopilotV1alpha1 = k\<rparr>))"

definition versioned_New :: "('rl, 'g, 'rc, 'd) rest_lib \<Rightarrow> 'rc \<Rightarrow> ('rc, 'd) Clientset" where
  "versioned_New lib c = \<lparr>DiscoveryClient = NewDiscoveryClient lib c, kopilotV1alpha1 = v1alpha1_New c\<rparr>"

section \<open>Properties\<close>

text \<open>Both clients of a clientset made by \<open>New\<close> use the one REST client.\<close>

lemma versioned_New_shares:
  "ifRESTClient (KopilotV1alpha1_Interface (KopilotV1alpha1 (versioned_New lib rc))) = Holds rc"
  by (simp add: versioned_New_def v1alpha1_New_def KopilotV1alpha1_Interface_def KopilotV1alpha1_def RESTClient_def)

text \<open>
  \<open>NewForConfigOrDie\<close> is not \<open>NewForConfig\<close> with a panic for the error. A configuration with a rate
  but no burst is an error for \<open>NewForConfig\<close>; \<open>NewForConfigOrDie\<close> skips the check and hands the
  configuration as it is, without a rate limiter for the two clients to share, to constructors that may
  well accept it.
\<close>

lemma NewForConfigOrDie_unchecked:
  assumes "RateLimiter c = None" and "0 < QPS c" and "Burst c \<le> 0"
    and "RESTClientFor lib (snd (setConfigDefaults lib c)) = Inr rc" and "NewDiscoveryClientForConfigOrDie lib c = Some d"
  shows "(\<exists>e. versioned_NewForConfig lib c = Inl e)
    \<and> (\<exists>cs. versioned_NewForConfigOrDie lib c = Some cs \<and> v1alpha1RestClient (KopilotV1alpha1 cs) = rc
         \<and> Clientset_Discovery (Some cs) = Holds d)
    \<and> RateLimiter (snd (setConfigDefaults lib c)) = None"
  using assms
  by (simp add: versioned_NewForConfig_def versioned_NewForConfigOrDie_def v1alpha1_NewForConfigOrDie_def
      v1alpha1_NewForConfig_def KopilotV1alpha1_def Clientset_Discovery_def setConfigDefaults_def Let_def)

text \<open>A library that makes up the missing burst, as client-go does.\<close>

definition demo_lib :: "(nat, unit, nat, nat) rest_lib" where
  "demo_lib = \<lparr>RESTClientFor = (\<lambda>c. Inr (if Burst c = 0 then 10 else nat (Burst c))), DefaultKubernetesUserAgent = ''hub'',
     CodecsWithoutConversion = ''json'', NewTokenBucketRateLimiter = (\<lambda>q b. nat b),
     NewDiscoveryClientForConfig = (\<lambda>c. Inr 1), NewDiscoveryClientForConfigOrDie = (\<lambda>c. Some 1),
     NewDiscoveryClient = (\<lambda>rc. rc)\<rparr>"

definition demo_cfg :: "(nat, unit) rest_Config" where
  "demo_cfg = \<lparr>cfgRest = (), cfgGroupVersion = None, APIPath = [], NegotiatedSerializer = [], UserAgent = [],
     RateLimiter = None, QPS = 5, Burst = 0\<rparr>"

end
