(* ===== verification/Fake_Client.thy ===== *)
theory Fake_Client
  imports Clientset
begin

text \<open>
  \<^verbatim>\<open>src/pkg/client/clientset/versioned/fake\<close> and \<^verbatim>\<open>typed/kopilot/v1alpha1/fake\<close>: the clientset tests use
  instead of a connection to an API server. A method of the fake typed client makes an action and gives it
  to \<^verbatim>\<open>testing.Fake\<close> of client-go, which finds a reactor for it. That type, the object tracker and label
  selectors are parameters; actions are data, made by the constructors of client-go's \<^verbatim>\<open>testing\<close> package.
\<close>

section \<open>Actions and objects\<close>

datatype 'm action =
    GetAction GroupVersionResource string string
  | ListAction GroupVersionResource GroupVersionKind string list_options
  | WatchAction GroupVersionResource string list_options
  | CreateAction GroupVersionResource string "'m Cluster"
  | UpdateAction GroupVersionResource string "'m Cluster"
  | DeleteAction GroupVersionResource string string
  | DeleteCollectionAction GroupVersionResource string list_options
  | PatchSubresourceAction GroupVersionResource string string string string "string list"

fun GetResource :: "'m action \<Rightarrow> GroupVersionResource" where
  "GetResource (GetAction r _ _) = r"
| "GetResource (ListAction r _ _ _) = r"
| "GetResource (WatchAction r _ _) = r"
| "GetResource (CreateAction r _ _) = r"
| "GetResource (UpdateAction r _ _) = r"
| "GetResource (DeleteAction r _ _) = r"
| "GetResource (DeleteCollectionAction r _ _) = r"
| "GetResource (PatchSubresourceAction r _ _ _ _ _) = r"

fun GetNamespace :: "'m action \<Rightarrow> string" where
  "GetNamespace (GetAction _ n _) = n"
| "GetNamespace (ListAction _ _ n _) = n"
| "GetNamespace (WatchAction _ n _) = n"
| "GetNamespace (CreateAction _ n _) = n"
| "GetNamespace (UpdateAction _ n _) = n"
| "GetNamespace (DeleteAction _ n _) = n"
| "GetNamespace (DeleteCollectionAction _ n _) = n"
| "GetNamespace (PatchSubresourceAction _ n _ _ _ _) = n"

text \<open>What a \<^verbatim>\<open>runtime.Object\<close> points to; asserting the wrong type panics.\<close>

datatype ('m, 'l) object = ObjCluster "'m Cluster" | ObjClusterList "('m, 'l) ClusterList" | ObjOther string

fun as_Cluster :: "('m, 'l) object \<Rightarrow> 'm Cluster option" where
  "as_Cluster (ObjCluster c) = Some c"
| "as_Cluster _ = None"

fun as_ClusterList :: "('m, 'l) object \<Rightarrow> ('m, 'l) ClusterList option" where
  "as_ClusterList (ObjClusterList l) = Some l"
| "as_ClusterList _ = None"

text \<open>A reaction answers whether it has handled the action, and with what.\<close>

type_synonym ('a, 'm, 's) reaction = "'m action \<Rightarrow> 's \<Rightarrow> (bool \<times> 'a option \<times> err option) \<times> 's"

record ('f, 't, 'm, 'l, 'i, 'sel, 's) testing_lib =
  emptyFake :: 'f
  AddReactor :: "string \<Rightarrow> string \<Rightarrow> (('m, 'l) object, 'm, 's) reaction \<Rightarrow> 'f \<Rightarrow> 'f"
  AddWatchReactor :: "string \<Rightarrow> ('i, 'm, 's) reaction \<Rightarrow> 'f \<Rightarrow> 'f"
  Invokes :: "'f \<Rightarrow> 'm action \<Rightarrow> ('m, 'l) object \<Rightarrow> 's \<Rightarrow> ('m, 'l) object pointer_result \<times> 's"
  InvokesWatch :: "'f \<Rightarrow> 'm action \<Rightarrow> 's \<Rightarrow> 'i pointer_result \<times> 's"
  NewObjectTracker :: "'s \<Rightarrow> 't \<times> 's"
  trackerAdd :: "'t \<Rightarrow> ('m, 'l) object \<Rightarrow> 's \<Rightarrow> err option \<times> 's"
  trackerWatch :: "'t \<Rightarrow> GroupVersionResource \<Rightarrow> string \<Rightarrow> 's \<Rightarrow> 'i pointer_result \<times> 's"
  ObjectReaction :: "'t \<Rightarrow> (('m, 'l) object, 'm, 's) reaction"
  ExtractLabel :: "list_options \<Rightarrow> 'sel option"
  Everything :: 'sel
  Matches :: "'sel \<Rightarrow> 'm \<Rightarrow> bool"
  noMeta :: 'm
  noListMeta :: 'l

definition emptyCluster :: "('f, 't, 'm, 'l, 'i, 'sel, 's) testing_lib \<Rightarrow> ('m, 'l) object" where
  "emptyCluster lib = ObjCluster \<lparr>clusterTypeMeta = zeroTypeMeta, ObjectMeta = noMeta lib, Token = []\<rparr>"

definition emptyClusterList :: "('f, 't, 'm, 'l, 'i, 'sel, 's) testing_lib \<Rightarrow> ('m, 'l) object" where
  "emptyClusterList lib = ObjClusterList \<lparr>listTypeMeta = zeroTypeMeta, ListMeta = noListMeta lib, Items = []\<rparr>"

section \<open>The fake typed client\<close>

record 'f FakeKopilotV1alpha1 =
  kopilotFake :: 'f

record 'f FakeClusters =
  clustersFake :: "'f FakeKopilotV1alpha1"
  fakeNs :: string

definition clustersResource :: GroupVersionResource where
  "clustersResource = \<lparr>gvrGroup = ''kopilot.smartx.com'', gvrVersion = ''v1alpha1'', gvrResource = ''clusters''\<rparr>"

definition clustersKind :: GroupVersionKind where
  "clustersKind = \<lparr>gvkGroup = ''kopilot.smartx.com'', gvkVersion = ''v1alpha1'', gvkKind = ''Cluster''\<rparr>"

text \<open>How the methods that answer a cluster end: a nil object beside the error, or the asserted one.\<close>

definition return_Cluster :: "('m, 'l) object pointer_result \<times> 's \<Rightarrow> ('m Cluster pointer_result \<times> 's) option" where
  "return_Cluster r =
     (let ((obj, err), s) = r in
      case obj of
        None \<Rightarrow> Some ((None, err), s)
      | Some obj \<Rightarrow> (case as_Cluster obj of None \<Rightarrow> None | Some c \<Rightarrow> Some ((Some c, err), s)))"

definition FakeClusters_Get ::
    "('f, 't, 'm, 'l, 'i, 'sel, 's) testing_lib \<Rightarrow> 'f FakeClusters \<Rightarrow> string \<Rightarrow> 'o \<Rightarrow> ('m Cluster pointer_result, 's) go_call" where
  "FakeClusters_Get lib c name options s =
     return_Cluster (Invokes lib (kopilotFake (clustersFake c)) (GetAction clustersResource (fakeNs c) name) (emptyCluster lib) s)"

text \<open>The loop over the items of the answer.\<close>

fun select_items :: "('m \<Rightarrow> bool) \<Rightarrow> 'm Cluster list \<Rightarrow> 'm Cluster list \<Rightarrow> 'm Cluster list" where
  "select_items matches [] items = items"
| "select_items matches (item # rest) items =
     select_items matches rest (if matches (ObjectMeta item) then items @ [item] else items)"

definition FakeClusters_List ::
    "('f, 't, 'm, 'l, 'i, 'sel, 's) testing_lib \<Rightarrow> 'f FakeClusters \<Rightarrow> list_options \<Rightarrow> (('m, 'l) ClusterList pointer_result, 's) go_call" where
  "FakeClusters_List lib c opts s =
     (case Invokes lib (kopilotFake (clustersFake c)) (ListAction clustersResource clustersKind (fakeNs c) opts)
             (emptyClusterList lib) s of
        ((None, err), s) \<Rightarrow> Some ((None, err), s)
      | ((Some obj, err), s) \<Rightarrow>
          let label = (case ExtractLabel lib opts of None \<Rightarrow> Everything lib | Some l \<Rightarrow> l)
          in (case as_ClusterList obj of
                None \<Rightarrow> None
              | Some l \<Rightarrow>
                  let list = \<lparr>listTypeMeta = zeroTypeMeta, ListMeta = ListMeta l, Items = []\<rparr>;
                      list = list\<lparr>Items := select_items (Matches lib label) (Items l) (Items list)\<rparr>
                  in Some ((Some list, err), s)))"

definition FakeClusters_Watch ::
    "('f, 't, 'm, 'l, 'i, 'sel, 's) testing_lib \<Rightarrow> 'f FakeClusters \<Rightarrow> list_options \<Rightarrow> ('i pointer_result, 's) go_call" where
  "FakeClusters_Watch lib c opts s =
     Some (InvokesWatch lib (kopilotFake (clustersFake c)) (WatchAction clustersResource (fakeNs c) opts) s)"

definition FakeClusters_Create ::
    "('f, 't, 'm, 'l, 'i, 'sel, 's) testing_lib \<Rightarrow> 'f FakeClusters \<Rightarrow> 'm Cluster \<Rightarrow> 'o \<Rightarrow> ('m Cluster pointer_result, 's) go_call" where
  "FakeClusters_Create lib c cluster opts s =
     return_Cluster (Invokes lib (kopilotFake (clustersFake c)) (CreateAction clustersResource (fakeNs c) cluster) (emptyCluster lib) s)"

definition FakeClusters_Update ::
    "('f, 't, 'm, 'l, 'i, 'sel, 's) testing_lib \<Rightarrow> 'f FakeClusters \<Rightarrow> 'm Cluster \<Rightarrow> 'o \<Rightarrow> ('m Cluster pointer_result, 's) go_call" where
  "FakeClusters_Update lib c cluster opts s =
     return_Cluster (Invokes lib (kopilotFake (clustersFake c)) (UpdateAction clustersResource (fakeNs c) cluster) (emptyCluster lib) s)"

definition FakeClusters_Delete ::
    "('f, 't, 'm, 'l, 'i, 'sel, 's) testing_lib \<Rightarrow> 'f FakeClusters \<Rightarrow> string \<Rightarrow> 'o \<Rightarrow> (err option, 's) go_call" where
  "FakeClusters_Delete lib c name opts s =
     (let ((_, err), s) = Invokes lib (kopilotFake (clustersFake c)) (DeleteAction clustersResource (fakeNs c) name) (emptyCluster lib) s
      in Some (err, s))"

definition FakeClusters_DeleteCollection ::
    "('f, 't, 'm, 'l, 'i, 'sel, 's) testing_lib \<Rightarrow> 'f FakeClusters \<Rightarrow> 'o \<Rightarrow> list_options \<Rightarrow> (err option, 's) go_call" where
  "FakeClusters_DeleteCollection lib c opts listOpts s =
     (let action = DeleteCollectionAction clustersResource (fakeNs c) listOpts;
          ((_, err), s) = Invokes lib (kopilotFake (clustersFake c)) action (emptyClusterList lib) s
      in Some (err, s))"

definition FakeClusters_Patch ::
    "('f, 't, 'm, 'l, 'i, 'sel, 's) testing_lib \<Rightarrow> 'f FakeClusters \<Rightarrow> string \<Rightarrow> string \<Rightarrow> string \<Rightarrow> 'o \<Rightarrow> string list \<Rightarrow>
       ('m Cluster pointer_result, 's) go_call" where
  "FakeClusters_Patch lib c name pt data opts subresources s =
     return_Cluster (Invokes lib (kopilotFake (clustersFake c))
       (PatchSubresourceAction clustersResource (fakeNs c) name pt data subresources) (emptyCluster lib) s)"

definition FakeClusters_Interface ::
    "('f, 't, 'm, 'l, 'i, 'sel, 's) testing_lib \<Rightarrow> 'f FakeClusters \<Rightarrow> ('m, 'l, 'o, 'i, 's) ClusterInterface" where
  "FakeClusters_Interface lib c =
     \<lparr>doCreate = FakeClusters_Create lib c, doUpdate = FakeClusters_Update lib c, doDelete = FakeClusters_Delete lib c,
      doDeleteCollection = FakeClusters_DeleteCollection lib c, doGet = FakeClusters_Get lib c,
      doList = FakeClusters_List lib c, doWatch = FakeClusters_Watch lib c, doPatch = FakeClusters_Patch lib c\<rparr>"

definition FakeKopilot_Clusters ::
    "('f, 't, 'm, 'l, 'i, 'sel, 's) testing_lib \<Rightarrow> 'f FakeKopilotV1alpha1 \<Rightarrow> string \<Rightarrow> ('m, 'l, 'o, 'i, 's) ClusterInterface" where
  "FakeKopilot_Clusters lib c namespace = FakeClusters_Interface lib \<lparr>clustersFake = c, fakeNs = namespace\<rparr>"

text \<open>The fake has no REST client: it answers an interface that is not nil and holds a nil pointer.\<close>

definition FakeKopilot_RESTClient :: "'f FakeKopilotV1alpha1 \<Rightarrow> 'rc interface_value" where
  "FakeKopilot_RESTClient c = NilPointer"

section \<open>The fake clientset\<close>

text \<open>\<open>fakeDiscovery\<close> points to the same \<^verbatim>\<open>Fake\<close> as the clientset.\<close>

record 'f FakeDiscovery =
  discoveryFake :: 'f

record ('f, 't) FakeClientset =
  csFake :: 'f
  csDiscovery :: "'f FakeDiscovery"
  csTracker :: 't

fun add_objects ::
    "('f, 't, 'm, 'l, 'i, 'sel, 's) testing_lib \<Rightarrow> 't \<Rightarrow> ('m, 'l) object list \<Rightarrow> 's \<Rightarrow> 's option" where
  "add_objects lib tracker [] s = Some s"
| "add_objects lib tracker (obj # objects) s =
     (case trackerAdd lib tracker obj s of
        (Some err, s) \<Rightarrow> None
      | (None, s) \<Rightarrow> add_objects lib tracker objects s)"

definition watch_reaction :: "('f, 't, 'm, 'l, 'i, 'sel, 's) testing_lib \<Rightarrow> 't \<Rightarrow> ('i, 'm, 's) reaction" where
  "watch_reaction lib tracker action s =
     (let gvr = GetResource action; namespace = GetNamespace action in
      case trackerWatch lib tracker gvr namespace s of
        ((_, Some err), s) \<Rightarrow> ((False, None, Some err), s)
      | ((watch, None), s) \<Rightarrow> ((True, watch, None), s))"

definition NewSimpleClientset ::
    "('f, 't, 'm, 'l, 'i, 'sel, 's) testing_lib \<Rightarrow> ('m, 'l) object list \<Rightarrow> (('f, 't) FakeClientset, 's) go_call" where
  "NewSimpleClientset lib objects s =
     (let (tracker, s) = NewObjectTracker lib s in
      case add_objects lib tracker objects s of
        None \<Rightarrow> None
      | Some s \<Rightarrow>
          let fake = AddReactor lib ''*'' ''*'' (ObjectReaction lib tracker) (emptyFake lib);
              fake = AddWatchReactor lib ''*'' (watch_reaction lib tracker) fake
          in Some (\<lparr>csFake = fake, csDiscovery = \<lparr>discoveryFake = fake\<rparr>, csTracker = tracker\<rparr>, s))"

definition FakeClientset_Discovery :: "('f, 't) FakeClientset \<Rightarrow> 'f FakeDiscovery interface_value" where
  "FakeClientset_Discovery c = Holds (csDiscovery c)"

definition FakeClientset_Tracker :: "('f, 't) FakeClientset \<Rightarrow> 't" where
  "FakeClientset_Tracker c = csTracker c"

definition FakeClientset_KopilotV1alpha1 ::
    "('f, 't, 'm, 'l, 'i, 'sel, 's) testing_lib \<Rightarrow> ('f, 't) FakeClientset \<Rightarrow>
       ('rc, 'm, 'l, 'o, 'i, 's) KopilotV1alpha1Interface" where
  "FakeClientset_KopilotV1alpha1 lib c =
     (let k = \<lparr>kopilotFake = csFake c\<rparr>
      in \<lparr>ifClusters = FakeKopilot_Clusters lib k, ifRESTClient = FakeKopilot_RESTClient k\<rparr>)"

definition FakeClientset_Interface ::
    "('f, 't, 'm, 'l, 'i, 'sel, 's) testing_lib \<Rightarrow> ('f, 't) FakeClientset \<Rightarrow>
       ('f FakeDiscovery, 'rc, 'm, 'l, 'o, 'i, 's) versioned_Interface" where
  "FakeClientset_Interface lib c =
     \<lparr>ifDiscovery = FakeClientset_Discovery c, ifKopilotV1alpha1 = FakeClientset_KopilotV1alpha1 lib c\<rparr>"

end
