(* ===== verification/Client_Equivalence.thy ===== *)
theory Client_Equivalence
  imports Fake_Client
begin

text \<open>
  What the fake clientset is for: a program that is tested against it behaves as it does against an API
  server. Programs are trees of calls, each of which may depend on the answers of the earlier ones. They
  run against a \<open>ClusterInterface\<close>, the one of \<open>Rest_Client\<close> or the one of \<open>Fake_Client\<close>.
\<close>

section \<open>Programs\<close>

datatype ('m, 'o) operation =
    OpCreate "'m Cluster" 'o
  | OpUpdate "'m Cluster" 'o
  | OpDelete string 'o
  | OpDeleteCollection 'o list_options
  | OpGet string 'o
  | OpList list_options
  | OpWatch list_options
  | OpPatch string string string 'o "string list"

text \<open>What a caller looks at: the error if there is one, otherwise the object. A list has no kind of its own.\<close>

datatype ('m, 'l, 'i) call_outcome =
    Failed err
  | Done
  | NilResult
  | GotCluster "'m Cluster"
  | GotList 'l "'m Cluster list"
  | GotWatch 'i

fun outcome_of :: "('a \<Rightarrow> ('m, 'l, 'i) call_outcome) \<Rightarrow> 'a pointer_result \<Rightarrow> ('m, 'l, 'i) call_outcome" where
  "outcome_of got (_, Some err) = Failed err"
| "outcome_of got (Some x, None) = got x"
| "outcome_of got (None, None) = NilResult"

definition got_list :: "('m, 'l) ClusterList \<Rightarrow> ('m, 'l, 'i) call_outcome" where
  "got_list l = GotList (ListMeta l) (Items l)"

definition seen :: "('a \<Rightarrow> 'b) \<Rightarrow> ('a \<times> 's) option \<Rightarrow> ('b \<times> 's) option" where
  "seen f r = map_option (\<lambda>(a, s). (f a, s)) r"

fun perform :: "('m, 'l, 'o, 'i, 's) ClusterInterface \<Rightarrow> ('m, 'o) operation \<Rightarrow> (('m, 'l, 'i) call_outcome, 's) go_call" where
  "perform c (OpCreate cluster opts) s = seen (outcome_of GotCluster) (doCreate c cluster opts s)"
| "perform c (OpUpdate cluster opts) s = seen (outcome_of GotCluster) (doUpdate c cluster opts s)"
| "perform c (OpDelete name opts) s = seen (case_option Done Failed) (doDelete c name opts s)"
| "perform c (OpDeleteCollection opts listOpts) s = seen (case_option Done Failed) (doDeleteCollection c opts listOpts s)"
| "perform c (OpGet name opts) s = seen (outcome_of GotCluster) (doGet c name opts s)"
| "perform c (OpList opts) s = seen (outcome_of got_list) (doList c opts s)"
| "perform c (OpWatch opts) s = seen (outcome_of GotWatch) (doWatch c opts s)"
| "perform c (OpPatch name pt data opts subresources) s =
     seen (outcome_of GotCluster) (doPatch c name pt data opts subresources s)"

datatype ('m, 'l, 'o, 'i, 'a) program =
    Return 'a
  | Call "('m, 'o) operation" "('m, 'l, 'i) call_outcome \<Rightarrow> ('m, 'l, 'o, 'i, 'a) program"

primrec run :: "('m, 'l, 'o, 'i, 's) ClusterInterface \<Rightarrow> ('m, 'l, 'o, 'i, 'a) program \<Rightarrow> ('a, 's) go_call" where
  "run c (Return a) s = Some (a, s)"
| "run c (Call op k) s = (case perform c op s of None \<Rightarrow> None | Some (r, s) \<Rightarrow> run c (k r) s)"

text \<open>Only \<open>Watch\<close> itself sets the flag \<^verbatim>\<open>Watch\<close> of list options.\<close>

fun operation_ok :: "('m, 'o) operation \<Rightarrow> bool" where
  "operation_ok (OpList opts) \<longleftrightarrow> \<not> optWatch opts"
| "operation_ok (OpWatch opts) \<longleftrightarrow> \<not> optWatch opts"
| "operation_ok (OpDeleteCollection _ opts) \<longleftrightarrow> \<not> optWatch opts"
| "operation_ok _ \<longleftrightarrow> True"

primrec program_ok :: "('m, 'l, 'o, 'i, 'a) program \<Rightarrow> bool" where
  "program_ok (Return a) \<longleftrightarrow> True"
| "program_ok (Call op k) \<longleftrightarrow> operation_ok op \<and> (\<forall>r. program_ok (k r))"

section \<open>An API server\<close>

text \<open>
  What an API server makes of a request of the typed client: the parts the builder has set, in whatever
  order, name an action on the group's resource. Options other than those of lists are not looked at.
\<close>

definition part :: "('c \<Rightarrow> 'a option) \<Rightarrow> 'c list \<Rightarrow> 'a option" where
  "part f cs = (case List.map_filter f cs of [] \<Rightarrow> None | x # _ \<Rightarrow> Some x)"

fun call_namespace :: "('m, 'o) call \<Rightarrow> string option" where
  "call_namespace (CNamespace n) = Some n"
| "call_namespace _ = None"

fun call_resource :: "('m, 'o) call \<Rightarrow> string option" where
  "call_resource (CResource r) = Some r"
| "call_resource _ = None"

fun call_name :: "('m, 'o) call \<Rightarrow> string option" where
  "call_name (CName n) = Some n"
| "call_name _ = None"

fun call_list :: "('m, 'o) call \<Rightarrow> list_options option" where
  "call_list (CListParams opts) = Some opts"
| "call_list _ = None"

fun call_subresource :: "('m, 'o) call \<Rightarrow> string list option" where
  "call_subresource (CSubResource subs) = Some subs"
| "call_subresource _ = None"

fun call_cluster :: "('m, 'o) call \<Rightarrow> 'm Cluster option" where
  "call_cluster (CBodyCluster c) = Some c"
| "call_cluster _ = None"

fun call_data :: "('m, 'o) call \<Rightarrow> string option" where
  "call_data (CBodyData d) = Some d"
| "call_data _ = None"

definition request_action :: "('m \<Rightarrow> string) \<Rightarrow> verb \<Rightarrow> ('m, 'o) call list \<Rightarrow> 'm action option" where
  "request_action name_of v cs =
     (case (part call_namespace cs, part call_resource cs) of
        (Some n, Some r) \<Rightarrow>
          let gvr = WithResource SchemeGroupVersion r; name = part call_name cs; opts = part call_list cs in
          (case v of
             GET \<Rightarrow>
               (case (name, opts) of
                  (Some x, _) \<Rightarrow> Some (GetAction gvr n x)
                | (None, Some lo) \<Rightarrow>
                    Some (if optWatch lo then WatchAction gvr n (lo\<lparr>optWatch := False\<rparr>) else ListAction gvr clustersKind n lo)
                | (None, None) \<Rightarrow> None)
           | POST \<Rightarrow> map_option (CreateAction gvr n) (part call_cluster cs)
           | PUT \<Rightarrow>
               (case (name, part call_cluster cs) of
                  (Some x, Some c) \<Rightarrow> if name_of (ObjectMeta c) = x then Some (UpdateAction gvr n c) else None
                | _ \<Rightarrow> None)
           | DELETE \<Rightarrow>
               (case (name, opts) of
                  (Some x, _) \<Rightarrow> Some (DeleteAction gvr n x)
                | (None, Some lo) \<Rightarrow> Some (DeleteCollectionAction gvr n lo)
                | (None, None) \<Rightarrow> None)
           | PATCH pt \<Rightarrow>
               (case (name, part call_data cs, part call_subresource cs) of
                  (Some x, Some d, Some subs) \<Rightarrow> Some (PatchSubresourceAction gvr n x pt d subs)
                | _ \<Rightarrow> None))
      | _ \<Rightarrow> None)"

definition bad_request :: err where
  "bad_request = Err ''BadRequest'' ''the server rejected our request''"

text \<open>
  The server answers actions as \<open>serve\<close> does, and unlike \<open>serve\<close> selects the items of a list by label. The
  client decodes an object into the one it has ready, unless there is an error.
\<close>

definition selected :: "('f, 't, 'm, 'l, 'i, 'sel, 's) testing_lib \<Rightarrow> list_options \<Rightarrow> 'm Cluster list \<Rightarrow> 'm Cluster list" where
  "selected lib opts items =
     filter (\<lambda>c. Matches lib (case ExtractLabel lib opts of None \<Rightarrow> Everything lib | Some l \<Rightarrow> l) (ObjectMeta c)) items"

fun select_answer :: "('f, 't, 'm, 'l, 'i, 'sel, 's) testing_lib \<Rightarrow> 'm action \<Rightarrow> ('m, 'l) object option \<Rightarrow> ('m, 'l) object option" where
  "select_answer lib (ListAction _ _ _ opts) (Some (ObjClusterList l)) =
     Some (ObjClusterList (l\<lparr>Items := selected lib opts (Items l)\<rparr>))"
| "select_answer lib _ obj = obj"

definition action_server ::
    "('f, 't, 'm, 'l, 'i, 'sel, 's) testing_lib \<Rightarrow> ('m \<Rightarrow> string) \<Rightarrow>
       ('m action \<Rightarrow> 's \<Rightarrow> ('m, 'l) object pointer_result \<times> 's) \<Rightarrow> ('m action \<Rightarrow> 's \<Rightarrow> 'i pointer_result \<times> 's) \<Rightarrow>
       ('m, 'l, 'o, ('m, 'l) object pointer_result, 'i, 's) rest_client" where
  "action_server lib name_of serve watch =
     \<lparr>Do = (\<lambda>v cs s. case request_action name_of v cs of
              None \<Rightarrow> ((None, Some bad_request), s)
            | Some a \<Rightarrow> (let ((obj, err), s) = serve a s in ((select_answer lib a obj, err), s))),
      IntoCluster = (\<lambda>r c. case r of (Some (ObjCluster c'), None) \<Rightarrow> (c', None) | (_, err) \<Rightarrow> (c, err)),
      IntoList = (\<lambda>r l. case r of (Some (ObjClusterList l'), None) \<Rightarrow> (l', None) | (_, err) \<Rightarrow> (l, err)),
      ResultError = snd,
      DoWatch = (\<lambda>v cs s. case request_action name_of v cs of
              None \<Rightarrow> (Inl bad_request, s)
            | Some a \<Rightarrow> (case watch a s of ((Some w, None), s) \<Rightarrow> (Inr w, s)
                | ((_, Some err), s) \<Rightarrow> (Inl err, s) | ((None, None), s) \<Rightarrow> (Inl bad_request, s))),
      clusterName = name_of, zeroMeta = noMeta lib, zeroListMeta = noListMeta lib\<rparr>"

text \<open>
  A server answers an error or an object of the right type, but not both; an action on one object other than
  a deletion is answered with a cluster, a list with a list, a watch with a watch. Only the actions on clusters
  matter.
\<close>

fun answers :: "'m action \<Rightarrow> ('m, 'l) object option \<Rightarrow> bool" where
  "answers (ListAction _ _ _ _) obj \<longleftrightarrow> (\<exists>l. obj = Some (ObjClusterList l))"
| "answers (DeleteAction _ _ _) obj \<longleftrightarrow> True"
| "answers (DeleteCollectionAction _ _ _) obj \<longleftrightarrow> True"
| "answers (WatchAction _ _ _) obj \<longleftrightarrow> True"
| "answers _ obj \<longleftrightarrow> (\<exists>c. obj = Some (ObjCluster c))"

fun cluster_action :: "'m action \<Rightarrow> bool" where
  "cluster_action (ListAction r k _ _) \<longleftrightarrow> r = clustersResource \<and> k = clustersKind"
| "cluster_action a \<longleftrightarrow> GetResource a = clustersResource"

text \<open>The object that the fake typed client gives to \<open>Invokes\<close> beside an action, to be answered if no reactor handles it.\<close>

fun default_object :: "('f, 't, 'm, 'l, 'i, 'sel, 's) testing_lib \<Rightarrow> 'm action \<Rightarrow> ('m, 'l) object" where
  "default_object lib (ListAction _ _ _ _) = emptyClusterList lib"
| "default_object lib (DeleteCollectionAction _ _ _) = emptyClusterList lib"
| "default_object lib _ = emptyCluster lib"

definition well_typed ::
    "('m action \<Rightarrow> 's \<Rightarrow> ('m, 'l) object pointer_result \<times> 's) \<Rightarrow> ('m action \<Rightarrow> 's \<Rightarrow> 'i pointer_result \<times> 's) \<Rightarrow> bool" where
  "well_typed serve watch \<longleftrightarrow>
     (\<forall>a s obj err s'. cluster_action a \<longrightarrow> serve a s = ((obj, err), s') \<longrightarrow> (case err of None \<Rightarrow> answers a obj | Some _ \<Rightarrow> obj = None))
     \<and> (\<forall>a s w err s'. cluster_action a \<longrightarrow> watch a s = ((w, err), s') \<longrightarrow> (w = None \<longleftrightarrow> err \<noteq> None))"

section \<open>The two clients, call by call\<close>

lemma select_items_filter: "select_items f xs ys = ys @ filter (\<lambda>c. f (ObjectMeta c)) xs"
  by (induction xs arbitrary: ys) simp_all

lemma clusters_resource: "WithResource SchemeGroupVersion ''clusters'' = clustersResource"
  by (simp add: WithResource_def SchemeGroupVersion_def GroupName_def clustersResource_def)

lemma part_simps [simp]:
  "part f [] = None" "f c = Some x \<Longrightarrow> part f (c # cs) = Some x" "f c = None \<Longrightarrow> part f (c # cs) = part f cs"
  by (simp_all add: part_def List.map_filter_def)

lemma optWatch_reset: "\<not> optWatch opts \<Longrightarrow> opts\<lparr>optWatch := False\<rparr> = opts"
  by simp

text \<open>The request of each method of the typed client is the action its counterpart makes.\<close>

lemma request_actions:
  "request_action name_of GET [CNamespace n, CResource ''clusters'', CName x, CVersionedParams po] = Some (GetAction clustersResource n x)"
  "\<not> optWatch lo \<Longrightarrow> request_action name_of GET [CNamespace n, CResource ''clusters'', CListParams lo, CTimeout t] =
     Some (ListAction clustersResource clustersKind n lo)"
  "\<not> optWatch lo \<Longrightarrow> request_action name_of GET [CNamespace n, CResource ''clusters'', CListParams (lo\<lparr>optWatch := True\<rparr>), CTimeout t] =
     Some (WatchAction clustersResource n lo)"
  "request_action name_of POST [CNamespace n, CResource ''clusters'', CVersionedParams po, CBodyCluster c] =
     Some (CreateAction clustersResource n c)"
  "request_action name_of PUT [CNamespace n, CResource ''clusters'', CName (name_of (ObjectMeta c)), CVersionedParams po, CBodyCluster c] =
     Some (UpdateAction clustersResource n c)"
  "request_action name_of DELETE [CNamespace n, CResource ''clusters'', CName x, CBodyOptions po] = Some (DeleteAction clustersResource n x)"
  "request_action name_of DELETE [CNamespace n, CResource ''clusters'', CListParams lo, CTimeout t, CBodyOptions po] =
     Some (DeleteCollectionAction clustersResource n lo)"
  "request_action name_of (PATCH pt) [CNamespace n, CResource ''clusters'', CName x, CSubResource subs, CVersionedParams po, CBodyData d] =
     Some (PatchSubresourceAction clustersResource n x pt d subs)"
  by (simp_all add: request_action_def clusters_resource)

lemma well_typedD:
  assumes "well_typed serve watch" and "cluster_action a"
  shows "serve a s = ((obj, None), s') \<Longrightarrow> answers a obj" and "serve a s = ((obj, Some e), s') \<Longrightarrow> obj = None"
    and "watch a s = ((w, err), s') \<Longrightarrow> w = None \<longleftrightarrow> err \<noteq> None"
  using assms unfolding well_typed_def by (fastforce split: option.splits)+

lemmas fake_simps = FakeKopilot_Clusters_def FakeClusters_Interface_def FakeClusters_Create_def FakeClusters_Update_def
  FakeClusters_Delete_def FakeClusters_DeleteCollection_def FakeClusters_Get_def FakeClusters_List_def FakeClusters_Watch_def
  FakeClusters_Patch_def return_Cluster_def

lemmas real_simps = clusters_Interface_def newClusters_def action_server_def clusters_Create_def clusters_Update_def
  clusters_Delete_def clusters_DeleteCollection_def clusters_Get_def clusters_List_def clusters_Watch_def clusters_Patch_def
  filled_def watch_pointer_def request_actions

text \<open>An action on one cluster is answered with a cluster or with an error.\<close>

lemma served_cluster:
  fixes serve :: "'m action \<Rightarrow> 's \<Rightarrow> ('m, 'l) object pointer_result \<times> 's"
  assumes "well_typed serve watch" and "cluster_action a"
    and "\<And>obj :: ('m, 'l) object option. answers a obj \<Longrightarrow> \<exists>c. obj = Some (ObjCluster c)"
  obtains c s' where "serve a s = ((Some (ObjCluster c), None), s')" | e s' where "serve a s = ((None, Some e), s')"
proof -
  obtain obj err s' where e: "serve a s = ((obj, err), s')" by (metis surj_pair)
  show ?thesis
  proof (cases err)
    case None
    with e assms(3) well_typedD(1) [OF assms(1,2)] that(1) show ?thesis by blast
  next
    case (Some x)
    with e well_typedD(2) [OF assms(1,2)] that(2) show ?thesis by blast
  qed
qed

lemma perform_agrees:
  fixes lib :: "('f, 't, 'm, 'l, 'i, 'sel, 's) testing_lib"
  assumes w: "well_typed serve watch" and i: "\<And>a. Invokes lib f a (default_object lib a) = serve a" "\<And>a. InvokesWatch lib f a = watch a"
    and ok: "operation_ok op"
  shows "perform (FakeKopilot_Clusters lib \<lparr>kopilotFake = f\<rparr> n) op s =
    perform (clusters_Interface (newClusters (action_server lib name_of serve watch) n)) op s"
proof -
  note wt = well_typedD [OF w]
  have inv: "Invokes lib f (CreateAction r n c) (emptyCluster lib) = serve (CreateAction r n c)"
      "Invokes lib f (UpdateAction r n c) (emptyCluster lib) = serve (UpdateAction r n c)"
      "Invokes lib f (DeleteAction r n x) (emptyCluster lib) = serve (DeleteAction r n x)"
      "Invokes lib f (DeleteCollectionAction r n lo) (emptyClusterList lib) = serve (DeleteCollectionAction r n lo)"
      "Invokes lib f (GetAction r n x) (emptyCluster lib) = serve (GetAction r n x)"
      "Invokes lib f (ListAction r k n lo) (emptyClusterList lib) = serve (ListAction r k n lo)"
      "Invokes lib f (PatchSubresourceAction r n x pt d subs) (emptyCluster lib) = serve (PatchSubresourceAction r n x pt d subs)"
    for r k n c x lo pt d subs
    using i(1) [of "CreateAction r n c"] i(1) [of "UpdateAction r n c"] i(1) [of "DeleteAction r n x"]
      i(1) [of "DeleteCollectionAction r n lo"] i(1) [of "GetAction r n x"] i(1) [of "ListAction r k n lo"]
      i(1) [of "PatchSubresourceAction r n x pt d subs"] by simp_all
  note defs = fake_simps inv i(2) real_simps Let_def seen_def
  show ?thesis
  proof (cases op)
    case (OpCreate c opts)
    show ?thesis
      by (rule served_cluster [OF w, of "CreateAction clustersResource n c" s]) (simp_all add: OpCreate defs)
  next
    case (OpUpdate c opts)
    show ?thesis
      by (rule served_cluster [OF w, of "UpdateAction clustersResource n c" s]) (simp_all add: OpUpdate defs)
  next
    case (OpDelete x opts)
    then show ?thesis by (simp add: defs split: prod.splits)
  next
    case (OpDeleteCollection opts lo)
    then show ?thesis using ok by (simp add: defs split: prod.splits)
  next
    case (OpGet x opts)
    show ?thesis
      by (rule served_cluster [OF w, of "GetAction clustersResource n x" s]) (simp_all add: OpGet defs)
  next
    case (OpPatch x pt d opts subs)
    show ?thesis
      by (rule served_cluster [OF w, of "PatchSubresourceAction clustersResource n x pt d subs" s]) (simp_all add: OpPatch defs)
  next
    case (OpList lo)
    let ?a = "ListAction clustersResource clustersKind n lo"
    obtain obj err s' where e: "serve ?a s = ((obj, err), s')" by (metis surj_pair)
    show ?thesis
    proof (cases err)
      case None
      with wt(1) [of ?a s obj s'] e obtain l where "obj = Some (ObjClusterList l)" by auto
      with OpList ok None e show ?thesis
        by (simp add: defs got_list_def select_items_filter selected_def)
    next
      case (Some x)
      with wt(2) [of ?a s obj x s'] e have "obj = None" by simp
      with OpList ok Some e show ?thesis
        by (simp add: defs)
    qed
  next
    case (OpWatch lo)
    let ?a = "WatchAction clustersResource n lo"
    obtain v err s' where e: "watch ?a s = ((v, err), s')" by (metis surj_pair)
    with wt(3) [OF _ e] OpWatch ok show ?thesis
      by (cases v; cases err) (simp_all add: defs)
  qed
qed

lemma run_agrees:
  assumes "well_typed serve watch" and "\<And>a. Invokes lib f a (default_object lib a) = serve a" and "\<And>a. InvokesWatch lib f a = watch a"
    and "program_ok p"
  shows "run (FakeKopilot_Clusters lib \<lparr>kopilotFake = f\<rparr> n) p s =
    run (clusters_Interface (newClusters (action_server lib name_of serve watch) n)) p s"
  using assms(4)
proof (induction p arbitrary: s)
  case (Return a)
  then show ?case by simp
next
  case (Call op k)
  then have ok: "operation_ok op" and k: "\<And>r. program_ok (k r)" by simp_all
  show ?case
    using Call.IH [OF rangeI k] perform_agrees [where serve = serve and watch = watch, OF assms(1-3) ok, of n s name_of]
    by (simp split: option.split prod.split)
qed

section \<open>Properties\<close>

text \<open>
  C31: A program cannot tell the fake client from the real one. Let an API server answer actions in some way,
  with errors or objects of the right type, and select the items of a list by label; let \<^verbatim>\<open>testing.Fake\<close>
  answer the same way but not select. Then every program of calls, in any namespace, gets the same result and
  leaves the same state with the fake typed client as with the real one: neither panics, each method sends
  the request that its counterpart makes an action of, and the fake selects the list itself.
\<close>

theorem fake_client_equivalent:
  assumes "well_typed serve watch" and "\<And>a. Invokes lib f a (default_object lib a) = serve a" and "\<And>a. InvokesWatch lib f a = watch a"
    and "program_ok p"
  shows "run (FakeKopilot_Clusters lib \<lparr>kopilotFake = f\<rparr> n) p s =
    run (clusters_Interface (newClusters (action_server lib name_of serve watch) n)) p s"
  by (rule run_agrees [where serve = serve and watch = watch, OF assms])

text \<open>
  A server over one namespace: the state is the list of its clusters, the metadata a name and a label.
\<close>

type_synonym demo_meta = "string \<times> string"

definition demo_named :: "string \<Rightarrow> demo_meta Cluster list \<Rightarrow> demo_meta Cluster option" where
  "demo_named x cs = find (\<lambda>c. fst (ObjectMeta c) = x) cs"

definition demo_not_found :: err where
  "demo_not_found = Err ''NotFound'' ''not found''"

definition demo_answer :: "demo_meta Cluster option \<Rightarrow> (demo_meta, unit) object pointer_result" where
  "demo_answer c = (case c of None \<Rightarrow> (None, Some demo_not_found) | Some c \<Rightarrow> (Some (ObjCluster c), None))"

fun demo_serve :: "demo_meta action \<Rightarrow> demo_meta Cluster list \<Rightarrow> (demo_meta, unit) object pointer_result \<times> demo_meta Cluster list" where
  "demo_serve (CreateAction _ _ c) cs = ((Some (ObjCluster c), None), cs @ [c])"
| "demo_serve (GetAction _ _ x) cs = (demo_answer (demo_named x cs), cs)"
| "demo_serve (ListAction _ _ _ _) cs =
     ((Some (ObjClusterList \<lparr>listTypeMeta = zeroTypeMeta, ListMeta = (), Items = cs\<rparr>), None), cs)"
| "demo_serve (DeleteAction _ _ x) cs = ((None, None), filter (\<lambda>c. fst (ObjectMeta c) \<noteq> x) cs)"
| "demo_serve (DeleteCollectionAction _ _ _) cs =
     ((Some (ObjClusterList \<lparr>listTypeMeta = zeroTypeMeta, ListMeta = (), Items = []\<rparr>), None), cs)"
| "demo_serve _ cs = ((None, Some demo_not_found), cs)"

definition demo_watch :: "demo_meta action \<Rightarrow> demo_meta Cluster list \<Rightarrow> string pointer_result \<times> demo_meta Cluster list" where
  "demo_watch a cs = ((Some ''events'', None), cs)"

lemma demo_well_typed: "well_typed demo_serve demo_watch"
  unfolding well_typed_def
proof (intro conjI allI impI)
  fix a s obj err s'
  assume "demo_serve a s = ((obj, err), s')"
  then show "case err of None \<Rightarrow> answers a obj | Some x \<Rightarrow> obj = None"
    by (cases a) (auto simp: demo_answer_def split: option.splits)
qed (auto simp: demo_watch_def)

text \<open>A library whose \<^verbatim>\<open>Fake\<close> is the chain of the reactions added to it, the first one answering.\<close>

type_synonym demo_fake =
  "((demo_meta, unit) object, demo_meta, demo_meta Cluster list) reaction option \<times>
     (string, demo_meta, demo_meta Cluster list) reaction option"

definition demo_testing :: "(demo_fake, unit, demo_meta, unit, string, string, demo_meta Cluster list) testing_lib" where
  "demo_testing =
     \<lparr>emptyFake = (None, None),
      AddReactor = (\<lambda>verb res r (f, w). (Some r, w)),
      AddWatchReactor = (\<lambda>res r (f, w). (f, Some r)),
      Invokes = (\<lambda>f a d s. case fst f of
         None \<Rightarrow> ((Some d, None), s)
       | Some r \<Rightarrow> (case r a s of ((True, obj, err), s) \<Rightarrow> ((obj, err), s) | ((False, obj, err), s) \<Rightarrow> ((Some d, None), s))),
      InvokesWatch = (\<lambda>f a s. case snd f of
         None \<Rightarrow> ((None, Some bad_request), s)
       | Some r \<Rightarrow> (case r a s of ((True, w, err), s) \<Rightarrow> ((w, err), s) | ((False, w, err), s) \<Rightarrow> ((None, Some bad_request), s))),
      NewObjectTracker = (\<lambda>s. ((), s)),
      trackerAdd = (\<lambda>t obj s. case as_Cluster obj of None \<Rightarrow> (Some bad_request, s) | Some c \<Rightarrow> (None, s @ [c])),
      trackerWatch = (\<lambda>t r n. demo_watch (WatchAction r n \<lparr>optRest = [], TimeoutSeconds = None, optWatch = False\<rparr>)),
      ObjectReaction = (\<lambda>t a s. case a of
         DeleteCollectionAction _ _ _ \<Rightarrow> ((False, None, Some bad_request), s)
       | _ \<Rightarrow> (let ((obj, err), s) = demo_serve a s in ((True, obj, err), s))),
      ExtractLabel = (\<lambda>lo. if optRest lo = [] then None else Some (optRest lo)),
      Everything = [], Matches = (\<lambda>q m. q = [] \<or> q = snd m), noMeta = ([], []), noListMeta = ()\<rparr>"

definition demo_labelled :: "string \<Rightarrow> string \<Rightarrow> demo_meta Cluster" where
  "demo_labelled name label = \<lparr>clusterTypeMeta = zeroTypeMeta, ObjectMeta = (name, label), Token = ''t''\<rparr>"

definition demo_program :: "(demo_meta, unit, unit, string, string list) program" where
  "demo_program = Call (OpCreate (demo_labelled ''a'' ''red'') ()) (\<lambda>_. Call (OpCreate (demo_labelled ''b'' ''blue'') ()) (\<lambda>_.
     Call (OpList \<lparr>optRest = ''blue'', TimeoutSeconds = Some 30, optWatch = False\<rparr>) (\<lambda>r.
       case r of GotList m cs \<Rightarrow> Return (map (\<lambda>c. fst (ObjectMeta c)) cs) | _ \<Rightarrow> Return [])))"

lemma demo_program_ok: "program_ok demo_program"
  by (simp add: demo_program_def split: call_outcome.split)

theorem fake_client_equivalent_witness:
  "map_option fst (run (clusters_Interface (newClusters (action_server demo_testing fst demo_serve demo_watch) ''default'')) demo_program []) =
     Some [''b'']"
proof -
  let ?f = "(Some (ObjectReaction demo_testing ()), Some (\<lambda>a s. let ((w, err), s) = demo_watch a s in ((True, w, err), s)))"
  have "run (FakeKopilot_Clusters demo_testing \<lparr>kopilotFake = ?f\<rparr> ''default'') demo_program [] =
      run (clusters_Interface (newClusters (action_server demo_testing fst demo_serve demo_watch) ''default'')) demo_program []"
    by (rule fake_client_equivalent [OF demo_well_typed _ _ demo_program_ok])
      (auto simp: demo_testing_def emptyClusterList_def fun_eq_iff split: prod.split action.split)
  moreover have "map_option fst (run (FakeKopilot_Clusters demo_testing \<lparr>kopilotFake = ?f\<rparr> ''default'') demo_program []) = Some [''b'']"
    by (simp add: demo_program_def fake_simps demo_testing_def Let_def seen_def got_list_def demo_labelled_def)
  ultimately show ?thesis by simp
qed

text \<open>
  What client-go documents of \<^verbatim>\<open>testing.Fake\<close> for the chain \<open>NewSimpleClientset\<close> builds, one reactor for every
  verb and resource: an action is recorded (\<open>note\<close>) and given to the reactor; if that has not handled it, the
  answer is the default object with a nil error, or for a watch the error \<open>unhandled\<close>.
\<close>

definition reactors_doc ::
    "('f, 't, 'm, 'l, 'i, 'sel, 's) testing_lib \<Rightarrow> ('m action \<Rightarrow> 's \<Rightarrow> 's) \<Rightarrow> ('m action \<Rightarrow> err) \<Rightarrow> bool" where
  "reactors_doc lib note unhandled \<longleftrightarrow>
     (\<forall>r w f a d s. f = AddWatchReactor lib ''*'' w (AddReactor lib ''*'' ''*'' r (emptyFake lib)) \<longrightarrow>
        Invokes lib f a d s = (case r a (note a s) of ((handled, obj, err), s) \<Rightarrow> (if handled then (obj, err) else (Some d, None), s))
        \<and> InvokesWatch lib f a s = (case w a (note a s) of ((handled, v, err), s) \<Rightarrow>
             (if handled then (v, err) else (None, Some (unhandled a)), s)))"

text \<open>
  The object tracker as a server. What its reactor does not handle is answered with the default object and
  nothing else happens; in client-go 0.21 that is the deletion of a collection.
\<close>

definition tracked ::
    "('f, 't, 'm, 'l, 'i, 'sel, 's) testing_lib \<Rightarrow> ('m action \<Rightarrow> 's \<Rightarrow> 's) \<Rightarrow> 't \<Rightarrow> 'm action \<Rightarrow> 's \<Rightarrow> ('m, 'l) object pointer_result \<times> 's" where
  "tracked lib note tracker a s = (let ((handled, obj, err), s) = ObjectReaction lib tracker a (note a s)
      in (if handled then (obj, err) else (Some (default_object lib a), None), s))"

definition leaves_collections :: "('f, 't, 'm, 'l, 'i, 'sel, 's) testing_lib \<Rightarrow> 't \<Rightarrow> bool" where
  "leaves_collections lib tracker \<longleftrightarrow>
     (\<forall>r n lo s. \<exists>x. ObjectReaction lib tracker (DeleteCollectionAction r n lo) s = ((False, x), s))"

definition tracked_watch ::
    "('f, 't, 'm, 'l, 'i, 'sel, 's) testing_lib \<Rightarrow> ('m action \<Rightarrow> 's \<Rightarrow> 's) \<Rightarrow> ('m action \<Rightarrow> err) \<Rightarrow> 't \<Rightarrow> 'm action \<Rightarrow> 's \<Rightarrow>
       'i pointer_result \<times> 's" where
  "tracked_watch lib note unhandled tracker a s =
     (case trackerWatch lib tracker (GetResource a) (GetNamespace a) (note a s) of
        ((w, None), s) \<Rightarrow> ((w, None), s)
      | ((_, Some err), s) \<Rightarrow> ((None, Some (unhandled a)), s))"

lemma add_objects_None:
  "add_objects lib tracker objects s = None \<longleftrightarrow>
     (\<exists>before obj after s1 err s2. objects = before @ obj # after \<and> add_objects lib tracker before s = Some s1
        \<and> trackerAdd lib tracker obj s1 = (Some err, s2))"
proof (induction objects arbitrary: s)
  case Nil
  then show ?case by simp
next
  case (Cons o1 os)
  obtain e t where t: "trackerAdd lib tracker o1 s = (e, t)" by fastforce
  show ?case
  proof (cases e)
    case None
    show ?thesis
    proof
      assume "add_objects lib tracker (o1 # os) s = None"
      with None t have "add_objects lib tracker os t = None" by simp
      then obtain b ob a s1 err s2 where x: "os = b @ ob # a" "add_objects lib tracker b t = Some s1"
          "trackerAdd lib tracker ob s1 = (Some err, s2)" unfolding Cons.IH by blast
      with None t show "\<exists>b ob a s1 err s2. o1 # os = b @ ob # a \<and> add_objects lib tracker b s = Some s1
          \<and> trackerAdd lib tracker ob s1 = (Some err, s2)"
        by (intro exI [of _ "o1 # b"]) fastforce
    next
      assume "\<exists>b ob a s1 err s2. o1 # os = b @ ob # a \<and> add_objects lib tracker b s = Some s1
          \<and> trackerAdd lib tracker ob s1 = (Some err, s2)"
      then obtain b ob a s1 err s2 where x: "o1 # os = b @ ob # a" "add_objects lib tracker b s = Some s1"
          "trackerAdd lib tracker ob s1 = (Some err, s2)" by blast
      with None t obtain b' where b: "b = o1 # b'" by (cases b) auto
      with x None t have "os = b' @ ob # a" "add_objects lib tracker b' t = Some s1" by auto
      with x(3) have "add_objects lib tracker os t = None" unfolding Cons.IH by blast
      with None t show "add_objects lib tracker (o1 # os) s = None" by simp
    qed
  next
    case (Some err)
    with t show ?thesis by simp (metis add_objects.simps(1) append_Nil)
  qed
qed

lemma NewSimpleClientset_fake:
  assumes "NewObjectTracker lib s = (tracker, s0)" and "NewSimpleClientset lib objects s = Some (cs, s1)"
  shows "csFake cs = AddWatchReactor lib ''*'' (watch_reaction lib tracker) (AddReactor lib ''*'' ''*'' (ObjectReaction lib tracker) (emptyFake lib))"
  using assms by (auto simp: NewSimpleClientset_def Let_def split: option.splits)

lemma simple_invokes:
  assumes "reactors_doc lib note unhandled"
    and "f = AddWatchReactor lib ''*'' (watch_reaction lib tracker) (AddReactor lib ''*'' ''*'' (ObjectReaction lib tracker) (emptyFake lib))"
  shows "Invokes lib f a (default_object lib a) = tracked lib note tracker a" and "InvokesWatch lib f a = tracked_watch lib note unhandled tracker a"
proof -
  have i: "Invokes lib f a d s = (case ObjectReaction lib tracker a (note a s) of ((handled, obj, err), s) \<Rightarrow>
        (if handled then (obj, err) else (Some d, None), s))"
    and w: "InvokesWatch lib f a s = (case watch_reaction lib tracker a (note a s) of ((handled, v, err), s) \<Rightarrow>
        (if handled then (v, err) else (None, Some (unhandled a)), s))" for d s
    using assms(1) [unfolded reactors_doc_def] assms(2) by blast+
  show "Invokes lib f a (default_object lib a) = tracked lib note tracker a"
    by (auto simp: fun_eq_iff i tracked_def Let_def split: prod.split)
  show "InvokesWatch lib f a = tracked_watch lib note unhandled tracker a"
    by (auto simp: fun_eq_iff w tracked_watch_def watch_reaction_def Let_def split: prod.split option.split)
qed

text \<open>
  C33: \<open>NewSimpleClientset\<close> panics exactly when the tracker refuses one of the objects, and otherwise answers a
  clientset on which every program of calls goes as against an API server that answers what the object
  tracker does: with the objects given and what the program itself has changed. But with a tracker that has no
  reaction to the deletion of a collection, as that of client-go, \<open>DeleteCollection\<close> reports success and
  deletes nothing.
\<close>

theorem NewSimpleClientset_serves:
  fixes lib :: "('f, 't, 'm, 'l, 'i, 'sel, 's) testing_lib"
  assumes "NewObjectTracker lib s = (tracker, s0)" and "reactors_doc lib note unhandled"
  shows "(NewSimpleClientset lib objects s = None \<longleftrightarrow>
      (\<exists>before obj after s1 err s2. objects = before @ obj # after \<and> add_objects lib tracker before s0 = Some s1
         \<and> trackerAdd lib tracker obj s1 = (Some err, s2)))
    \<and> (\<forall>cs s1 (p :: ('m, 'l, 'o, 'i, 'a) program) n. NewSimpleClientset lib objects s = Some (cs, s1) \<longrightarrow> program_ok p \<longrightarrow>
         well_typed (tracked lib note tracker) (tracked_watch lib note unhandled tracker) \<longrightarrow>
         run (ifClusters (ifKopilotV1alpha1 (FakeClientset_Interface lib cs)) n) p s1 =
         run (clusters_Interface (newClusters
           (action_server lib name_of (tracked lib note tracker) (tracked_watch lib note unhandled tracker)) n)) p s1)
    \<and> (\<forall>cs s1 n (opts :: 'o) lo t. NewSimpleClientset lib objects s = Some (cs, s1) \<longrightarrow> leaves_collections lib tracker \<longrightarrow>
         doDeleteCollection (ifClusters (ifKopilotV1alpha1 (FakeClientset_Interface lib cs)) n) opts lo t =
           Some (None, note (DeleteCollectionAction clustersResource n lo) t))"
proof (intro conjI allI impI)
  show "NewSimpleClientset lib objects s = None \<longleftrightarrow>
      (\<exists>before obj after s1 err s2. objects = before @ obj # after \<and> add_objects lib tracker before s0 = Some s1
         \<and> trackerAdd lib tracker obj s1 = (Some err, s2))"
    unfolding add_objects_None [symmetric] using assms(1) by (simp add: NewSimpleClientset_def Let_def split: option.split)
next
  fix cs s1 and p :: "('m, 'l, 'o, 'i, 'a) program" and n
  assume a: "NewSimpleClientset lib objects s = Some (cs, s1)" and ok: "program_ok p"
    and w: "well_typed (tracked lib note tracker) (tracked_watch lib note unhandled tracker)"
  note inv = simple_invokes [OF assms(2) NewSimpleClientset_fake [OF assms(1) a]]
  show "run (ifClusters (ifKopilotV1alpha1 (FakeClientset_Interface lib cs)) n) p s1 =
      run (clusters_Interface (newClusters
        (action_server lib name_of (tracked lib note tracker) (tracked_watch lib note unhandled tracker)) n)) p s1"
    using run_agrees [OF w inv ok, of n s1 name_of]
    by (simp add: FakeClientset_Interface_def FakeClientset_KopilotV1alpha1_def Let_def)
next
  fix cs s1 n and opts :: 'o and lo t
  assume a: "NewSimpleClientset lib objects s = Some (cs, s1)" and c: "leaves_collections lib tracker"
  let ?a = "DeleteCollectionAction clustersResource n lo"
  have "Invokes lib (csFake cs) ?a (emptyClusterList lib) t = ((Some (emptyClusterList lib), None), note ?a t)"
    using simple_invokes(1) [OF assms(2) NewSimpleClientset_fake [OF assms(1) a], of ?a]
      c [unfolded leaves_collections_def, rule_format, of clustersResource n lo "note ?a t"]
    by (auto simp: tracked_def)
  then show "doDeleteCollection (ifClusters (ifKopilotV1alpha1 (FakeClientset_Interface lib cs)) n) opts lo t =
      Some (None, note ?a t)"
    by (simp add: FakeClientset_Interface_def FakeClientset_KopilotV1alpha1_def FakeKopilot_Clusters_def
        FakeClusters_Interface_def FakeClusters_DeleteCollection_def Let_def)
qed

lemma demo_reactors: "reactors_doc demo_testing (\<lambda>a s. s) (\<lambda>a. bad_request)"
  unfolding reactors_doc_def by (auto simp: demo_testing_def split: prod.split bool.split)

lemma demo_leaves: "leaves_collections demo_testing ()"
  by (simp add: leaves_collections_def demo_testing_def)

lemma demo_tracked: "tracked demo_testing (\<lambda>a s. s) () = demo_serve"
  "tracked_watch demo_testing (\<lambda>a s. s) (\<lambda>a. bad_request) () = demo_watch"
  by (auto simp: fun_eq_iff tracked_def tracked_watch_def demo_testing_def demo_watch_def emptyClusterList_def Let_def
      split: prod.split action.split)

theorem NewSimpleClientset_serves_witness:
  "NewSimpleClientset demo_testing [ObjOther ''Pod''] [] = None
   \<and> (\<exists>cs s1. NewSimpleClientset demo_testing [ObjCluster (demo_labelled ''c'' ''blue'')] [] = Some (cs, s1)
       \<and> map_option fst (run (ifClusters (ifKopilotV1alpha1 (FakeClientset_Interface demo_testing cs)) ''default'') demo_program s1) =
           Some [''c'', ''b''])"
proof -
  let ?api = "action_server demo_testing fst demo_serve demo_watch :: (demo_meta, unit, unit, (demo_meta, unit) object pointer_result, string, demo_meta Cluster list) rest_client"
  have t: "NewObjectTracker demo_testing [] = ((), [])" by (simp add: demo_testing_def)
  note serves = NewSimpleClientset_serves [where lib = demo_testing and s = "[]", OF t demo_reactors, unfolded demo_tracked]
  have "NewSimpleClientset demo_testing [ObjOther ''Pod''] [] = None"
    unfolding serves [of "[ObjOther ''Pod'']", THEN conjunct1]
    by (intro exI [of _ "[]"]) (simp add: demo_testing_def)
  moreover obtain cs where c: "NewSimpleClientset demo_testing [ObjCluster (demo_labelled ''c'' ''blue'')] [] =
      Some (cs, [demo_labelled ''c'' ''blue''])"
    by (simp add: NewSimpleClientset_def Let_def demo_testing_def)
  moreover have "run (ifClusters (ifKopilotV1alpha1 (FakeClientset_Interface demo_testing cs)) ''default'') demo_program
        [demo_labelled ''c'' ''blue''] =
      run (clusters_Interface (newClusters ?api ''default'')) demo_program [demo_labelled ''c'' ''blue'']"
    using serves [of "[ObjCluster (demo_labelled ''c'' ''blue'')]", THEN conjunct2, THEN conjunct1] c demo_program_ok demo_well_typed by blast
  moreover have "map_option fst (run (clusters_Interface (newClusters ?api ''default'')) demo_program [demo_labelled ''c'' ''blue'']) =
      Some [''c'', ''b'']"
    by (simp add: demo_program_def real_simps demo_testing_def Let_def seen_def got_list_def demo_labelled_def selected_def)
  ultimately show ?thesis by metis
qed

end
