(* ===== verification/Scheme_Registration.thy ===== *)
theory Scheme_Registration
  imports Fake_Client
begin

text \<open>
  The registration of Go types in schemes: \<^verbatim>\<open>src/pkg/apis/kopilot/v1alpha1/register.go\<close>, the \<^verbatim>\<open>init\<close> functions of
  the clientset (\<^verbatim>\<open>versioned/scheme/register.go\<close>), of the fake clientset (\<^verbatim>\<open>versioned/fake/register.go\<close>) and of
  the webhook process (\<^verbatim>\<open>cmd/kopilot-webhook/main.go\<close>). The scheme is a type of apimachinery, the parameter
  \<open>'sc\<close>. A registration that panics is \<open>None\<close>.
\<close>

section \<open>The registrations\<close>

datatype go_struct = GoStruct (struct_package: string) (struct_name: string)

type_synonym 'sc registration = "'sc \<Rightarrow> (err option \<times> 'sc) option"

record 'sc scheme_lib =
  NewScheme :: 'sc
  AddKnownTypes :: "GroupVersion \<Rightarrow> go_struct list \<Rightarrow> 'sc \<Rightarrow> 'sc option"
  AddToGroupVersion :: "GroupVersion \<Rightarrow> 'sc \<Rightarrow> 'sc option"
  builder_AddToScheme :: "'sc registration list \<Rightarrow> 'sc registration"
  clientgo_AddToScheme :: "'sc registration"

definition Cluster_struct :: go_struct where
  "Cluster_struct = GoStruct ''v1alpha1'' ''Cluster''"

definition ClusterList_go_struct :: go_struct where
  "ClusterList_go_struct = GoStruct ''v1alpha1'' ''ClusterList''"

definition addKnownTypes :: "'sc scheme_lib \<Rightarrow> 'sc registration" where
  "addKnownTypes lib scheme =
     (case AddKnownTypes lib SchemeGroupVersion [Cluster_struct, ClusterList_go_struct] scheme of
        None \<Rightarrow> None
      | Some scheme \<Rightarrow>
          (case AddToGroupVersion lib SchemeGroupVersion scheme of
             None \<Rightarrow> None
           | Some scheme \<Rightarrow> Some (None, scheme)))"

definition SchemeBuilder :: "'sc scheme_lib \<Rightarrow> 'sc registration list" where
  "SchemeBuilder lib = [addKnownTypes lib]"

definition v1alpha1_AddToScheme :: "'sc scheme_lib \<Rightarrow> 'sc registration" where
  "v1alpha1_AddToScheme lib = builder_AddToScheme lib (SchemeBuilder lib)"

text \<open>\<^verbatim>\<open>utilruntime.Must\<close> panics with the error.\<close>

definition Must :: "(err option \<times> 'sc) option \<Rightarrow> 'sc option" where
  "Must r = (case r of None \<Rightarrow> None | Some (Some err, _) \<Rightarrow> None | Some (None, scheme) \<Rightarrow> Some scheme)"

definition client_localSchemeBuilder :: "'sc scheme_lib \<Rightarrow> 'sc registration list" where
  "client_localSchemeBuilder lib = [v1alpha1_AddToScheme lib]"

definition client_init :: "'sc scheme_lib \<Rightarrow> 'sc \<Rightarrow> 'sc option" where
  "client_init lib Scheme =
     (case AddToGroupVersion lib \<lparr>gvGroup = [], gvVersion = ''v1''\<rparr> Scheme of
        None \<Rightarrow> None
      | Some Scheme \<Rightarrow> Must (builder_AddToScheme lib (client_localSchemeBuilder lib) Scheme))"

definition fake_localSchemeBuilder :: "'sc scheme_lib \<Rightarrow> 'sc registration list" where
  "fake_localSchemeBuilder lib = [v1alpha1_AddToScheme lib]"

definition fake_init :: "'sc scheme_lib \<Rightarrow> 'sc \<Rightarrow> 'sc option" where
  "fake_init lib scheme =
     (case AddToGroupVersion lib \<lparr>gvGroup = [], gvVersion = ''v1''\<rparr> scheme of
        None \<Rightarrow> None
      | Some scheme \<Rightarrow> Must (builder_AddToScheme lib (fake_localSchemeBuilder lib) scheme))"

definition webhook_init :: "'sc scheme_lib \<Rightarrow> 'sc \<Rightarrow> 'sc option" where
  "webhook_init lib scheme =
     (case Must (clientgo_AddToScheme lib scheme) of
        None \<Rightarrow> None
      | Some scheme \<Rightarrow> Must (v1alpha1_AddToScheme lib scheme))"

section \<open>What apimachinery documents\<close>

text \<open>
  \<open>types sc\<close> is the map from kinds to Go types a scheme holds. A scheme panics when a kind it has is registered
  with another type, and only then: \<open>AddKnownTypes\<close> registers each struct under its name, \<open>AddToGroupVersion\<close> the
  options, watch events and unversioned types of metav1, the map \<open>meta gv\<close>. The latter agree with each other
  whatever the group versions, and none is a cluster. client-go registers its own types, the map \<open>clientgo\<close>: none
  is in the group of this program, and those of metav1 are the same. A builder applies its functions in order and stops at
  an error. Versions are neither empty nor the internal one.
\<close>

type_synonym type_map = "GroupVersionKind \<Rightarrow> go_struct option"

definition agree :: "type_map \<Rightarrow> type_map \<Rightarrow> bool" where
  "agree T U \<longleftrightarrow> (\<forall>k t u. T k = Some t \<longrightarrow> U k = Some u \<longrightarrow> t = u)"

definition external :: "GroupVersion \<Rightarrow> bool" where
  "external gv \<longleftrightarrow> gvVersion gv \<noteq> [] \<and> gvVersion gv \<noteq> ''__internal''"

definition new_types :: "GroupVersion \<Rightarrow> go_struct list \<Rightarrow> type_map" where
  "new_types gv ts k =
     (if gvkGroup k = gvGroup gv \<and> gvkVersion k = gvVersion gv then map_of (map (\<lambda>t. (struct_name t, t)) ts) (gvkKind k) else None)"

fun apply_all :: "'sc registration list \<Rightarrow> 'sc registration" where
  "apply_all [] sc = Some (None, sc)"
| "apply_all (f # fs) sc =
     (case f sc of None \<Rightarrow> None | Some (Some err, sc) \<Rightarrow> Some (Some err, sc) | Some (None, sc) \<Rightarrow> apply_all fs sc)"

text \<open>A registration of the types of \<open>U\<close> panics exactly if one of them conflicts with a type that is there.\<close>

definition registers :: "('sc \<Rightarrow> type_map) \<Rightarrow> type_map \<Rightarrow> 'sc \<Rightarrow> 'sc option \<Rightarrow> bool" where
  "registers types U sc r \<longleftrightarrow>
     (if agree (types sc) U then \<exists>sc'. r = Some sc' \<and> types sc' = types sc ++ U else r = None)"

definition scheme_doc ::
    "'sc scheme_lib \<Rightarrow> ('sc \<Rightarrow> type_map) \<Rightarrow> (GroupVersion \<Rightarrow> type_map) \<Rightarrow> type_map \<Rightarrow> bool" where
  "scheme_doc lib types meta clientgo \<longleftrightarrow>
     types (NewScheme lib) = Map.empty
     \<and> (\<forall>gv ts sc. external gv \<longrightarrow> distinct (map struct_name ts) \<longrightarrow> registers types (new_types gv ts) sc (AddKnownTypes lib gv ts sc))
     \<and> (\<forall>gv sc. external gv \<longrightarrow> registers types (meta gv) sc (AddToGroupVersion lib gv sc))
     \<and> (\<forall>gv gv'. external gv \<longrightarrow> external gv' \<longrightarrow> agree (meta gv) (meta gv'))
     \<and> (\<forall>gv k. gvkKind k \<in> {''Cluster'', ''ClusterList''} \<longrightarrow> meta gv k = None)
     \<and> (\<forall>fs. builder_AddToScheme lib fs = apply_all fs)
     \<and> (\<forall>sc. agree (types sc) clientgo \<longrightarrow>
          (\<exists>sc'. clientgo_AddToScheme lib sc = Some (None, sc') \<and> types sc' = types sc ++ clientgo))
     \<and> (\<forall>k. gvkGroup k = GroupName \<longrightarrow> clientgo k = None)
     \<and> agree clientgo (meta SchemeGroupVersion)"

abbreviation cluster_types :: type_map where
  "cluster_types \<equiv> new_types SchemeGroupVersion [Cluster_struct, ClusterList_go_struct]"

lemma cluster_types_iff:
  "cluster_types k = (if k = WithKind SchemeGroupVersion ''Cluster'' then Some Cluster_struct
     else if k = WithKind SchemeGroupVersion ''ClusterList'' then Some ClusterList_go_struct else None)"
  by (cases k) (auto simp: new_types_def WithKind_def Cluster_struct_def ClusterList_go_struct_def)

lemma agree_empty [simp]: "agree Map.empty U"
  by (simp add: agree_def)

lemma agree_add: "agree T V \<Longrightarrow> agree U V \<Longrightarrow> agree (T ++ U) V"
  by (auto simp: agree_def map_add_def split: option.splits)

lemma agree_self: "agree U U"
  by (simp add: agree_def)

lemma agree_right: "agree (T ++ U) U"
  by (auto simp: agree_def map_add_def split: option.splits)

lemma external_groups: "external SchemeGroupVersion" "external \<lparr>gvGroup = g, gvVersion = ''v1''\<rparr>"
  by (simp_all add: external_def SchemeGroupVersion_def)

lemma distinct_cluster_structs: "distinct (map struct_name [Cluster_struct, ClusterList_go_struct])"
  by (simp add: Cluster_struct_def ClusterList_go_struct_def)

lemma scheme_docD:
  assumes "scheme_doc lib types meta clientgo"
  shows "types (NewScheme lib) = Map.empty"
    and "external gv \<Longrightarrow> distinct (map struct_name ts) \<Longrightarrow> registers types (new_types gv ts) sc (AddKnownTypes lib gv ts sc)"
    and "external gv \<Longrightarrow> registers types (meta gv) sc (AddToGroupVersion lib gv sc)"
    and "external gv \<Longrightarrow> external gv' \<Longrightarrow> agree (meta gv) (meta gv')"
    and "gvkKind k \<in> {''Cluster'', ''ClusterList''} \<Longrightarrow> meta gv k = None"
    and "builder_AddToScheme lib fs = apply_all fs"
    and "agree (types sc) clientgo \<Longrightarrow>
      \<exists>sc'. clientgo_AddToScheme lib sc = Some (None, sc') \<and> types sc' = types sc ++ clientgo"
    and "gvkGroup j = GroupName \<Longrightarrow> clientgo j = None"
    and "agree clientgo (meta SchemeGroupVersion)"
  using assms unfolding scheme_doc_def by simp_all (elim conjE, blast)

lemma registersD:
  assumes "registers types U sc r" and "agree (types sc) U"
  obtains sc' where "r = Some sc'" and "types sc' = types sc ++ U"
  using assms unfolding registers_def by auto

text \<open>
  Adding the types succeeds on every scheme that has no other types under their kinds, and adds just them; on a
  scheme that has another cluster type it panics.
\<close>

lemma agree_clusters_meta: "scheme_doc lib types meta clientgo \<Longrightarrow> agree cluster_types (meta gv)"
  using scheme_docD(5) [of lib types meta clientgo] by (auto simp: agree_def cluster_types_iff WithKind_def)

lemma AddToScheme_types:
  assumes d: "scheme_doc lib types meta clientgo"
    and free: "agree (types sc) cluster_types" "agree (types sc) (meta SchemeGroupVersion)"
  shows "\<exists>sc'. v1alpha1_AddToScheme lib sc = Some (None, sc') \<and> types sc' = types sc ++ cluster_types ++ meta SchemeGroupVersion"
proof -
  note doc = scheme_docD [OF d]
  obtain s1 where 1: "AddKnownTypes lib SchemeGroupVersion [Cluster_struct, ClusterList_go_struct] sc = Some s1"
    "types s1 = types sc ++ cluster_types"
    by (rule registersD [OF doc(2) [OF external_groups(1) distinct_cluster_structs] free(1)])
  have "agree (types s1) (meta SchemeGroupVersion)"
    unfolding 1(2) by (rule agree_add [OF free(2) agree_clusters_meta [OF d]])
  then obtain s2 where 2: "AddToGroupVersion lib SchemeGroupVersion s1 = Some s2" "types s2 = types s1 ++ meta SchemeGroupVersion"
    by (rule registersD [OF doc(3) [OF external_groups(1)]])
  show ?thesis using 1 2 by (simp add: v1alpha1_AddToScheme_def SchemeBuilder_def doc(6) addKnownTypes_def)
qed

lemma AddToScheme_conflict:
  assumes d: "scheme_doc lib types meta clientgo" and "\<not> agree (types sc) cluster_types"
  shows "v1alpha1_AddToScheme lib sc = None"
proof -
  have "AddKnownTypes lib SchemeGroupVersion [Cluster_struct, ClusterList_go_struct] sc = None"
    using scheme_docD(2) [OF d external_groups(1) distinct_cluster_structs, of sc] assms(2) by (simp add: registers_def)
  then show ?thesis by (simp add: v1alpha1_AddToScheme_def SchemeBuilder_def scheme_docD(6) [OF d] addKnownTypes_def)
qed

lemma registered_kinds:
  assumes d: "scheme_doc lib types meta clientgo" and "types sc' = T ++ cluster_types ++ meta SchemeGroupVersion"
  shows "types sc' (WithKind SchemeGroupVersion ''Cluster'') = Some Cluster_struct"
    and "types sc' (WithKind SchemeGroupVersion ''ClusterList'') = Some ClusterList_go_struct"
  using scheme_docD(5) [OF d, of _ SchemeGroupVersion]
  by (simp_all add: assms(2) map_add_def cluster_types_iff WithKind_def)

lemma cluster_types_cases:
  "cluster_types k = Some t \<Longrightarrow> gvkGroup k = GroupName \<and> gvkKind k \<in> {''Cluster'', ''ClusterList''}"
  unfolding cluster_types_iff by (auto simp: WithKind_def SchemeGroupVersion_def split: if_splits)

lemma client_init_types:
  assumes d: "scheme_doc lib types meta clientgo"
  shows "\<exists>sc. client_init lib (NewScheme lib) = Some sc
    \<and> types sc = meta \<lparr>gvGroup = [], gvVersion = ''v1''\<rparr> ++ cluster_types ++ meta SchemeGroupVersion"
proof -
  note doc = scheme_docD [OF d]
  let ?v1 = "\<lparr>gvGroup = [], gvVersion = ''v1''\<rparr>"
  obtain s1 where 1: "AddToGroupVersion lib ?v1 (NewScheme lib) = Some s1" "types s1 = meta ?v1"
    by (rule registersD [OF doc(3) [OF external_groups(2) [of "[]"], of "NewScheme lib"]]) (simp_all add: doc(1))
  have "agree (types s1) cluster_types"
    using doc(5) [of _ ?v1] cluster_types_cases by (fastforce simp: 1(2) agree_def)
  moreover have "agree (types s1) (meta SchemeGroupVersion)" unfolding 1(2) by (rule doc(4) [OF external_groups(2,1)])
  ultimately obtain s2 where 2: "v1alpha1_AddToScheme lib s1 = Some (None, s2)"
    "types s2 = types s1 ++ cluster_types ++ meta SchemeGroupVersion" using AddToScheme_types [OF d] by blast
  show ?thesis using 1 2 by (simp add: client_init_def client_localSchemeBuilder_def doc(6) Must_def)
qed

lemma webhook_init_types:
  assumes d: "scheme_doc lib types meta clientgo"
  shows "\<exists>sc. webhook_init lib (NewScheme lib) = Some sc \<and> types sc = clientgo ++ cluster_types ++ meta SchemeGroupVersion"
proof -
  note doc = scheme_docD [OF d]
  obtain s3 where 3: "clientgo_AddToScheme lib (NewScheme lib) = Some (None, s3)" "types s3 = clientgo"
    using doc(7) [of "NewScheme lib"] doc(1) by auto
  have "agree (types s3) cluster_types" using doc(8) cluster_types_cases by (fastforce simp: 3(2) agree_def)
  moreover have "agree (types s3) (meta SchemeGroupVersion)" unfolding 3(2) by (rule doc(9))
  ultimately obtain s4 where 4: "v1alpha1_AddToScheme lib s3 = Some (None, s4)"
    "types s4 = types s3 ++ cluster_types ++ meta SchemeGroupVersion" using AddToScheme_types [OF d] by blast
  show ?thesis using 3 4 by (simp add: webhook_init_def Must_def)
qed

lemma fake_init_client: "fake_init lib sc = client_init lib sc"
  unfolding fake_init_def client_init_def client_localSchemeBuilder_def fake_localSchemeBuilder_def ..

text \<open>
  C34: All schemes of the program know the resource. Although a scheme panics when a kind is registered with two
  types, the \<^verbatim>\<open>init\<close> functions of the clientset, of the fake clientset and of the webhook process end without a
  panic; in each scheme the kinds \<^verbatim>\<open>Cluster\<close> and \<^verbatim>\<open>ClusterList\<close> of the group are the Go types of the API package,
  the clientset and its fake know the same types, among them the kind the fake lists clusters as, and adding the
  types to a scheme again, as composed clientsets do, succeeds and changes nothing. Adding them to a scheme that
  has another type for one of the kinds panics.
\<close>

theorem schemes_know_clusters:
  assumes "scheme_doc lib types meta clientgo"
  shows "(\<exists>sc scf scw. client_init lib (NewScheme lib) = Some sc \<and> fake_init lib (NewScheme lib) = Some scf
      \<and> webhook_init lib (NewScheme lib) = Some scw \<and> types scf = types sc
      \<and> list_all (\<lambda>s. types s (WithKind SchemeGroupVersion ''Cluster'') = Some Cluster_struct
          \<and> types s (WithKind SchemeGroupVersion ''ClusterList'') = Some ClusterList_go_struct) [sc, scf, scw]
      \<and> types scf clustersKind = Some Cluster_struct
      \<and> (\<exists>again. v1alpha1_AddToScheme lib sc = Some (None, again) \<and> types again = types sc))
    \<and> (\<forall>sc t. (types sc (WithKind SchemeGroupVersion ''Cluster'') = Some t \<and> t \<noteq> Cluster_struct
        \<or> types sc (WithKind SchemeGroupVersion ''ClusterList'') = Some t \<and> t \<noteq> ClusterList_go_struct) \<longrightarrow>
          v1alpha1_AddToScheme lib sc = None)"
proof (intro conjI allI impI)
  obtain sc where c: "client_init lib (NewScheme lib) = Some sc"
    "types sc = meta \<lparr>gvGroup = [], gvVersion = ''v1''\<rparr> ++ cluster_types ++ meta SchemeGroupVersion"
    using client_init_types [OF assms] by blast
  obtain scw where w: "webhook_init lib (NewScheme lib) = Some scw" "types scw = clientgo ++ cluster_types ++ meta SchemeGroupVersion"
    using webhook_init_types [OF assms] by blast
  note rc = registered_kinds [where types = types, OF assms c(2)] and rw = registered_kinds [where types = types, OF assms w(2)]
  have "agree (types sc) cluster_types" using rc by (auto simp: agree_def cluster_types_iff split: if_splits)
  moreover have "agree (types sc) (meta SchemeGroupVersion)" unfolding c(2) by (rule agree_right)
  ultimately obtain again where a: "v1alpha1_AddToScheme lib sc = Some (None, again)"
    "types again = types sc ++ cluster_types ++ meta SchemeGroupVersion" using AddToScheme_types [OF assms] by blast
  have "types again = types sc" unfolding a(2) c(2) by (auto simp: fun_eq_iff map_add_def split: option.split)
  moreover have "clustersKind = WithKind SchemeGroupVersion ''Cluster''"
    by (simp add: clustersKind_def WithKind_def SchemeGroupVersion_def GroupName_def)
  ultimately show "\<exists>sc scf scw. client_init lib (NewScheme lib) = Some sc \<and> fake_init lib (NewScheme lib) = Some scf
      \<and> webhook_init lib (NewScheme lib) = Some scw \<and> types scf = types sc
      \<and> list_all (\<lambda>s. types s (WithKind SchemeGroupVersion ''Cluster'') = Some Cluster_struct
          \<and> types s (WithKind SchemeGroupVersion ''ClusterList'') = Some ClusterList_go_struct) [sc, scf, scw]
      \<and> types scf clustersKind = Some Cluster_struct
      \<and> (\<exists>again. v1alpha1_AddToScheme lib sc = Some (None, again) \<and> types again = types sc)"
    using c(1) w(1) a(1) rc rw by (intro exI [of _ sc] exI [of _ scw]) (simp add: fake_init_client)
next
  fix sc t
  assume c: "types sc (WithKind SchemeGroupVersion ''Cluster'') = Some t \<and> t \<noteq> Cluster_struct
    \<or> types sc (WithKind SchemeGroupVersion ''ClusterList'') = Some t \<and> t \<noteq> ClusterList_go_struct"
  have "cluster_types (WithKind SchemeGroupVersion ''Cluster'') = Some Cluster_struct"
    "cluster_types (WithKind SchemeGroupVersion ''ClusterList'') = Some ClusterList_go_struct"
    by (simp_all add: cluster_types_iff WithKind_def)
  with c have "\<not> agree (types sc) cluster_types" unfolding agree_def by blast
  then show "v1alpha1_AddToScheme lib sc = None" by (rule AddToScheme_conflict [OF assms])
qed

text \<open>A scheme that is the map itself.\<close>

type_synonym demo_scheme = type_map

definition demo_meta_types :: "GroupVersion \<Rightarrow> demo_scheme" where
  "demo_meta_types gv k = (if k = WithKind gv ''ListOptions'' then Some (GoStruct ''metav1'' ''ListOptions'') else None)"

definition demo_clientgo :: demo_scheme where
  "demo_clientgo = [\<lparr>gvkGroup = [], gvkVersion = ''v1'', gvkKind = ''Pod''\<rparr> \<mapsto> GoStruct ''v1'' ''Pod'']"

definition demo_scheme_lib :: "demo_scheme scheme_lib" where
  "demo_scheme_lib =
     (let register = \<lambda>U sc. if agree sc U then Some (sc ++ U) else None
      in \<lparr>NewScheme = Map.empty,
          AddKnownTypes = (\<lambda>gv ts. register (new_types gv ts)),
          AddToGroupVersion = (\<lambda>gv. register (demo_meta_types gv)),
          builder_AddToScheme = apply_all,
          clientgo_AddToScheme = (\<lambda>sc. map_option (Pair None) (register demo_clientgo sc))\<rparr>)"

lemma demo_scheme_doc: "scheme_doc demo_scheme_lib (\<lambda>sc. sc) demo_meta_types demo_clientgo"
  unfolding scheme_doc_def
  by (auto simp: demo_scheme_lib_def registers_def agree_def demo_meta_types_def demo_clientgo_def WithKind_def
      SchemeGroupVersion_def GroupName_def split: if_splits)

theorem schemes_know_clusters_witness:
  "\<exists>sc. client_init demo_scheme_lib Map.empty = Some sc
     \<and> sc \<lparr>gvkGroup = ''kopilot.smartx.com'', gvkVersion = ''v1alpha1'', gvkKind = ''Cluster''\<rparr> = Some (GoStruct ''v1alpha1'' ''Cluster'')"
proof -
  have n: "NewScheme demo_scheme_lib = Map.empty" by (simp add: demo_scheme_lib_def)
  from schemes_know_clusters [OF demo_scheme_doc, unfolded n, THEN conjunct1]
  show ?thesis by (auto simp: WithKind_def SchemeGroupVersion_def GroupName_def Cluster_struct_def)
qed

end
