(* ===== verification/Informers.thy ===== *)
theory Informers
  imports Rest_Client
begin

text \<open>
  \<^verbatim>\<open>src/pkg/client/informers/externalversions\<close> and \<^verbatim>\<open>src/pkg/client/listers\<close>: the factory that shares
  one informer per type, the informer of clusters it makes, and the listers that read from its cache.

  Go types are identified by name. An informer of client-go is the address of one, allocated by
  \<open>NewSharedIndexInformer\<close>; \<^verbatim>\<open>go informer.Run(stopCh)\<close> is recorded in the world as a pair of the informer
  and the stop channel. Each method of the factory holds its lock throughout, so it is one step.
\<close>

section \<open>The factory\<close>

type_synonym go_type = string
type_synonym informer = nat
type_synonym stop_chan = nat

text \<open>
  The client of the factory is \<open>'c\<close>. A tweak of the list options is a function on them. The map of
  custom resync periods is given as the list of its entries in the order they are ranged over.
\<close>

record 'c sharedInformerFactory =
  factoryClient :: 'c
  factoryNamespace :: string
  tweakListOptions :: "(list_options \<Rightarrow> list_options) option"
  defaultResync :: duration
  customResync :: "go_type \<Rightarrow> duration option"
  informers :: "go_type \<Rightarrow> informer option"
  startedInformers :: "go_type \<Rightarrow> bool"

type_synonym 'c factory_option = "'c sharedInformerFactory \<Rightarrow> 'c sharedInformerFactory"

definition WithCustomResyncConfig :: "(go_type \<times> duration) list \<Rightarrow> 'c factory_option" where
  "WithCustomResyncConfig resyncConfig factory =
     fold (\<lambda>(k, v) f. f\<lparr>customResync := (customResync f)(k \<mapsto> v)\<rparr>) resyncConfig factory"

definition WithTweakListOptions :: "(list_options \<Rightarrow> list_options) option \<Rightarrow> 'c factory_option" where
  "WithTweakListOptions tweak factory = factory\<lparr>tweakListOptions := tweak\<rparr>"

definition WithNamespace :: "string \<Rightarrow> 'c factory_option" where
  "WithNamespace namespace factory = factory\<lparr>factoryNamespace := namespace\<rparr>"

definition NewSharedInformerFactoryWithOptions :: "'c \<Rightarrow> duration \<Rightarrow> 'c factory_option list \<Rightarrow> 'c sharedInformerFactory" where
  "NewSharedInformerFactoryWithOptions client resync options =
     fold (\<lambda>opt factory. opt factory) options
       \<lparr>factoryClient = client, factoryNamespace = [], tweakListOptions = None, defaultResync = resync,
        customResync = Map.empty, informers = Map.empty, startedInformers = (\<lambda>_. False)\<rparr>"

definition NewSharedInformerFactory :: "'c \<Rightarrow> duration \<Rightarrow> 'c sharedInformerFactory" where
  "NewSharedInformerFactory client resync = NewSharedInformerFactoryWithOptions client resync []"

definition NewFilteredSharedInformerFactory ::
    "'c \<Rightarrow> duration \<Rightarrow> string \<Rightarrow> (list_options \<Rightarrow> list_options) option \<Rightarrow> 'c sharedInformerFactory" where
  "NewFilteredSharedInformerFactory client resync namespace tweak =
     NewSharedInformerFactoryWithOptions client resync [WithNamespace namespace, WithTweakListOptions tweak]"

text \<open>
  \<open>Start\<close> ranges over the map of informers. The order of a range is not specified: it is the parameter
  \<open>order\<close>, of which \<open>range_order\<close> says that it lists the keys of the map once each.
\<close>

definition range_order :: "('k \<Rightarrow> 'v option) \<Rightarrow> 'k list \<Rightarrow> bool" where
  "range_order m order \<longleftrightarrow> distinct order \<and> set order = dom m"

type_synonym runs = "(informer \<times> stop_chan) list"

definition start_one :: "stop_chan \<Rightarrow> go_type \<Rightarrow> 'c sharedInformerFactory \<times> runs \<Rightarrow> 'c sharedInformerFactory \<times> runs" where
  "start_one stopCh informerType st =
     (let (f, rs) = st in
      case informers f informerType of
        None \<Rightarrow> (f, rs)
      | Some informer \<Rightarrow>
          (if \<not> startedInformers f informerType
           then (f\<lparr>startedInformers := (startedInformers f)(informerType := True)\<rparr>, rs @ [(informer, stopCh)])
           else (f, rs)))"

definition factory_Start :: "stop_chan \<Rightarrow> go_type list \<Rightarrow> 'c sharedInformerFactory \<times> runs \<Rightarrow> 'c sharedInformerFactory \<times> runs" where
  "factory_Start stopCh order st = fold (start_one stopCh) order st"

text \<open>\<open>sync stopCh i\<close> is \<^verbatim>\<open>cache.WaitForCacheSync(stopCh, informer.HasSynced)\<close>.\<close>

definition factory_WaitForCacheSync :: "(stop_chan \<Rightarrow> informer \<Rightarrow> bool) \<Rightarrow> stop_chan \<Rightarrow> 'c sharedInformerFactory \<Rightarrow> (go_type \<Rightarrow> bool option)" where
  "factory_WaitForCacheSync sync stopCh f =
     (let started = (\<lambda>t. if startedInformers f t then informers f t else None)
      in (\<lambda>t. map_option (sync stopCh) (started t)))"

text \<open>
  \<open>InformerFor\<close> hands out the informer of a type and makes it with \<open>newFunc\<close> the first time. Making one
  allocates it: \<open>'w\<close> is the world it is allocated in.
\<close>

definition factory_InformerFor ::
    "go_type \<Rightarrow> ('c \<Rightarrow> duration \<Rightarrow> 'w \<Rightarrow> informer \<times> 'w) \<Rightarrow> 'c sharedInformerFactory \<times> 'w \<Rightarrow> informer \<times> 'c sharedInformerFactory \<times> 'w" where
  "factory_InformerFor informerType newFunc st =
     (let (f, w) = st in
      case informers f informerType of
        Some informer \<Rightarrow> (informer, f, w)
      | None \<Rightarrow>
          let resyncPeriod = (case customResync f informerType of None \<Rightarrow> defaultResync f | Some d \<Rightarrow> d);
              (informer, w) = newFunc (factoryClient f) resyncPeriod w
          in (informer, f\<lparr>informers := (informers f)(informerType \<mapsto> informer)\<rparr>, w))"

section \<open>The informer of clusters\<close>

text \<open>The record of functions a cluster informer is made of, as \<^verbatim>\<open>cache.NewSharedIndexInformer\<close> takes them.\<close>

record ('l, 'i, 's) ListWatch =
  ListFunc :: "list_options \<Rightarrow> 's \<Rightarrow> 'l \<times> 's"
  WatchFunc :: "list_options \<Rightarrow> 's \<Rightarrow> 'i res \<times> 's"

definition tweaked :: "(list_options \<Rightarrow> list_options) option \<Rightarrow> list_options \<Rightarrow> list_options" where
  "tweaked tweak opts = (case tweak of None \<Rightarrow> opts | Some t \<Rightarrow> t opts)"

type_synonym ('m, 'l, 'o, 'r, 'i, 's, 'd) cluster_clientset =
  "(('m, 'l, 'o, 'r, 'i, 's) rest_client, 'd) Clientset"

definition cluster_ListWatch ::
    "('m, 'l, 'o, 'r, 'i, 's, 'd) cluster_clientset \<Rightarrow> string \<Rightarrow> (list_options \<Rightarrow> list_options) option \<Rightarrow>
       (('m, 'l) ClusterList \<times> err option, 'i, 's) ListWatch" where
  "cluster_ListWatch client namespace tweak =
     \<lparr>ListFunc = (\<lambda>options. clusters_List (KopilotV1alpha1_Clusters (KopilotV1alpha1 client) namespace) (tweaked tweak options)),
      WatchFunc = (\<lambda>options. clusters_Watch (KopilotV1alpha1_Clusters (KopilotV1alpha1 client) namespace) (tweaked tweak options))\<rparr>"

text \<open>\<open>new lw exampleType resync indexers\<close> is \<^verbatim>\<open>cache.NewSharedIndexInformer\<close>; indexers are names.\<close>

type_synonym ('m, 'l, 'i, 's, 'w) new_informer =
  "(('m, 'l) ClusterList \<times> err option, 'i, 's) ListWatch \<Rightarrow> go_type \<Rightarrow> duration \<Rightarrow> string list \<Rightarrow> 'w \<Rightarrow> informer \<times> 'w"

definition NewFilteredClusterInformer ::
    "('m, 'l, 'i, 's, 'w) new_informer \<Rightarrow> ('m, 'l, 'o, 'r, 'i, 's, 'd) cluster_clientset \<Rightarrow> string \<Rightarrow> duration \<Rightarrow> string list \<Rightarrow>
       (list_options \<Rightarrow> list_options) option \<Rightarrow> 'w \<Rightarrow> informer \<times> 'w" where
  "NewFilteredClusterInformer new client namespace resyncPeriod indexers tweak =
     new (cluster_ListWatch client namespace tweak) ''*v1alpha1.Cluster'' resyncPeriod indexers"

definition NewClusterInformer ::
    "('m, 'l, 'i, 's, 'w) new_informer \<Rightarrow> ('m, 'l, 'o, 'r, 'i, 's, 'd) cluster_clientset \<Rightarrow> string \<Rightarrow> duration \<Rightarrow> string list \<Rightarrow>
       'w \<Rightarrow> informer \<times> 'w" where
  "NewClusterInformer new client namespace resyncPeriod indexers =
     NewFilteredClusterInformer new client namespace resyncPeriod indexers None"

record clusterInformer =
  ciTweakListOptions :: "(list_options \<Rightarrow> list_options) option"
  ciNamespace :: string

definition defaultInformer ::
    "('m, 'l, 'i, 's, 'w) new_informer \<Rightarrow> clusterInformer \<Rightarrow> ('m, 'l, 'o, 'r, 'i, 's, 'd) cluster_clientset \<Rightarrow> duration \<Rightarrow>
       'w \<Rightarrow> informer \<times> 'w" where
  "defaultInformer new f client resyncPeriod =
     NewFilteredClusterInformer new client (ciNamespace f) resyncPeriod [''namespace''] (ciTweakListOptions f)"

text \<open>
  \<^verbatim>\<open>factory.Kopilot().V1alpha1().Clusters()\<close>: the interfaces of the group and of its version, each a struct
  that passes namespace and tweak on (\<^verbatim>\<open>kopilot/interface.go\<close>, \<^verbatim>\<open>kopilot/v1alpha1/interface.go\<close>). Their field
  \<^verbatim>\<open>factory\<close> points to the factory, which is the state here.
\<close>

record kopilot_group =
  groupNamespace :: string
  groupTweakListOptions :: "(list_options \<Rightarrow> list_options) option"

record kopilot_version =
  versionNamespace :: string
  versionTweakListOptions :: "(list_options \<Rightarrow> list_options) option"

definition kopilot_New :: "string \<Rightarrow> (list_options \<Rightarrow> list_options) option \<Rightarrow> kopilot_group" where
  "kopilot_New namespace tweak = \<lparr>groupNamespace = namespace, groupTweakListOptions = tweak\<rparr>"

definition kopilot_v1alpha1_New :: "string \<Rightarrow> (list_options \<Rightarrow> list_options) option \<Rightarrow> kopilot_version" where
  "kopilot_v1alpha1_New namespace tweak = \<lparr>versionNamespace = namespace, versionTweakListOptions = tweak\<rparr>"

definition group_V1alpha1 :: "kopilot_group \<Rightarrow> kopilot_version" where
  "group_V1alpha1 g = kopilot_v1alpha1_New (groupNamespace g) (groupTweakListOptions g)"

definition version_Clusters :: "kopilot_version \<Rightarrow> clusterInformer" where
  "version_Clusters v = \<lparr>ciTweakListOptions = versionTweakListOptions v, ciNamespace = versionNamespace v\<rparr>"

definition factory_Kopilot :: "'c sharedInformerFactory \<Rightarrow> kopilot_group" where
  "factory_Kopilot f = kopilot_New (factoryNamespace f) (tweakListOptions f)"

abbreviation factory_Clusters :: "'c sharedInformerFactory \<Rightarrow> clusterInformer" where
  "factory_Clusters f \<equiv> version_Clusters (group_V1alpha1 (factory_Kopilot f))"

lemma factory_Clusters_fields [simp]:
  "ciNamespace (factory_Clusters f) = factoryNamespace f" "ciTweakListOptions (factory_Clusters f) = tweakListOptions f"
  by (simp_all add: version_Clusters_def group_V1alpha1_def kopilot_v1alpha1_New_def factory_Kopilot_def kopilot_New_def)

definition clusterInformer_Informer ::
    "('m, 'l, 'i, 's, 'w) new_informer \<Rightarrow> clusterInformer \<Rightarrow>
       ('m, 'l, 'o, 'r, 'i, 's, 'd) cluster_clientset sharedInformerFactory \<times> 'w \<Rightarrow>
       informer \<times> ('m, 'l, 'o, 'r, 'i, 's, 'd) cluster_clientset sharedInformerFactory \<times> 'w" where
  "clusterInformer_Informer new f st = factory_InformerFor ''*v1alpha1.Cluster'' (defaultInformer new f) st"

text \<open>\<open>ForResource\<close> knows one resource.\<close>

record genericInformer =
  giInformer :: informer
  giGroup :: string
  giResource :: string

definition factory_ForResource ::
    "('m, 'l, 'i, 's, 'w) new_informer \<Rightarrow> GroupVersionResource \<Rightarrow> (GroupVersionResource \<Rightarrow> string) \<Rightarrow>
       ('m, 'l, 'o, 'r, 'i, 's, 'd) cluster_clientset sharedInformerFactory \<times> 'w \<Rightarrow>
       genericInformer res \<times> ('m, 'l, 'o, 'r, 'i, 's, 'd) cluster_clientset sharedInformerFactory \<times> 'w" where
  "factory_ForResource new resource show_gvr st =
     (if resource = WithResource SchemeGroupVersion ''clusters''
      then let (i, st) = clusterInformer_Informer new (factory_Clusters (fst st)) st
           in (Inr \<lparr>giInformer = i, giGroup = gvrGroup resource, giResource = gvrResource resource\<rparr>, st)
      else (Inl (errors_New (''no informer found for '' @ show_gvr resource)), st))"

definition genericInformer_Informer :: "genericInformer \<Rightarrow> informer" where
  "genericInformer_Informer f = giInformer f"

text \<open>\<open>getIndexer\<close> and \<open>newGenericLister\<close> belong to client-go.\<close>

definition genericInformer_Lister :: "(informer \<Rightarrow> 'ix) \<Rightarrow> ('ix \<Rightarrow> string \<Rightarrow> string \<Rightarrow> 'gl) \<Rightarrow> genericInformer \<Rightarrow> 'gl" where
  "genericInformer_Lister getIndexer newGenericLister f =
     newGenericLister (getIndexer (genericInformer_Informer f)) (giGroup f) (giResource f)"

section \<open>What a range over the informers does\<close>

lemma Start_distinct:
  "distinct order \<Longrightarrow> factory_Start c order (f, rs) =
    (f\<lparr>startedInformers := (\<lambda>t. startedInformers f t \<or> (t \<in> set order \<and> informers f t \<noteq> None))\<rparr>,
     rs @ map (\<lambda>t. (the (informers f t), c)) (filter (\<lambda>t. informers f t \<noteq> None \<and> \<not> startedInformers f t) order))"
proof (induction order arbitrary: f rs)
  case Nil
  then show ?case by (simp add: factory_Start_def)
next
  case (Cons t order)
  let ?f = "if informers f t \<noteq> None then f\<lparr>startedInformers := (startedInformers f)(t := True)\<rparr> else f"
  let ?rs = "if informers f t \<noteq> None \<and> \<not> startedInformers f t then rs @ [(the (informers f t), c)] else rs"
  have "f\<lparr>startedInformers := (startedInformers f)(t := True)\<rparr> = f" if "startedInformers f t"
    using that by (simp add: fun_upd_idem)
  then have "start_one c t (f, rs) = (?f, ?rs)"
    by (auto simp: start_one_def split: option.split)
  then have "factory_Start c (t # order) (f, rs) = factory_Start c order (?f, ?rs)"
    by (simp add: factory_Start_def)
  moreover have "filter (\<lambda>u. informers ?f u \<noteq> None \<and> \<not> startedInformers ?f u) order =
      filter (\<lambda>u. informers f u \<noteq> None \<and> \<not> startedInformers f u) order"
    using Cons.prems by (intro filter_cong) auto
  moreover have "(\<lambda>u. startedInformers ?f u \<or> (u \<in> set order \<and> informers ?f u \<noteq> None)) =
      (\<lambda>u. startedInformers f u \<or> (u \<in> set (t # order) \<and> informers f u \<noteq> None))"
    by auto
  ultimately show ?case using Cons.IH [of ?f ?rs] Cons.prems by simp
qed

lemma Start_range:
  "range_order (informers f) order \<Longrightarrow> factory_Start c order (f, rs) =
    (f\<lparr>startedInformers := (\<lambda>t. startedInformers f t \<or> informers f t \<noteq> None)\<rparr>,
     rs @ map (\<lambda>t. (the (informers f t), c)) (filter (\<lambda>t. \<not> startedInformers f t) order))"
proof -
  assume r: "range_order (informers f) order"
  then have "(\<lambda>t. startedInformers f t \<or> (t \<in> set order \<and> informers f t \<noteq> None)) =
      (\<lambda>t. startedInformers f t \<or> informers f t \<noteq> None)"
    and "filter (\<lambda>t. informers f t \<noteq> None \<and> \<not> startedInformers f t) order = filter (\<lambda>t. \<not> startedInformers f t) order"
    by (auto simp: range_order_def dom_def intro!: filter_cong)
  with r show ?thesis by (simp add: Start_distinct range_order_def)
qed

section \<open>The interface\<close>

text \<open>
  The Go interface \<^verbatim>\<open>internalinterfaces.SharedInformerFactory\<close> as the informers of a type rely on it:
  \<open>known\<close> is the informer a factory has for a type. \<open>'n\<close> is the function that makes one.
\<close>

locale shared_informer_factory =
  fixes informer_for :: "go_type \<Rightarrow> 'n \<Rightarrow> 's \<Rightarrow> informer \<times> 's"
    and known :: "'s \<Rightarrow> go_type \<Rightarrow> informer option"
  assumes known_again: "known s t = Some i \<Longrightarrow> informer_for t new s = (i, s)"
    and known_after: "informer_for t new s = (i, s') \<Longrightarrow> known s' t = Some i"
    and known_other: "informer_for t new s = (i, s') \<Longrightarrow> u \<noteq> t \<Longrightarrow> known s' u = known s u"
begin

text \<open>Asking keeps what is known, so the second answer is the first one, and costs nothing.\<close>

lemma keeps_known: "informer_for t new s = (i, s') \<Longrightarrow> known s u = Some j \<Longrightarrow> known s' u = Some j"
  by (metis known_again known_other prod.inject)

lemma shared: "informer_for t new s = (i, s') \<Longrightarrow> informer_for t new' s' = (i, s')"
  by (rule known_again) (rule known_after)

lemma shared_between:
  "informer_for t new s = (i, s') \<Longrightarrow> informer_for u new' s' = (j, s'') \<Longrightarrow> informer_for t new'' s'' = (i, s'')"
  by (metis keeps_known known_after known_again)

end

interpretation fac: shared_informer_factory factory_InformerFor "\<lambda>(f, w). informers f"
proof unfold_locales
  fix t i and s s' :: "'c sharedInformerFactory \<times> 'w" and new :: "'c \<Rightarrow> duration \<Rightarrow> 'w \<Rightarrow> informer \<times> 'w" and u
  show "(\<lambda>(f, w). informers f) s t = Some i \<Longrightarrow> factory_InformerFor t new s = (i, s)"
    by (auto simp: factory_InformerFor_def split: prod.splits)
  assume a: "factory_InformerFor t new s = (i, s')"
  then show "(\<lambda>(f, w). informers f) s' t = Some i"
    by (auto simp: factory_InformerFor_def Let_def split: prod.splits option.splits)
  from a show "u \<noteq> t \<Longrightarrow> (\<lambda>(f, w). informers f) s' u = (\<lambda>(f, w). informers f) s u"
    by (auto simp: factory_InformerFor_def Let_def split: prod.splits option.splits)
qed

section \<open>Every interleaving\<close>

text \<open>
  The methods of a factory, called in any order: an informer made anew has an address that no other
  informer of the factory has; a range may run in any order.
\<close>

inductive factory_step ::
    "('c sharedInformerFactory \<times> 'w) \<times> runs \<Rightarrow> ('c sharedInformerFactory \<times> 'w) \<times> runs \<Rightarrow> bool" where
  informer_for: "factory_InformerFor t new (f, w) = (i, f', w') \<Longrightarrow> (informers f t = None \<longrightarrow> i \<notin> ran (informers f)) \<Longrightarrow>
     factory_step ((f, w), rs) ((f', w'), rs)"
| start_all: "range_order (informers f) order \<Longrightarrow> factory_Start c order (f, rs) = (f', rs') \<Longrightarrow>
     factory_step ((f, w), rs) ((f', w), rs')"

inductive factory_reachable :: "('c sharedInformerFactory \<times> 'w) \<times> runs \<Rightarrow> bool" where
  start: "informers f = Map.empty \<Longrightarrow> startedInformers f = (\<lambda>_. False) \<Longrightarrow> factory_reachable ((f, w), [])"
| step: "factory_reachable a \<Longrightarrow> factory_step a b \<Longrightarrow> factory_reachable b"

definition factory_inv :: "'c sharedInformerFactory \<times> runs \<Rightarrow> bool" where
  "factory_inv a \<longleftrightarrow> (let (f, rs) = a in
     (\<forall>t u i. informers f t = Some i \<and> informers f u = Some i \<longrightarrow> t = u) \<and> distinct (map fst rs)
     \<and> (\<forall>i. i \<in> fst ` set rs \<longleftrightarrow> (\<exists>t. informers f t = Some i \<and> startedInformers f t))
     \<and> (\<forall>t. startedInformers f t \<longrightarrow> informers f t \<noteq> None))"

lemma factory_invI:
  assumes "\<And>t u i. informers f t = Some i \<Longrightarrow> informers f u = Some i \<Longrightarrow> t = u" and "distinct (map fst rs)"
    and "\<And>i. i \<in> fst ` set rs \<longleftrightarrow> (\<exists>t. informers f t = Some i \<and> startedInformers f t)"
    and "\<And>t. startedInformers f t \<Longrightarrow> informers f t \<noteq> None"
  shows "factory_inv (f, rs)"
  using assms by (simp add: factory_inv_def) metis

lemma factory_invD:
  assumes "factory_inv (f, rs)"
  shows "informers f t = Some i \<Longrightarrow> informers f u = Some i \<Longrightarrow> t = u" and "distinct (map fst rs)"
    and "i \<in> fst ` set rs \<longleftrightarrow> (\<exists>t. informers f t = Some i \<and> startedInformers f t)"
    and "startedInformers f t \<Longrightarrow> informers f t \<noteq> None"
  using assms unfolding factory_inv_def Let_def prod.case by (elim conjE; simp)+

lemma factory_inv_informer:
  assumes "factory_InformerFor t new (f, w) = (i, f', w')" and "informers f t = None \<longrightarrow> i \<notin> ran (informers f)"
    and "factory_inv (f, rs)"
  shows "factory_inv (f', rs)"
proof (cases "informers f t")
  case (Some j)
  with assms show ?thesis by (simp add: factory_InformerFor_def)
next
  case None
  note inv = factory_invD [OF assms(3)]
  from None assms(1) have f': "informers f' = (informers f)(t \<mapsto> i)" "startedInformers f' = startedInformers f"
    by (auto simp: factory_InformerFor_def Let_def split: prod.splits)
  from None assms(2) have new: "informers f u \<noteq> Some i" for u by (auto simp: ran_def)
  have un: "\<not> startedInformers f t" using None inv(4) by blast
  show ?thesis
  proof (rule factory_invI)
    show "u = v" if "informers f' u = Some k" "informers f' v = Some k" for u v k
      using that new inv(1) [of u k v] by (auto simp: f' split: if_splits)
    show "k \<in> fst ` set rs \<longleftrightarrow> (\<exists>u. informers f' u = Some k \<and> startedInformers f' u)" for k
      unfolding inv(3) f' using un None by (metis fun_upd_other)
    show "informers f' u \<noteq> None" if "startedInformers f' u" for u
      using that inv(4) by (simp add: f')
  qed (rule inv(2))
qed

lemma distinct_appendI: "distinct ys \<Longrightarrow> (\<And>x. x \<in> set xs \<Longrightarrow> x \<notin> set ys) \<Longrightarrow> distinct xs \<Longrightarrow> distinct (xs @ ys)"
  by auto

text \<open>What a call of \<open>Start\<close> adds to the runs: informers of the factory, each once, none of which runs yet.\<close>

lemma new_runs:
  assumes r: "range_order (informers f) order" and "factory_inv (f, rs)"
  defines "new \<equiv> filter (\<lambda>t. \<not> startedInformers f t) order"
  shows "t \<in> set new \<longleftrightarrow> informers f t \<noteq> None \<and> \<not> startedInformers f t"
    and "t \<in> set new \<Longrightarrow> informers f t = Some (the (informers f t))"
    and "distinct (map (\<lambda>t. the (informers f t)) new)"
    and "t \<in> set new \<Longrightarrow> the (informers f t) \<notin> fst ` set rs"
proof -
  note inv = factory_invD [OF assms(2)]
  have o: "distinct new" and n: "u \<in> set new \<longleftrightarrow> informers f u \<noteq> None \<and> \<not> startedInformers f u" for u
    using r by (auto simp: range_order_def new_def)
  have some: "informers f u = Some (the (informers f u))" if "u \<in> set new" for u
    using that n [of u] by (cases "informers f u") simp_all
  have same: "u = v" if "informers f v = Some (the (informers f u))" "u \<in> set new" for u v
    by (rule inv(1) [OF some [OF that(2)] that(1)])
  show "t \<in> set new \<longleftrightarrow> informers f t \<noteq> None \<and> \<not> startedInformers f t" by (rule n)
  show "informers f t = Some (the (informers f t))" if "t \<in> set new" by (rule some [OF that])
  have "inj_on (\<lambda>t. the (informers f t)) (set new)"
    by (rule inj_onI, rule same) (use some in metis)+
  with o show "distinct (map (\<lambda>t. the (informers f t)) new)" unfolding distinct_map by blast
  show "the (informers f t) \<notin> fst ` set rs" if t: "t \<in> set new"
  proof
    assume "the (informers f t) \<in> fst ` set rs"
    then obtain u where u: "informers f u = Some (the (informers f t))" "startedInformers f u" using inv(3) by blast
    from same [OF u(1) t] u(2) t n [of t] show False by simp
  qed
qed

lemma factory_inv_start:
  assumes r: "range_order (informers f) order" and "factory_inv (f, rs)"
    and s: "factory_Start c order (f, rs) = (f', rs')"
  shows "factory_inv (f', rs')"
proof -
  note inv = factory_invD [OF assms(2)] and new = new_runs [OF r assms(2)]
  let ?new = "filter (\<lambda>t. \<not> startedInformers f t) order" and ?id = "\<lambda>t. the (informers f t)"
  have f': "informers f' = informers f" "startedInformers f' = (\<lambda>t. startedInformers f t \<or> informers f t \<noteq> None)"
    and rs': "rs' = rs @ map (\<lambda>t. (?id t, c)) ?new"
    using s [unfolded Start_range [OF r]] by auto
  have runs: "fst ` set rs' = fst ` set rs \<union> ?id ` set ?new"
    by (simp add: rs' image_Un image_image del: set_filter)
  show ?thesis
  proof (rule factory_invI)
    have "x \<notin> set (map ?id ?new)" if "x \<in> set (map fst rs)" for x
      using new(4) that unfolding set_map by blast
    then have "distinct (map fst rs @ map ?id ?new)" using inv(2) new(3) by (intro distinct_appendI)
    then show "distinct (map fst rs')" by (simp only: rs' map_append map_map comp_def fst_conv)
    show "i \<in> fst ` set rs' \<longleftrightarrow> (\<exists>t. informers f' t = Some i \<and> startedInformers f' t)" for i
    proof
      assume "i \<in> fst ` set rs'"
      then show "\<exists>t. informers f' t = Some i \<and> startedInformers f' t"
        unfolding runs f' using inv(3) [of i] new(2) by blast
    next
      assume "\<exists>t. informers f' t = Some i \<and> startedInformers f' t"
      then obtain t where t: "informers f t = Some i" by (auto simp: f')
      then have "i \<in> fst ` set rs \<or> t \<in> set ?new" using inv(3) new(1) [of t] by blast
      moreover have "i = ?id t" using t by simp
      ultimately show "i \<in> fst ` set rs'" unfolding runs by blast
    qed
  qed (use inv(1,4) in \<open>auto simp: f'\<close>)
qed

lemma factory_reachable_inv: "factory_reachable a \<Longrightarrow> factory_inv (fst (fst a), snd a)"
proof (induction rule: factory_reachable.induct)
  case (start f w)
  then show ?case by (simp add: factory_inv_def)
next
  case (step a b)
  from step(2,3) show ?case
  proof (induction rule: factory_step.induct)
    case (informer_for t new f w i f' w' rs)
    then show ?case using factory_inv_informer [of t new f w i f' w' rs] by simp
  next
    case (start_all f order c rs f' rs' w)
    then show ?case using factory_inv_start [of f order rs c f' rs'] by simp
  qed
qed

section \<open>Properties\<close>

text \<open>
  C38: However the methods of a factory interleave, every informer runs at most once, exactly the
  informers of started types run, and \<open>WaitForCacheSync\<close> waits for exactly the informers that run: for
  no type whose informer nobody started, which would never sync.
\<close>

theorem informers_run_once:
  assumes "factory_reachable ((f, w), rs)"
  shows "distinct (map fst rs) \<and> (\<forall>i. i \<in> fst ` set rs \<longleftrightarrow> (\<exists>t. informers f t = Some i \<and> startedInformers f t))
    \<and> (\<forall>sync c t b. factory_WaitForCacheSync sync c f t = Some b
         \<longleftrightarrow> (\<exists>i. informers f t = Some i \<and> i \<in> fst ` set rs \<and> b = sync c i))"
proof -
  have inv: "factory_inv (f, rs)" using factory_reachable_inv [OF assms] by simp
  note d = factory_invD [OF inv]
  have "i \<in> fst ` set rs \<longleftrightarrow> startedInformers f t" if i: "informers f t = Some i" for i t
  proof
    assume "i \<in> fst ` set rs"
    then obtain u where u: "informers f u = Some i" "startedInformers f u" using d(3) [of i] by blast
    from d(1) [OF i u(1)] u(2) show "startedInformers f t" by simp
  next
    assume "startedInformers f t"
    with i show "i \<in> fst ` set rs" using d(3) [of i] by blast
  qed
  then have "factory_WaitForCacheSync sync c f t = Some b
         \<longleftrightarrow> (\<exists>i. informers f t = Some i \<and> i \<in> fst ` set rs \<and> b = sync c i)" for sync c t b
    by (auto simp: factory_WaitForCacheSync_def Let_def)
  then show ?thesis using d(2,3) by blast
qed

definition demo_factory :: "unit sharedInformerFactory" where
  "demo_factory = NewSharedInformerFactory () 0"

definition demo_new :: "unit \<Rightarrow> duration \<Rightarrow> nat \<Rightarrow> informer \<times> nat" where
  "demo_new c d n = (n, Suc n)"

theorem informers_run_once_witness:
  "distinct (map fst (snd (factory_Start 9 [''*v1alpha1.Cluster''] (factory_Start 8 [''*v1alpha1.Cluster'']
     (fst (snd (factory_InformerFor ''*v1alpha1.Cluster'' demo_new (demo_factory, 0))), [])))))"
proof -
  let ?t = "''*v1alpha1.Cluster''"
  obtain i f w where a: "factory_InformerFor ?t demo_new (demo_factory, 0 :: nat) = (i, f, w)" by (metis surj_pair)
  have n: "informers demo_factory = Map.empty" "startedInformers demo_factory = (\<lambda>_. False)"
    by (simp_all add: demo_factory_def NewSharedInformerFactory_def NewSharedInformerFactoryWithOptions_def)
  have r1: "factory_reachable ((f, w), [])"
    by (rule factory_reachable.step [OF factory_reachable.start factory_step.informer_for [OF a]]) (simp_all add: n)
  have d: "dom (informers f) = {?t}"
    using a n by (auto simp: factory_InformerFor_def Let_def split: prod.splits if_splits)
  then have o: "range_order (informers f) [?t]" by (simp add: range_order_def)
  obtain g rs where b: "factory_Start 8 [?t] (f, []) = (g, rs)" by fastforce
  have r2: "factory_reachable ((g, w), rs)"
    by (rule factory_reachable.step [OF r1 factory_step.start_all [OF o b]])
  have "informers g = informers f" using b Start_range [OF o, of 8 "[]"] by auto
  with o have o2: "range_order (informers g) [?t]" by simp
  obtain h rs2 where c: "factory_Start 9 [?t] (g, rs) = (h, rs2)" by fastforce
  have "factory_reachable ((h, w), rs2)"
    by (rule factory_reachable.step [OF r2 factory_step.start_all [OF o2 c]])
  from informers_run_once [OF this] show ?thesis by (simp add: a b c)
qed

text \<open>
  \<open>Start\<close> may be called again: when it has been called, all informers of the factory are started,
  and a second call, in whatever order it ranges and with whatever channel, runs nothing more.
\<close>

lemma Start_idempotent:
  assumes "range_order (informers f) order" and "range_order (informers f) order'"
  shows "factory_Start c' order' (factory_Start c order (f, rs)) = factory_Start c order (f, rs)
    \<and> (\<forall>t. informers f t \<noteq> None \<longrightarrow> startedInformers (fst (factory_Start c order (f, rs))) t)"
proof -
  let ?f = "f\<lparr>startedInformers := (\<lambda>t. startedInformers f t \<or> informers f t \<noteq> None)\<rparr>"
  have o: "range_order (informers ?f) order'" using assms(2) by simp
  have "filter (\<lambda>t. \<not> startedInformers ?f t) order' = []"
    using assms(2) by (auto simp: range_order_def filter_empty_conv)
  then show ?thesis
    by (simp only: Start_range [OF assms(1)] Start_range [OF o] fst_conv) simp
qed

text \<open>
  There is one informer of clusters per factory. Whoever asks for it, by the typed accessor or by
  its resource, before or after informers of other types are made, gets the one that was made first.
\<close>

lemma cluster_informer_shared:
  assumes "clusterInformer_Informer new f st = (i, st1)" and "factory_InformerFor t new' st1 = (j, st2)"
  shows "clusterInformer_Informer new'' f' st2 = (i, st2)
    \<and> factory_ForResource new'' (WithResource SchemeGroupVersion ''clusters'') show_gvr st2 =
        (Inr \<lparr>giInformer = i, giGroup = ''kopilot.smartx.com'', giResource = ''clusters''\<rparr>, st2)"
proof -
  have "factory_InformerFor ''*v1alpha1.Cluster'' new0 st2 = (i, st2)" for new0
    by (rule fac.shared_between [OF assms(1) [unfolded clusterInformer_Informer_def] assms(2)])
  then show ?thesis
    by (simp add: clusterInformer_Informer_def factory_ForResource_def WithResource_def SchemeGroupVersion_def GroupName_def)
qed

definition demo_index :: "(unit, unit, string, nat, nat) new_informer" where
  "demo_index lw t d is n = (n, Suc n)"

definition demo_clientset :: "(unit, unit, unit, nat, string, nat, unit) cluster_clientset" where
  "demo_clientset = \<lparr>DiscoveryClient = (), kopilotV1alpha1 = \<lparr>v1alpha1RestClient = demo_rest\<rparr>\<rparr>"

lemma fold_resync:
  fixes f :: "'a sharedInformerFactory"
  shows "distinct (map fst cfg) \<Longrightarrow> fold (\<lambda>(k, v) f. f\<lparr>customResync := (customResync f)(k \<mapsto> v)\<rparr>) cfg f =
     f\<lparr>customResync := customResync f ++ map_of cfg\<rparr>"
proof (induction cfg arbitrary: f)
  case Nil
  then show ?case by simp
next
  case (Cons p cfg)
  obtain k v where p: "p = (k, v)" by fastforce
  let ?step = "\<lambda>(k, v) f. f\<lparr>customResync := (customResync f)(k \<mapsto> v)\<rparr> :: 'a sharedInformerFactory"
  have m: "(customResync f)(k \<mapsto> v) ++ map_of cfg = customResync f ++ map_of (p # cfg)"
  proof -
    have "map_of cfg k = None" using Cons.prems p by (simp add: map_of_eq_None_iff)
    then show ?thesis unfolding p by (auto simp: fun_eq_iff map_add_def split: option.split)
  qed
  have "fold ?step (p # cfg) f = fold ?step cfg (f\<lparr>customResync := (customResync f)(k \<mapsto> v)\<rparr>)"
    by (simp only: fold_simps p prod.case)
  also have "\<dots> = f\<lparr>customResync := (customResync f)(k \<mapsto> v) ++ map_of cfg\<rparr>"
    using Cons.prems by (subst Cons.IH) simp_all
  finally show ?case by (simp only: m)
qed

text \<open>
  What the options of a factory mean for its informer of clusters. It lists and watches the clusters of
  the factory's namespace, with the caller's options put through the tweak, and is resynchronised after the
  custom period of the type or else the default one. The key set of a Go map is distinct.
\<close>

lemma factory_options_reach_informer:
  assumes "distinct (map fst cfg)"
    and "f = NewSharedInformerFactoryWithOptions client resync [WithCustomResyncConfig cfg, WithNamespace n, WithTweakListOptions tweak]"
  shows "\<exists>lw. clusterInformer_Informer new (factory_Clusters f) (f, w) =
      (let (i, w') = new lw ''*v1alpha1.Cluster'' (case map_of cfg ''*v1alpha1.Cluster'' of None \<Rightarrow> resync | Some d \<Rightarrow> d) [''namespace''] w
       in (i, f\<lparr>informers := [''*v1alpha1.Cluster'' \<mapsto> i]\<rparr>, w'))
    \<and> (\<forall>opts s. ListFunc lw opts s =
        (let rc = v1alpha1RestClient (KopilotV1alpha1 client); opts = (case tweak of None \<Rightarrow> opts | Some t \<Rightarrow> t opts);
             (r, s') = Do rc GET [CNamespace n, CResource ''clusters'', CListParams opts, CTimeout (list_timeout opts)] s
         in (IntoList rc r (zeroClusterList rc), s')))
    \<and> (\<forall>opts s. WatchFunc lw opts s =
        (let rc = v1alpha1RestClient (KopilotV1alpha1 client); opts = (case tweak of None \<Rightarrow> opts | Some t \<Rightarrow> t opts)
         in DoWatch rc GET [CNamespace n, CResource ''clusters'', CListParams (opts\<lparr>optWatch := True\<rparr>), CTimeout (list_timeout opts)] s))"
proof -
  have f: "factoryNamespace f = n" "tweakListOptions f = tweak" "factoryClient f = client" "defaultResync f = resync"
    "customResync f = map_of cfg" "informers f = Map.empty"
    unfolding assms(2) NewSharedInformerFactoryWithOptions_def WithCustomResyncConfig_def WithNamespace_def WithTweakListOptions_def
    by (simp_all add: fold_resync [OF assms(1)])
  show ?thesis
    by (intro exI [of _ "cluster_ListWatch client n tweak"] conjI)
       (simp_all add: clusterInformer_Informer_def factory_InformerFor_def defaultInformer_def NewFilteredClusterInformer_def f
          cluster_ListWatch_def clusters_List_def clusters_Watch_def KopilotV1alpha1_Clusters_def newClusters_def tweaked_def Let_def
          split: prod.split option.split)
qed

end
