(* ===== verification/Listers.thy ===== *)
theory Listers
  imports Informers Session_Manager
begin

text \<open>
  \<^verbatim>\<open>src/pkg/client/listers/kopilot/v1alpha1/cluster.go\<close>: the listers that read clusters from the cache
  of an informer. The cache is an indexer of client-go, the parameter \<open>ix\<close>: \<open>ListAll\<close> and
  \<open>ListAllByNamespace\<close> call a function on each selected object, \<open>GetByKey\<close> looks one up. Its objects
  \<open>'o\<close> have any type; asserting that one is a cluster panics if it is not, and a panic is \<open>None\<close>.
\<close>

section \<open>The indexer\<close>

record ('o, 'sel) indexer =
  ListAll :: "'sel \<Rightarrow> 'o list \<times> err option"
  ListAllByNamespace :: "string \<Rightarrow> 'sel \<Rightarrow> 'o list \<times> err option"
  GetByKey :: "string \<Rightarrow> 'o option res"

text \<open>
  The functions of \<open>cache\<close> that take a callback are modelled by the objects they call it on, in that
  order; \<open>append_clusters\<close> is the callback of both lists.
\<close>

fun append_clusters :: "('o \<Rightarrow> 'm Cluster option) \<Rightarrow> 'o list \<Rightarrow> 'm Cluster list \<Rightarrow> 'm Cluster list option" where
  "append_clusters as_cluster [] ret = Some ret"
| "append_clusters as_cluster (m # ms) ret =
     (case as_cluster m of None \<Rightarrow> None | Some cl \<Rightarrow> append_clusters as_cluster ms (ret @ [cl]))"

section \<open>The listers\<close>

record ('o, 'sel) clusterLister =
  listerIndexer :: "('o, 'sel) indexer"

record ('o, 'sel) clusterNamespaceLister =
  nsIndexer :: "('o, 'sel) indexer"
  nsNamespace :: string

definition NewClusterLister :: "('o, 'sel) indexer \<Rightarrow> ('o, 'sel) clusterLister" where
  "NewClusterLister ix = \<lparr>listerIndexer = ix\<rparr>"

definition lister_List ::
    "('o \<Rightarrow> 'm Cluster option) \<Rightarrow> ('o, 'sel) clusterLister \<Rightarrow> 'sel \<Rightarrow> ('m Cluster list \<times> err option) option" where
  "lister_List as_cluster s selector =
     (let (ms, err) = ListAll (listerIndexer s) selector
      in map_option (\<lambda>ret. (ret, err)) (append_clusters as_cluster ms []))"

definition lister_Clusters :: "('o, 'sel) clusterLister \<Rightarrow> string \<Rightarrow> ('o, 'sel) clusterNamespaceLister" where
  "lister_Clusters s namespace = \<lparr>nsIndexer = listerIndexer s, nsNamespace = namespace\<rparr>"

definition nsLister_List ::
    "('o \<Rightarrow> 'm Cluster option) \<Rightarrow> ('o, 'sel) clusterNamespaceLister \<Rightarrow> 'sel \<Rightarrow> ('m Cluster list \<times> err option) option" where
  "nsLister_List as_cluster s selector =
     (let (ms, err) = ListAllByNamespace (nsIndexer s) (nsNamespace s) selector
      in map_option (\<lambda>ret. (ret, err)) (append_clusters as_cluster ms []))"

text \<open>\<open>NotFound group resource name\<close> is \<^verbatim>\<open>errors.NewNotFound\<close>.\<close>

definition nsLister_Get ::
    "(string \<Rightarrow> string \<Rightarrow> string \<Rightarrow> err) \<Rightarrow> ('o \<Rightarrow> 'm Cluster option) \<Rightarrow> ('o, 'sel) clusterNamespaceLister \<Rightarrow> string \<Rightarrow>
       'm Cluster res option" where
  "nsLister_Get NewNotFound as_cluster s name =
     (case GetByKey (nsIndexer s) (nsNamespace s @ ''/'' @ name) of
        Inl err \<Rightarrow> Some (Inl err)
      | Inr None \<Rightarrow> Some (Inl (NewNotFound (gvGroup SchemeGroupVersion) ''cluster'' name))
      | Inr (Some obj) \<Rightarrow> map_option Inr (as_cluster obj))"

text \<open>\<^verbatim>\<open>clusterInformer.Lister\<close>: the lister over the cache of the shared informer.\<close>

definition clusterInformer_Lister ::
    "(informer \<Rightarrow> ('ob, 'sel) indexer) \<Rightarrow> ('m, 'l, 'i, 's, 'w) new_informer \<Rightarrow> clusterInformer \<Rightarrow>
       ('m, 'l, 'o, 'r, 'i, 's, 'd) cluster_clientset sharedInformerFactory \<times> 'w \<Rightarrow>
       ('ob, 'sel) clusterLister \<times> ('m, 'l, 'o, 'r, 'i, 's, 'd) cluster_clientset sharedInformerFactory \<times> 'w" where
  "clusterInformer_Lister getIndexer new f st =
     (let (informer, st) = clusterInformer_Informer new f st in (NewClusterLister (getIndexer informer), st))"

section \<open>A cache of clusters\<close>

text \<open>
  The cache of a cluster informer, as client-go documents it: a store of clusters, each under its key
  (\<^verbatim>\<open>MetaNamespaceKeyFunc\<close>). \<open>ListAll\<close> and \<open>ListAllByNamespace\<close> visit the selected ones in the order of a Go
  map, which is any; the empty namespace, \<^verbatim>\<open>NamespaceAll\<close>, is that of all. \<open>key_of\<close> reads namespace and name from
  the metadata, \<open>sel\<close> says which clusters a selector matches.
\<close>

definition MetaNamespaceKey :: "NamespacedName \<Rightarrow> string" where
  "MetaNamespaceKey k = (if Namespace k = [] then Name k else Namespace k @ ''/'' @ Name k)"

definition in_namespace :: "('m \<Rightarrow> NamespacedName) \<Rightarrow> string \<Rightarrow> 'm Cluster \<Rightarrow> bool" where
  "in_namespace key_of n cl \<longleftrightarrow> n = [] \<or> Namespace (key_of (ObjectMeta cl)) = n"

definition cluster_cache ::
    "('m \<Rightarrow> NamespacedName) \<Rightarrow> ('sel \<Rightarrow> 'm Cluster \<Rightarrow> bool) \<Rightarrow> 'm Cluster list \<Rightarrow> ('m Cluster, 'sel) indexer \<Rightarrow> bool" where
  "cluster_cache key_of sel cls ix \<longleftrightarrow>
     distinct (map (\<lambda>cl. MetaNamespaceKey (key_of (ObjectMeta cl))) cls)
     \<and> (\<forall>q. \<exists>ms. ListAll ix q = (ms, None) \<and> mset ms = mset (filter (sel q) cls))
     \<and> (\<forall>n q. \<exists>ms. ListAllByNamespace ix n q = (ms, None) \<and> mset ms = mset (filter (in_namespace key_of n) (filter (sel q) cls)))
     \<and> (\<forall>k. GetByKey ix k = Inr (find (\<lambda>cl. MetaNamespaceKey (key_of (ObjectMeta cl)) = k) cls))"

text \<open>A cluster is a namespaced resource: its namespace is not empty, and has no slash.\<close>

definition namespaced :: "('m \<Rightarrow> NamespacedName) \<Rightarrow> 'm Cluster \<Rightarrow> bool" where
  "namespaced key_of cl \<longleftrightarrow>
     Namespace (key_of (ObjectMeta cl)) \<noteq> [] \<and> CHR ''/'' \<notin> set (Namespace (key_of (ObjectMeta cl)))"

lemma append_clusters_all: "append_clusters Some ms ret = Some (ret @ ms)"
  by (induction ms arbitrary: ret) simp_all

lemma slash_key_inj:
  "CHR ''/'' \<notin> set a \<Longrightarrow> CHR ''/'' \<notin> set c \<Longrightarrow> a @ ''/'' @ b = c @ ''/'' @ d \<longleftrightarrow> a = c \<and> b = d"
proof (induction a arbitrary: c)
  case Nil
  then show ?case by (cases c) auto
next
  case (Cons x a)
  then show ?case by (cases c) auto
qed

lemma MetaNamespaceKey_lookup:
  assumes "namespaced key_of cl" and "CHR ''/'' \<notin> set n"
  shows "MetaNamespaceKey (key_of (ObjectMeta cl)) = n @ ''/'' @ name \<longleftrightarrow> key_of (ObjectMeta cl) = \<lparr>Namespace = n, Name = name\<rparr>"
proof -
  have "Namespace (key_of (ObjectMeta cl)) @ ''/'' @ Name (key_of (ObjectMeta cl)) = n @ ''/'' @ name \<longleftrightarrow>
      Namespace (key_of (ObjectMeta cl)) = n \<and> Name (key_of (ObjectMeta cl)) = name"
    by (rule slash_key_inj) (use assms in \<open>simp_all add: namespaced_def\<close>)
  with assms(1) show ?thesis
    by (cases "key_of (ObjectMeta cl)") (simp add: namespaced_def MetaNamespaceKey_def)
qed

section \<open>Properties\<close>

text \<open>
  A lister reads the cache. \<open>List\<close> answers the selected clusters, all of them or those of its
  namespace, each once; \<open>Get\<close> answers the cluster with the namespace of the lister and the given name, and a
  not-found error exactly if the cache has none. Namespaces have no slash, so no other cluster has
  the key it looks up.
\<close>

lemma lister_List_cache:
  "cluster_cache key_of sel cls ix \<Longrightarrow>
     \<exists>ms. lister_List Some (NewClusterLister ix) q = Some (ms, None) \<and> mset ms = mset (filter (sel q) cls)"
  unfolding cluster_cache_def lister_List_def NewClusterLister_def
  by (elim conjE allE [of _ q] exE) (simp add: append_clusters_all)

lemma nsLister_List_cache:
  "cluster_cache key_of sel cls ix \<Longrightarrow>
     \<exists>ms. nsLister_List Some (lister_Clusters (NewClusterLister ix) n) q = Some (ms, None)
       \<and> mset ms = mset (filter (in_namespace key_of n) (filter (sel q) cls))"
  unfolding cluster_cache_def nsLister_List_def lister_Clusters_def NewClusterLister_def
  by (elim conjE allE [of _ n] allE [of _ q] exE) (simp add: append_clusters_all)

lemma nsLister_Get_cache:
  assumes "cluster_cache key_of sel cls ix" and "\<forall>cl \<in> set cls. namespaced key_of cl" and "CHR ''/'' \<notin> set n"
  shows "nsLister_Get nf Some (lister_Clusters (NewClusterLister ix) n) name =
        Some (case find (\<lambda>cl. key_of (ObjectMeta cl) = \<lparr>Namespace = n, Name = name\<rparr>) cls of
                None \<Rightarrow> Inl (nf ''kopilot.smartx.com'' ''cluster'' name) | Some cl \<Rightarrow> Inr cl)"
proof -
  have "find (\<lambda>cl. MetaNamespaceKey (key_of (ObjectMeta cl)) = n @ ''/'' @ name) cls =
      find (\<lambda>cl. key_of (ObjectMeta cl) = \<lparr>Namespace = n, Name = name\<rparr>) cls"
    using MetaNamespaceKey_lookup [OF _ assms(3)] assms(2) by (intro find_cong refl) blast
  then have g: "GetByKey ix (n @ ''/'' @ name) = Inr (find (\<lambda>cl. key_of (ObjectMeta cl) = \<lparr>Namespace = n, Name = name\<rparr>) cls)"
    using assms(1) unfolding cluster_cache_def by simp
  show ?thesis
    unfolding nsLister_Get_def lister_Clusters_def NewClusterLister_def
    by (simp only: indexer.simps clusterLister.simps clusterNamespaceLister.simps g)
       (simp add: SchemeGroupVersion_def GroupName_def split: option.split)
qed

end
