(* ===== verification/Session_Liveness.thy ===== *)
theory Session_Liveness
  imports Session_Manager
begin

text \<open>
  Which clusters a hub can reach. Sessions die while the hub runs, and die unnoticed: the session manager
  learns of it when it next dials. With what \<^verbatim>\<open>yamux\<close> documents of \<^verbatim>\<open>Open\<close> and \<^verbatim>\<open>Close\<close>, stated relative to the
  state of the world, dialling a cluster succeeds exactly when one of the sessions its agents have ever
  registered is alive (\<open>cluster_reachable_iff\<close>).
\<close>

section \<open>Sessions that are alive\<close>

text \<open>
  \<open>alive w s\<close>: in the world \<open>w\<close> a stream can be opened on the session. \<^verbatim>\<open>Open\<close> finds out and changes nothing
  about it, and closing a dead session does no harm to others.
\<close>

definition yamux_doc :: "'w yamux \<Rightarrow> ('w \<Rightarrow> session \<Rightarrow> bool) \<Rightarrow> bool" where
  "yamux_doc yx alive \<longleftrightarrow>
     (\<forall>s w. (\<exists>c w'. Open yx s w = (Inr c, w')) \<longleftrightarrow> alive w s)
     \<and> (\<forall>s w res w'. Open yx s w = (res, w') \<longrightarrow> alive w' = alive w)
     \<and> (\<forall>s w. \<not> alive w s \<longrightarrow> alive (Close yx s w) = alive w)"

lemma yamux_docD:
  assumes "yamux_doc yx alive"
  shows "Open yx s w = (Inr c, w') \<Longrightarrow> alive w s" and "Open yx s w = (Inl e, w') \<Longrightarrow> \<not> alive w s"
    and "Open yx s w = (res, w') \<Longrightarrow> alive w' = alive w" and "\<not> alive w s \<Longrightarrow> alive (Close yx s w) = alive w"
proof -
  note d = assms [unfolded yamux_doc_def]
  show "Open yx s w = (Inr c, w') \<Longrightarrow> alive w s" using d [THEN conjunct1] by blast
  show "Open yx s w = (Inl e, w') \<Longrightarrow> \<not> alive w s" using d [THEN conjunct1, rule_format, of s w] by auto
  show "Open yx s w = (res, w') \<Longrightarrow> alive w' = alive w" using d [THEN conjunct2, THEN conjunct1] by blast
  show "\<not> alive w s \<Longrightarrow> alive (Close yx s w) = alive w" using d [THEN conjunct2, THEN conjunct2] by blast
qed

text \<open>A dial finds a living session if there is one, drops only dead ones, and kills none.\<close>

lemma dial_spec_alive:
  assumes "yamux_doc yx alive" and "dial_spec yx cid M w res M' w'"
  shows "((\<exists>c. res = Inr c) \<longleftrightarrow> (\<exists>s. s \<in># M \<and> alive w s)) \<and> alive w' = alive w
    \<and> filter_mset (alive w) M' = filter_mset (alive w) M"
  using assms(2)
proof (induction rule: dial_spec.induct)
  case (exhausted w)
  then show ?case by simp
next
  case (opened s M w c w')
  then show ?case using yamux_docD(1,3) [OF assms(1) opened(2)] by blast
next
  case (dropped s M w e w1 res M' w')
  have d: "\<not> alive w s" and "alive w1 = alive w" using yamux_docD(2,3) [OF assms(1) dropped.hyps(2)] by blast+
  then have w: "alive (Close yx s w1) = alive w" using yamux_docD(4) [OF assms(1)] by simp
  have "(\<exists>t. t \<in># M - {#s#} \<and> alive w t) \<longleftrightarrow> (\<exists>t. t \<in># M \<and> alive w t)"
    using d dropped.hyps(1) by (metis in_diffD insert_DiffM insert_noteq_member)
  moreover have "filter_mset (alive w) (M - {#s#}) = filter_mset (alive w) M" using d by simp
  ultimately show ?case using dropped.IH w by simp
qed

text \<open>The stream that is handed out is one of a session that is alive and stays registered.\<close>

lemma dial_spec_opened_alive:
  assumes "yamux_doc yx alive" and "dial_spec yx cid M w res M' w'"
  shows "res = Inr c \<Longrightarrow> \<exists>s w0. s \<in># M \<and> alive w s \<and> Open yx s w0 = (Inr c, w')"
  using assms(2)
proof (induction rule: dial_spec.induct)
  case (opened s M w c' w')
  then show ?case using yamux_docD(1) [OF assms(1) opened(2)] by blast
next
  case (dropped s M w e w1 res M' w')
  have "\<not> alive w s" and "alive w1 = alive w" using yamux_docD(2,3) [OF assms(1) dropped.hyps(2)] by blast+
  then have "alive (Close yx s w1) = alive w" using yamux_docD(4) [OF assms(1)] by simp
  with dropped show ?case by (metis in_diffD)
qed simp

section \<open>The sessions of a running hub\<close>

text \<open>
  The steps of a hub as in \<open>hub_step\<close>, where the world changes as it may: agents come and go, but a
  registered session that has died stays dead.
\<close>

inductive live_step ::
    "(NamespacedName \<Rightarrow> string) \<Rightarrow> 'w yamux \<Rightarrow> ('w \<Rightarrow> session \<Rightarrow> bool) \<Rightarrow> 'w hub \<times> (string \<times> session) list \<Rightarrow>
       'w hub \<times> (string \<times> session) list \<Rightarrow> bool"
  for ks yx alive where
  register: "live_step ks yx alive (h, log) (add_session ks k s h, (ks k, s) # log)"
| dial: "DialCluster ks yx k h = (r, h') \<Longrightarrow> live_step ks yx alive (h, log) (h', log)"
| elsewhere: "(\<And>s. s \<in> snd ` set log \<Longrightarrow> alive w s \<Longrightarrow> alive (world h) s) \<Longrightarrow>
     live_step ks yx alive (h, log) (h\<lparr>world := w\<rparr>, log)"

inductive live_reachable ::
    "(NamespacedName \<Rightarrow> string) \<Rightarrow> 'w yamux \<Rightarrow> ('w \<Rightarrow> session \<Rightarrow> bool) \<Rightarrow> 'w hub \<times> (string \<times> session) list \<Rightarrow> bool"
  for ks yx alive where
  start: "live_reachable ks yx alive (\<lparr>mgr = NewSessionManager, rand = r, world = w\<rparr>, [])"
| step: "live_reachable ks yx alive a \<Longrightarrow> live_step ks yx alive a b \<Longrightarrow> live_reachable ks yx alive b"

text \<open>They are steps of \<open>hub_step\<close>, with the ids in the log in place of the keys.\<close>

lemma live_hub_reachable:
  "live_reachable ks yx alive a \<Longrightarrow> \<exists>log. hub_reachable ks yx (fst a, log) \<and> snd a = map (map_prod ks (\<lambda>s. s)) log"
proof (induction rule: live_reachable.induct)
  case (start r w)
  show ?case by (intro exI [of _ "[]"]) (simp add: hub_reachable.start)
next
  case (step a b)
  then obtain log where l: "hub_reachable ks yx (fst a, log)" "snd a = map (map_prod ks (\<lambda>s. s)) log" by blast
  from step.hyps(2) l show ?case
  proof (induction rule: live_step.induct)
    case (register h lg k s)
    then show ?case by (intro exI [of _ "(k, s) # log"]) (auto intro: hub_reachable.step hub_step.register)
  qed (auto intro: hub_reachable.step hub_step.dial hub_step.elsewhere)
qed

lemma live_held:
  assumes "live_reachable ks yx alive a" and "s \<in># held (fst a) cid"
  shows "(cid, s) \<in> set (snd a)"
proof -
  obtain log where l: "hub_reachable ks yx (fst a, log)" "snd a = map (map_prod ks (\<lambda>s. s)) log"
    using live_hub_reachable [OF assms(1)] by blast
  have "s \<in># logged ks log cid"
    using mset_subset_eqD assms(2) hub_reachable_inv [OF l(1)] unfolding hub_inv_def by fastforce
  with l(2) show ?thesis by (force simp: logged_mem)
qed

text \<open>No living session is ever lost.\<close>

definition none_lost :: "('w \<Rightarrow> session \<Rightarrow> bool) \<Rightarrow> 'w hub \<times> (string \<times> session) list \<Rightarrow> bool" where
  "none_lost alive a \<longleftrightarrow>
     (\<forall>cid s. (cid, s) \<in> set (snd a) \<longrightarrow> alive (world (fst a)) s \<longrightarrow> s \<in># held (fst a) cid)"

lemma none_lost_step:
  assumes "yamux_doc yx alive"
  shows "live_step ks yx alive a b \<Longrightarrow> none_lost alive a \<Longrightarrow> none_lost alive b"
proof (induction rule: live_step.induct)
  case (register h log k s)
  then show ?case
    unfolding none_lost_def by (auto simp: sm.add_held) (simp_all add: add_session_def)
next
  case (dial k h r h' log)
  note d = dial_spec_alive [OF assms sm.dial_held [OF dial.hyps]]
  show ?case
    unfolding none_lost_def fst_conv snd_conv
  proof (intro allI impI)
    fix cid s
    assume m: "(cid, s) \<in> set log" and al: "alive (world h') s"
    then have h: "s \<in># held h cid" and al: "alive (world h) s"
      using dial.prems d unfolding none_lost_def by auto
    show "s \<in># held h' cid"
    proof (cases "cid = ks k")
      case True
      then have "s \<in># filter_mset (alive (world h)) (held h' (ks k))" using d h al by simp
      with True show ?thesis by simp
    next
      case False
      then show ?thesis using h sm.dial_other [OF dial.hyps False] by simp
    qed
  qed
next
  case (elsewhere log w h)
  then show ?case unfolding none_lost_def by (force simp: held_def)
qed

lemma none_lost_reachable:
  assumes "yamux_doc yx alive"
  shows "live_reachable ks yx alive a \<Longrightarrow> none_lost alive a"
proof (induction rule: live_reachable.induct)
  case (start r w)
  then show ?case by (simp add: none_lost_def)
qed (rule none_lost_step [OF assms])

section \<open>Sessions nobody dials\<close>

text \<open>
  A session that has died is removed by a dial that happens to try it, and by nothing else. An agent that connects
  again and again, each time after its session has died, leaves a hub that nobody asks for its cluster with one
  dead session more each time.
\<close>

lemma dead_sessions_accumulate:
  assumes "\<And>s. \<exists>w. \<forall>t. alive w t \<longleftrightarrow> t = s" and "\<exists>w. \<forall>t. \<not> alive w t"
  shows "\<exists>h log. live_reachable ks yx alive (h, log) \<and> size (held h (ks k)) = n \<and> (\<forall>t. \<not> alive (world h) t)
    \<and> snd ` set log = {..<n}"
proof (induction n)
  case 0
  obtain w where "\<forall>t. \<not> alive w t" using assms(2) by blast
  with live_reachable.start [of ks yx alive "sconst 0" w] show ?case
    by (intro exI conjI) (assumption, simp_all add: held_def sessions_def NewSessionManager_def)
next
  case (Suc n)
  then obtain h log where h: "live_reachable ks yx alive (h, log)" "size (held h (ks k)) = n" "snd ` set log = {..<n}" by blast
  obtain v w where v: "\<forall>t. alive v t \<longleftrightarrow> t = n" and w: "\<forall>t. \<not> alive w t" using assms by meson
  let ?a = "h\<lparr>world := v\<rparr>" and ?log = "(ks k, n) # log"
  have "live_reachable ks yx alive (?a, log)"
    by (rule live_reachable.step [OF h(1) live_step.elsewhere]) (use h(3) v in auto)
  from live_reachable.step [OF this live_step.register]
  have "live_reachable ks yx alive (add_session ks k n ?a, ?log)" .
  from live_reachable.step [OF this live_step.elsewhere [of ?log alive w]] w
  have r: "live_reachable ks yx alive ((add_session ks k n ?a)\<lparr>world := w\<rparr>, ?log)" by blast
  have "held ((add_session ks k n ?a)\<lparr>world := w\<rparr>) (ks k) = held (add_session ks k n ?a) (ks k)" by (simp add: held_def)
  also have "\<dots> = add_mset n (held h (ks k))" by (simp add: sm.add_held) (simp add: held_def)
  finally have "size (held ((add_session ks k n ?a)\<lparr>world := w\<rparr>) (ks k)) = Suc n" using h(2) by simp
  with r w h(3) show ?case
    by (intro exI [of _ "(add_session ks k n ?a)\<lparr>world := w\<rparr>"] exI [of _ ?log]) (simp add: lessThan_Suc)
qed

section \<open>Properties\<close>

text \<open>
  C6: A hub reaches exactly the clusters with a living session. In every state it can come to, by
  registrations, dials and agents that come and go, dialling a cluster succeeds if and only if some session
  that was ever registered for it is alive; the stream is opened on such a session; and if it fails, no
  session of the cluster is left.
\<close>

theorem cluster_reachable_iff:
  assumes "yamux_doc yx alive" and "live_reachable ks yx alive (h, log)" and "DialCluster ks yx k h = (res, h')"
  shows "((\<exists>c. res = Inr c) \<longleftrightarrow> (\<exists>s. (ks k, s) \<in> set log \<and> alive (world h) s))
    \<and> (\<forall>c. res = Inr c \<longrightarrow> (\<exists>s w0. (ks k, s) \<in> set log \<and> alive (world h) s \<and> Open yx s w0 = (Inr c, world h')))
    \<and> (\<forall>e. res = Inl e \<longrightarrow> held h' (ks k) = {#})"
proof -
  note spec = sm.dial_held [OF assms(3)]
  have log: "(ks k, s) \<in> set log" if "s \<in># held h (ks k)" for s
    using live_held [OF assms(2)] that by simp
  have "(\<exists>s. s \<in># held h (ks k) \<and> alive (world h) s) \<longleftrightarrow> (\<exists>s. (ks k, s) \<in> set log \<and> alive (world h) s)"
    using log none_lost_reachable [OF assms(1,2)] unfolding none_lost_def by auto
  moreover have "\<exists>s w0. (ks k, s) \<in> set log \<and> alive (world h) s \<and> Open yx s w0 = (Inr c, world h')" if "res = Inr c" for c
    using dial_spec_opened_alive [OF assms(1) spec that] log by blast
  ultimately show ?thesis
    using dial_spec_alive [OF assms(1) spec] dial_spec_error [OF spec] by blast
qed

lemma demo_yamux_doc: "yamux_doc demo_yamux (\<lambda>w s. s \<noteq> 7)"
  by (auto simp: yamux_doc_def demo_yamux_def split: if_splits)

lemma demo_live_reachable:
  "live_reachable demo_ks demo_yamux (\<lambda>w s. s \<noteq> 7) (demo_hub, [(demo_ks demo_key, 3), (demo_ks demo_key, 7)])"
  unfolding demo_hub_def
  by (rule live_reachable.step [OF live_reachable.step [OF live_reachable.start]];
      rule live_step.register)

theorem cluster_reachable_iff_witness:
  "\<exists>c h'. DialCluster demo_ks demo_yamux demo_key demo_hub = (Inr c, h')"
proof -
  obtain res h' where d: "DialCluster demo_ks demo_yamux demo_key demo_hub = (res, h')" by fastforce
  from cluster_reachable_iff [OF demo_yamux_doc demo_live_reachable d] have "\<exists>c. res = Inr c" by auto
  with d show ?thesis by blast
qed

end
