(* ===== verification/End_To_End.thy ===== *)
theory End_To_End
  imports Proxy_Outcomes Webhooks Peer_Server Session_Liveness
begin

text \<open>
  What the parts achieve together: the helper facts for the properties of the root theory. A hub and an
  agent, or two hubs, are joined by \<open>serve_exchange\<close>: one's transport talks to the other's handler.
\<close>

section \<open>The agent's side of a request\<close>

lemma joinURLPath_root:
  assumes "Path a = []" and "RawPath a = []" and "slash_path b"
  shows "fst (joinURLPath a b) = Path b"
    and "snd (joinURLPath a b) = [] \<or> HasPrefix (snd (joinURLPath a b)) ''/''"
proof -
  have "EscapedPath a = []" using assms(1,2) by (simp add: EscapedPath_def escape_def)
  then show "fst (joinURLPath a b) = Path b"
    and "snd (joinURLPath a b) = [] \<or> HasPrefix (snd (joinURLPath a b)) ''/''"
    using assms slash_EscapedPath [OF assms(3)]
    by (auto simp: joinURLPath_def slash_path_def singleJoiningSlash_def Let_def HasSuffix_def)
qed

lemma agent_outgoing_fields:
  "Method (agent_outgoing srv r) = Method r"
  "ContentLength (agent_outgoing srv r) = ContentLength r"
  "reqBody (agent_outgoing srv r) = (if ContentLength r = 0 then Body [] else reqBody r)"
  "reqURL (agent_outgoing srv r) = reqURL (single_host_director (apiserverURL srv) r)"
  by (simp_all add: agent_outgoing_def outgoing_request_def agent_director_def Let_def)

text \<open>The URL of an API server given by host and port only.\<close>

definition apiserver_target :: "string \<Rightarrow> URL" where
  "apiserver_target addr = \<lparr>Scheme = ''https'', Host = addr, Path = [], RawPath = [], RawQuery = []\<rparr>"

lemma parse_apiserver: "host_ok addr \<Longrightarrow> url_Parse (''https://'' @ addr) = Inr (apiserver_target addr)"
  using url_Parse_plain [of "''https''" addr "[]"] by (simp add: apiserver_target_def path_plain_def query_plain_def)

lemma agent_setup_URL:
  assumes "agent_setup flags net ca s = (Inr srv, s')" and "host_ok (apiserverAddr flags)"
  shows "apiserverURL srv = apiserver_target (apiserverAddr flags)"
proof -
  have "Sprintf ''https://%s'' [Str (apiserverAddr flags)] = ''https://'' @ apiserverAddr flags" by simp
  with parse_apiserver [OF assms(2)] have "url_Parse (Sprintf ''https://%s'' [Str (apiserverAddr flags)]) =
    Inr (apiserver_target (apiserverAddr flags))" by metis
  with assms(1) show ?thesis
    by (auto simp: agent_setup_def simp del: Sprintf.simps split: sum.splits prod.splits)
qed

section \<open>The hub's side\<close>

lemma agent_request_slash:
  assumes "HasPrefix subpath ''/''"
  shows "slash_path (reqURL (agent_request subpath r))"
proof -
  have l: "Path local_target = []" "RawPath local_target = []" "EscapedPath local_target = []"
    by (simp_all add: local_target_def EscapedPath_def escape_def)
  have "snd (joinURLPath local_target (reqURL r)) = [] \<or> HasPrefix (snd (joinURLPath local_target (reqURL r))) ''/''"
    by (auto simp: joinURLPath_def l Let_def HasSuffix_def HasPrefix_def)
  with assms show ?thesis by (simp add: slash_path_def agent_request_URL)
qed

lemma agent_request_sendable:
  "subpath = [] \<or> HasPrefix subpath ''/'' \<Longrightarrow> slash_path (reqURL (agent_request subpath r)) \<or> Path (reqURL (agent_request subpath r)) = []"
  using agent_request_slash by (auto simp: agent_request_URL)

section \<open>Hub and agent\<close>

text \<open>
  What the API server at \<open>addr\<close> is to be sent for a client's request \<open>r\<close>: the path behind the subresource, query,
  method and body of the client, the protocol it wants to switch to, the agent's token as the only authorization,
  and the client's own headers.
\<close>

definition api_request :: "string \<Rightarrow> string \<Rightarrow> string \<Rightarrow> request \<Rightarrow> request \<Rightarrow> bool" where
  "api_request addr token subpath r q \<longleftrightarrow>
     Host (reqURL q) = addr \<and> Path (reqURL q) = wire_path subpath \<and> RawQuery (reqURL q) = RawQuery (reqURL r)
     \<and> Method q = Method r \<and> ContentLength q = ContentLength r
     \<and> reqBody q = (if ContentLength r = 0 then Body [] else reqBody r)
     \<and> upgradeType (Header q) = upgradeType (Header r)
     \<and> Header q ''Authorization'' = Some [''Bearer '' @ token]
     \<and> (\<forall>k vs. client_header r k \<and> Header r k = Some vs \<longrightarrow> Header q k = Some vs)"

lemma agent_sends_api_request:
  assumes "agent_setup flags net ca t = (Inr srv, t')" and "host_ok (apiserverAddr flags)"
    and "subpath = [] \<or> HasPrefix subpath ''/''" and "no_ctl (RawQuery (reqURL r))"
  obtains ra where "received (agent_request subpath r) = Inr ra" and "upgradeType (Header ra) = upgradeType (Header r)"
    and "api_request (apiserverAddr flags) (agentToken srv) subpath r (agent_outgoing srv ra)"
proof -
  let ?a = "agent_request subpath r"
  have nc: "no_ctl (RawQuery (reqURL ?a))" using assms(4) by (simp add: agent_request_URL)
  obtain ra where ra: "received ?a = Inr ra" "slash_path (reqURL ra)" "Path (reqURL ra) = wire_path (Path (reqURL ?a))"
      "RawQuery (reqURL ra) = RawQuery (reqURL ?a)" "Method ra = Method ?a" "Header ra = Header ?a"
      "reqBody ra = reqBody ?a" "ContentLength ra = ContentLength ?a"
    by (rule received_path [OF agent_request_sendable [OF assms(3)] nc])
  let ?q = "agent_outgoing srv ra"
  note t = agent_setup_URL [OF assms(1,2)]
  have "Path (apiserverURL srv) = []" "RawPath (apiserverURL srv) = []" by (simp_all add: t apiserver_target_def)
  then have url: "Host (reqURL ?q) = apiserverAddr flags" "Path (reqURL ?q) = wire_path subpath"
      "RawQuery (reqURL ?q) = RawQuery (reqURL r)"
    using ra(2,3,4)
    by (simp_all add: agent_outgoing_fields single_host_URL joinURLPath_root agent_request_URL) (simp_all add: t apiserver_target_def)
  have tame: "tame_connection (Header ra)" by (simp add: ra(6) agent_request_tame)
  have "Header ?q k = Some vs" if "client_header r k" "Header r k = Some vs" for k vs
    by (rule agent_outgoing_header [OF tame])
      (use agent_request_header [OF that] that(1) in \<open>simp_all add: ra(6) client_header_def\<close>)
  then have a: "api_request (apiserverAddr flags) (agentToken srv) subpath r ?q"
    using url forwarded_agent [of subpath r] agent_Authorization [OF tame, of srv] ra(5-8)
    by (simp add: api_request_def agent_outgoing_fields forwarded_def)
  show ?thesis by (rule that [OF ra(1) _ a]) (simp add: ra(6))
qed

lemma api_request_carries:
  "carries r r' \<Longrightarrow> ContentLength r = 0 \<Longrightarrow> api_request addr token subpath r' q \<Longrightarrow> api_request addr token subpath r q"
  by (simp add: api_request_def carries_def)

text \<open>What an agent makes of a request of the hub: it sends the API server its own, and answers what comes of it.\<close>

lemma agent_exchange:
  assumes "agent_setup flags net ca t = (Inr srv, t')" and "host_ok (apiserverAddr flags)"
    and "subpath = [] \<or> HasPrefix subpath ''/''" and "no_ctl (RawQuery (reqURL r))"
  shows "\<exists>q. api_request (apiserverAddr flags) (agentToken srv) subpath r q
    \<and> (\<forall>x (c :: conn) s s'. RoundTrip (dialTLS (RootCAs srv) (apiserverAddr flags)) exch q s = (x, s') \<longrightarrow>
      serve_exchange (agent_proxy dialTLS exch srv) c (agent_request subpath r) s = (Inr (answered (upgradeType (Header r)) x), s'))"
proof -
  obtain ra where ra: "received (agent_request subpath r) = Inr ra" "upgradeType (Header ra) = upgradeType (Header r)"
      "api_request (apiserverAddr flags) (agentToken srv) subpath r (agent_outgoing srv ra)"
    by (rule agent_sends_api_request [OF assms])
  show ?thesis
  proof (intro exI [of _ "agent_outgoing srv ra"] conjI ra(3) allI impI)
    fix x s s' and c :: conn
    assume "RoundTrip (dialTLS (RootCAs srv) (apiserverAddr flags)) exch (agent_outgoing srv ra) s = (x, s')"
    then have "RoundTrip (dialTLS (RootCAs srv) (Host (reqURL (agent_outgoing srv ra)))) exch (agent_outgoing srv ra) s = (x, s')"
      using ra(3) by (simp add: api_request_def)
    from serve_exchange_answer [where h = "agent_proxy dialTLS exch srv" and c = c, OF ra(1)
        agent_proxy_proxied [where dialTLS = dialTLS and exch = exch and srv = srv and r = ra, OF this]]
    show "serve_exchange (agent_proxy dialTLS exch srv) c (agent_request subpath r) s =
        (Inr (answered (upgradeType (Header r)) x), s')" by (simp only: ra(2) answered_def)
  qed
qed

text \<open>A request of a client over a session of the hub, to the agent and the API server, and back.\<close>

lemma request_over_session:
  assumes "get (Namespace key) (Name key) s = (Inr cl, s1)" and "dial key s1 = (Inr c, s2)"
    and "agent_setup flags net ca t = (Inr srv, t')" and "host_ok (apiserverAddr flags)"
    and "subpath = [] \<or> HasPrefix subpath ''/''" and "no_ctl (RawQuery (reqURL r))" and "reqBody r \<noteq> ClosedBody" and "fresh w"
  shows "\<exists>q. api_request (apiserverAddr flags) (agentToken srv) subpath r q
    \<and> (\<forall>x s3. RoundTrip (dialTLS (RootCAs srv) (apiserverAddr flags)) apiexch q s2 = (x, s3) \<longrightarrow>
         (\<exists>w'. (\<forall>pm. NewProxyHandler isnf get dial (serve_exchange (agent_proxy dialTLS apiexch srv)) pm key subpath r w s = Some (w', s3))
           \<and> delivered (upgradeType (Header r)) x w w'))"
proof -
  let ?e = "serve_exchange (agent_proxy dialTLS apiexch srv)" and ?up = "upgradeType (Header r)"
  obtain q where q: "api_request (apiserverAddr flags) (agentToken srv) subpath r q"
    and e: "\<forall>x (c :: conn) s s'. RoundTrip (dialTLS (RootCAs srv) (apiserverAddr flags)) apiexch q s = (x, s') \<longrightarrow>
      ?e c (agent_request subpath r) s = (Inr (answered ?up x), s')"
    using agent_exchange [where dialTLS = dialTLS and exch = apiexch, OF assms(3-6)] by blast
  have "\<exists>w'. (\<forall>pm. NewProxyHandler isnf get dial ?e pm key subpath r w s = Some (w', s3)) \<and> delivered ?up x w w'"
    if "RoundTrip (dialTLS (RootCAs srv) (apiserverAddr flags)) apiexch q s2 = (x, s3)" for x s3
  proof -
    obtain w' where w': "proxied ?up (Inr (answered ?up x)) w = Some w'" "delivered ?up x w w'"
      using proxies_deliver [OF assms(8)] by blast
    from proxy_handler_proxied [where get = get and key = key and dial = dial and exch = ?e, OF assms(1,2,7) e [rule_format, OF that] w'(1)] w'(2)
    show ?thesis by blast
  qed
  with q show ?thesis by blast
qed

text \<open>
  A hub in the state \<open>h\<close>, which the lookup of the cluster takes to \<open>h0\<close>, gives access to the API server behind the agent
  \<open>srv\<close>: it opens a stream, and every request with a proper path and a body that can be read gets its answer over it.
\<close>

definition gives_access ::
    "(err \<Rightarrow> bool) \<Rightarrow> ('m, 'w hub) cluster_get \<Rightarrow> (NamespacedName \<Rightarrow> string) \<Rightarrow> 'w yamux \<Rightarrow>
       ('pool \<Rightarrow> string \<Rightarrow> 'w hub \<Rightarrow> 'c res \<times> 'w hub) \<Rightarrow> ('c \<Rightarrow> request \<Rightarrow> 'w hub \<Rightarrow> response res \<times> 'w hub) \<Rightarrow>
       'pool agent_server \<Rightarrow> string \<Rightarrow> NamespacedName \<Rightarrow> 'w hub \<Rightarrow> 'w hub \<Rightarrow> bool" where
  "gives_access isnf get ks yx dialTLS apiexch srv addr key h h0 \<longleftrightarrow>
     (\<exists>c h1. DialCluster ks yx key h0 = (Inr c, h1)
        \<and> (\<forall>subpath r w. (subpath = [] \<or> HasPrefix subpath ''/'') \<and> no_ctl (RawQuery (reqURL r)) \<and> reqBody r \<noteq> ClosedBody \<and> fresh w \<longrightarrow>
             (\<exists>q. api_request addr (agentToken srv) subpath r q
                \<and> (\<forall>x h2. RoundTrip (dialTLS (RootCAs srv) addr) apiexch q h1 = (x, h2) \<longrightarrow>
                     (\<exists>w'. (\<forall>pm. NewProxyHandler isnf get (DialCluster ks yx) (serve_exchange (agent_proxy dialTLS apiexch srv)) pm key
                           subpath r w h = Some (w', h2))
                       \<and> delivered (upgradeType (Header r)) x w w')))))"

lemma living_session_gives_access:
  assumes "yamux_doc yx alive" and "get (Namespace key) (Name key) h = (Inr cl, h0)"
    and "t \<in># held h0 (ks key)" and "alive (world h0) t"
    and "agent_setup flags net ca g = (Inr srv, g')" and "host_ok (apiserverAddr flags)"
  shows "gives_access isnf get ks yx dialTLS apiexch srv (apiserverAddr flags) key h h0"
proof -
  obtain res h1 where d: "DialCluster ks yx key h0 = (res, h1)" by fastforce
  obtain c where c: "res = Inr c" using dial_spec_alive [OF assms(1) sm.dial_held [OF d]] assms(3,4) by blast
  have "\<exists>q. api_request (apiserverAddr flags) (agentToken srv) subpath r q
      \<and> (\<forall>x h2. RoundTrip (dialTLS (RootCAs srv) (apiserverAddr flags)) apiexch q h1 = (x, h2) \<longrightarrow>
           (\<exists>w'. (\<forall>pm. NewProxyHandler isnf get (DialCluster ks yx) (serve_exchange (agent_proxy dialTLS apiexch srv)) pm key
                 subpath r w h = Some (w', h2))
             \<and> delivered (upgradeType (Header r)) x w w'))"
    if "subpath = [] \<or> HasPrefix subpath ''/''" "no_ctl (RawQuery (reqURL r))" "reqBody r \<noteq> ClosedBody" "fresh w" for subpath r w
    using request_over_session [where get = get and key = key and dial = "DialCluster ks yx" and dialTLS = dialTLS and apiexch = apiexch
        and isnf = isnf, OF assms(2) d [unfolded c] assms(5,6) that] .
  with d c show ?thesis unfolding gives_access_def by blast
qed

section \<open>The peer's side\<close>

lemma proxy_prefix_slash: "HasPrefix (proxy_prefix key @ s) ''/''"
  by (simp add: proxy_prefix_append HasPrefix_def)

lemma peer_request_slash:
  "key_ok key \<Longrightarrow> slash_path (reqURL r) \<Longrightarrow> slash_path (reqURL (peer_request key peer r))"
  by (simp add: slash_path_def peer_request_URL proxy_prefix_slash)

lemma peer_request_Method [simp]: "Method (peer_request key peer r) = Method r"
  by (simp add: peer_request_def outgoing_request_def Let_def)

lemma upgradeType_peer_request [simp]: "upgradeType (Header (peer_request key peer r)) = upgradeType (Header r)"
  unfolding peer_request_def
  by (rule upgradeType_outgoing) (simp add: upgradeType_def header_Get_def lookup_slice_def single_host_header)

lemma carries_peer:
  assumes "key_ok key" and "slash_path (reqURL r)"
  shows "carries r (peer_request key peer r)"
proof -
  have "Header (peer_request key peer r) k = Some vs" if "client_header r k" "Header r k = Some vs" for k vs
    unfolding peer_request_def by (rule outgoing_client_header [OF that]) (simp_all add: single_host_header)
  moreover have "client_header (peer_request key peer r) k" if "client_header r k" for k
    unfolding peer_request_def by (rule client_header_outgoing [OF that])
  ultimately show ?thesis using peer_request_URL [OF assms, of peer] by (simp add: carries_def)
qed

text \<open>A hub with a session answers its peer with what it has written for the member cluster's answer.\<close>

lemma peer_side:
  assumes "key_ok key" and "slash_path (reqURL r)" and "Path (reqURL r) = subpath" and "ContentLength r = 0"
    and "no_ctl (RawQuery (reqURL r))"
    and "vars ''namespace'' = Namespace key" and "vars ''name'' = Name key"
    and "get (Namespace key) (Name key) s = (Inr cl, s1)" and "dial key s1 = (Inr c, s2)"
  shows "\<exists>q. sent_to_agent subpath r q
    \<and> (\<forall>x s3 a c'. exch c q s2 = (x, s3) \<and> proxied (upgradeType (Header r)) x newWriter = Some a \<longrightarrow>
         serve_exchange (peer_handler isnf get dial exch vars) c' (peer_request key peer r) s = (Inr (response_of a), s3))"
proof -
  let ?p = "peer_request key peer r"
  note u = peer_request_URL [OF assms(1,2), of peer] and cp = carries_peer [OF assms(1,2), of peer]
  obtain rB where rB: "received ?p = Inr rB" "Path (reqURL rB) = proxy_prefix key @ subpath"
      "RawQuery (reqURL rB) = RawQuery (reqURL ?p)" "Method rB = Method ?p" "ContentLength rB = ContentLength ?p"
      "reqBody rB = reqBody ?p" "Header rB = Header ?p"
    by (rule received_slash [OF peer_request_slash [OF assms(1,2)], of peer]) (use assms u in simp_all)
  let ?q = "agent_request subpath rB"
  have cB: "carries ?p rB" using rB by (simp add: carries_def client_header_def)
  have up: "upgradeType (Header rB) = upgradeType (Header r)" by (simp add: rB(7))
  have b: "reqBody rB \<noteq> ClosedBody"
    using assms(4) by (simp add: rB(6) peer_request_def outgoing_request_def Let_def)
  have "serve_exchange (peer_handler isnf get dial exch vars) c' ?p s = (Inr (response_of a), s3)"
    if x: "exch c ?q s2 = (x, s3)" and a: "proxied (upgradeType (Header r)) x newWriter = Some a" for x s3 a c'
  proof -
    from proxy_handler_proxied [where get = get and key = key and dial = dial and exch = exch and isnf = isnf and pm = None,
        OF assms(8,9) b x, unfolded up, OF a]
    have "peer_handler isnf get dial exch vars rB newWriter s = Some (a, s3)"
      by (simp only: peer_handler_trim [OF assms(6,7) rB(2)])
    from serve_exchange_answer [where h = "peer_handler isnf get dial exch vars", OF rB(1) this] show ?thesis .
  qed
  moreover have "sent_to_agent subpath r ?q" unfolding sent_to_agent_def using carries_trans [OF cp cB] by blast
  ultimately show ?thesis by (intro exI [of _ ?q] conjI allI impI) (simp, elim conjE)
qed

text \<open>The hub that asked passes on what it is answered, a 502 apart.\<close>

lemma peer_search_proxied:
  assumes "key_ok key" and "host_ok peer" and "peer \<noteq> []" and "cert_loads C pn cert"
    and "peer_transport pn cert (peer_request key peer r) s = (Inr res, s')" and "StatusCode res \<noteq> 502"
    and "proxied (upgradeType (Header r)) (Inr res) w = Some w'"
  shows "peer_search C pn key (peer # peers) w r s = (w', s')"
  using ServeHTTP_proxied(2) [of "peer_transport pn cert" "single_host_director (peer_target key peer)" r s "Inr res" s' w w'
      peer_ModifyResponse] assms upgradeType_peer_request [of key peer r]
  by (simp add: peer_search_step peer_request_def peer_ModifyResponse_def)

section \<open>An agent joins a hub\<close>

text \<open>The request with which a WebSocket client that is no browser opens a connection.\<close>

definition handshake :: "request \<Rightarrow> bool" where
  "handshake r \<longleftrightarrow> Method r = ''GET'' \<and> upgradeType (Header r) = ''websocket'' \<and> Header r ''Origin'' = None
     \<and> header_Get (Header r) ''Sec-Websocket-Version'' = ''13'' \<and> header_Get (Header r) ''Sec-Websocket-Key'' \<noteq> []"

text \<open>
  What joins the WebSocket dial of an agent to a hub in the state \<open>s\<close> that serves \<open>h\<close> under a path of its public
  address: a dial of such a URL that does not check the certificate makes the hub serve a handshake with the query of the URL, and
  succeeds exactly if it is answered with 101. TLS and the aggregation layer of the API server are in between.
\<close>

definition reaches_hub :: "'s agent_net \<Rightarrow> string \<Rightarrow> string \<Rightarrow> 's handler \<Rightarrow> 's \<Rightarrow> bool" where
  "reaches_hub net addr path h s \<longleftrightarrow>
     (\<forall>cfg url u. url_Parse url = Inr u \<longrightarrow> Scheme u = ''wss'' \<longrightarrow> Host u = addr \<longrightarrow> Path u = path \<longrightarrow> InsecureSkipVerify cfg \<longrightarrow>
        (\<exists>r. handshake r \<and> RawQuery (reqURL r) = RawQuery u
           \<and> (\<forall>w s1. h r newWriter s = Some (w, s1) \<longrightarrow>
                (\<exists>res. ws_Dial net cfg url s = (res, s1) \<and> ((\<exists>c. res = Inr c) \<longleftrightarrow> wStatus w = Some 101)))))"

lemma reaches_hubD:
  assumes "reaches_hub net addr path h s" and "url_Parse url = Inr u" and "Scheme u = ''wss''" and "Host u = addr" and "Path u = path"
    and "InsecureSkipVerify cfg"
  shows "\<exists>r. handshake r \<and> RawQuery (reqURL r) = RawQuery u
    \<and> (\<forall>w s1. h r newWriter s = Some (w, s1) \<longrightarrow>
         (\<exists>res. ws_Dial net cfg url s = (res, s1) \<and> ((\<exists>c. res = Inr c) \<longleftrightarrow> wStatus w = Some 101)))"
  by (rule assms(1) [unfolded reaches_hub_def, rule_format, OF assms(2-6)])

text \<open>
  What gorilla promises of \<^verbatim>\<open>Upgrade\<close>, here for a request that has not been answered: when it succeeds it has taken the
  connection over and answered with 101, and when it fails it has answered something else or nothing. It does not touch the session manager.
\<close>

definition upgrade_doc :: "'w hub ws_lib \<Rightarrow> bool" where
  "upgrade_doc ws \<longleftrightarrow>
     (\<forall>rb wb r h res w h'. Upgrade ws rb wb r newWriter h = (res, w, h') \<longrightarrow>
        mgr h' = mgr h \<and> ((\<exists>c. res = Inr c) \<longleftrightarrow> wStatus w = Some 101) \<and> ((\<exists>c. res = Inr c) \<longrightarrow> wHijacked w))"

lemma upgrade_docD:
  assumes "upgrade_doc ws" and "Upgrade ws rb wb r newWriter h = (res, w, h')"
  shows "mgr h' = mgr h" and "(\<exists>c. res = Inr c) \<longleftrightarrow> wStatus w = Some 101"
  using assms(1) [unfolded upgrade_doc_def, rule_format, OF assms(2)] by blast+

text \<open>
  Calls that succeed and leave the sessions of the hub alone: \<^verbatim>\<open>yamux.Server\<close> and \<^verbatim>\<open>yamux.Client\<close>, which fail on a
  bad configuration only and here get none, and reading a file that is there.
\<close>

definition succeeds :: "('w hub \<Rightarrow> 'a res \<times> 'w hub) \<Rightarrow> bool" where
  "succeeds f \<longleftrightarrow> (\<forall>h. \<exists>x h'. f h = (Inr x, h') \<and> mgr h' = mgr h)"

lemma succeedsE:
  assumes "succeeds f" obtains x h' where "f h = (Inr x, h')" and "mgr h' = mgr h"
  using assms unfolding succeeds_def by blast

text \<open>The service account of the agent's pod is mounted: its token and the certificate of the API server can be read.\<close>

definition account_mounted :: "('pool, 'w hub) ca_store \<Rightarrow> bool" where
  "account_mounted ca \<longleftrightarrow> succeeds (ReadFile ca (filepath_Join [agent_saDir, ''token'']))
     \<and> succeeds (ReadFile ca (filepath_Join [agent_saDir, ''ca.crt'']))"

lemma held_mgr: "mgr h' = mgr h \<Longrightarrow> held h' = held h"
  by (simp add: held_def fun_eq_iff)

text \<open>A handshake with the right token: a session is registered exactly if the upgrade succeeds.\<close>

lemma connect_joins:
  assumes "get (Namespace key) (Name key) h = (Inr cl, h0)" and "mgr h0 = mgr h"
    and "query_Get (reqURL r) ''token'' = Token cl" and "upgrade_doc ws" and "\<And>c. succeeds (yamux_Server ws c)"
    and "Upgrade ws 1024 1024 r newWriter h0 = (Inr c, w, h1)"
  shows "\<exists>t h2 h'. yamux_Server ws (UnderlyingConn ws c) h1 = (Inr t, h2)
    \<and> connect_handler isnf ws (Some get) (Some (add_session ks)) key r newWriter h = Some (w, h')
    \<and> wStatus w = Some 101 \<and> held h' = (held h)(ks key := add_mset t (held h (ks key)))"
proof -
  note u = upgrade_docD [OF assms(4,6)]
  obtain t h2 where y: "yamux_Server ws (UnderlyingConn ws c) h1 = (Inr t, h2)" "mgr h2 = mgr h1" by (rule succeedsE [OF assms(5)])
  have "connect_handler isnf ws (Some get) (Some (add_session ks)) key r newWriter h = Some (w, add_session ks key t h2)"
    unfolding connect_right_token [where get = get and key = key, OF assms(1,3)] by (simp add: assms(6) y(1))
  moreover have "held (add_session ks key t h2) = (held h)(ks key := add_mset t (held h (ks key)))"
    using held_mgr [of h2 h] u(1) y(2) assms(2) by (simp add: fun_eq_iff sm.add_held)
  ultimately show ?thesis using y(1) u(2) by blast
qed

lemma http_Error_keeps: "wStatus w \<noteq> Some 101 \<Longrightarrow> wStatus (http_Error msg 500 w) \<noteq> Some 101"
  by (simp add: http_Error_def Write_def WriteHeader_def writer_SetHeader_def Let_def)

lemma connect_fails_to_join:
  assumes "get (Namespace key) (Name key) h = (Inr cl, h0)" and "mgr h0 = mgr h"
    and "query_Get (reqURL r) ''token'' = Token cl" and "upgrade_doc ws"
    and "Upgrade ws 1024 1024 r newWriter h0 = (Inl e, w, h1)"
  shows "\<exists>w'. connect_handler isnf ws (Some get) (Some (add_session ks)) key r newWriter h = Some (w', h1)
    \<and> wStatus w' \<noteq> Some 101 \<and> held h1 = held h"
proof -
  note u = upgrade_docD [OF assms(4,5)]
  have "wStatus w \<noteq> Some 101" using u(2) by simp
  then show ?thesis
    unfolding connect_right_token [where get = get and key = key, OF assms(1,3)]
    using held_mgr [of h1 h] u(1) assms(2) http_Error_keeps by (simp add: assms(5))
qed

lemma agent_setup_dialled:
  assumes "ws_Dial net \<lparr>InsecureSkipVerify = True, Certificates = []\<rparr> (connectFlag flags) h = (Inr c, h1)"
    and "\<And>c. succeeds (yamux_Client net c)" and "account_mounted ca" and "host_ok (apiserverAddr flags)"
  obtains srv h' where "agent_setup flags net ca h = (Inr srv, h')" and "mgr h' = mgr h1"
proof -
  obtain t h2 where t: "yamux_Client net (wsUnderlyingConn net c) h1 = (Inr t, h2)" "mgr h2 = mgr h1"
    by (rule succeedsE [OF assms(2)])
  obtain tok h3 where k: "ReadFile ca (filepath_Join [agent_saDir, ''token'']) h2 = (Inr tok, h3)" "mgr h3 = mgr h2"
    by (rule succeedsE [OF assms(3) [unfolded account_mounted_def, THEN conjunct1]])
  obtain crt h4 where r: "ReadFile ca (filepath_Join [agent_saDir, ''ca.crt'']) h3 = (Inr crt, h4)" "mgr h4 = mgr h3"
    by (rule succeedsE [OF assms(3) [unfolded account_mounted_def, THEN conjunct2]])
  have p: "url_Parse (Sprintf ''https://%s'' [Str (apiserverAddr flags)]) = Inr (apiserver_target (apiserverAddr flags))"
    using parse_apiserver [OF assms(4)] by simp
  have "agent_setup flags net ca h =
      (Inr \<lparr>agentSession = t, apiserverURL = apiserver_target (apiserverAddr flags), agentToken = tok,
         RootCAs = snd (AppendCertsFromPEM ca crt (NewCertPool ca))\<rparr>, h4)"
    by (simp add: agent_setup_def assms(1) t k r p del: Sprintf.simps)
  then show ?thesis by (rule that) (simp add: t k r)
qed

text \<open>
  An agent with the connect URL of its cluster dials a hub in the state \<open>g\<close>, in which the cluster can be read: its handshake has
  the right token, and it gets through its set-up and is registered exactly if the hub's upgrade succeeds.
\<close>

lemma agent_joins:
  fixes get :: "('m, 'w hub) cluster_get"
  assumes "plain (Token cl)" and "host_ok (PublicAddr C)" and "path_plain path" and "host_ok apiserver"
    and "upgrade_doc ws" and "\<And>c. succeeds (yamux_Server ws c)" and "\<And>c. succeeds (yamux_Client net c)" and "account_mounted ca"
    and "get (Namespace key) (Name key) g = (Inr cl, g0)" and "mgr g0 = mgr g"
    and "reaches_hub net (PublicAddr C) path (connect_handler isnf ws (Some get) (Some (add_session ks)) key) g"
    and "flags = \<lparr>connectFlag = connectURL C path (Token cl), apiserverAddr = apiserver\<rparr>"
  shows "\<exists>r. handshake r
    \<and> (\<forall>conn w g1. Upgrade ws 1024 1024 r newWriter g0 = (Inr conn, w, g1) \<longrightarrow>
         (\<exists>srv g' t g2. agent_setup flags net ca g = (Inr srv, g')
            \<and> yamux_Server ws (UnderlyingConn ws conn) g1 = (Inr t, g2)
            \<and> held g' = (held g)(ks key := add_mset t (held g (ks key)))))
    \<and> (\<forall>e w g1. Upgrade ws 1024 1024 r newWriter g0 = (Inl e, w, g1) \<longrightarrow>
         (\<exists>msg g'. agent_setup flags net ca g = (Inl msg, g') \<and> held g' = held g))"
proof -
  let ?url = "connectURL C path (Token cl)" and ?h = "connect_handler isnf ws (Some get) (Some (add_session ks)) key"
  let ?cfg = "\<lparr>InsecureSkipVerify = True, Certificates = []\<rparr>"
  have tok: "\<forall>c \<in> set (Token cl). unreserved c \<or> c = CHR ''&''" using assms(1) by (simp add: plain_def list_all_iff)
  note u = connectURL_parse [OF assms(2,3) tok]
  obtain r where r: "handshake r" "RawQuery (reqURL r) = ''token'' @ CHR ''='' # Token cl"
    and dial: "\<forall>w s1. ?h r newWriter g = Some (w, s1) \<longrightarrow>
      (\<exists>res. ws_Dial net ?cfg ?url g = (res, s1) \<and> ((\<exists>c. res = Inr c) \<longleftrightarrow> wStatus w = Some 101))"
    using reaches_hubD [OF assms(11) u, where cfg = ?cfg] by auto
  have t: "query_Get (reqURL r) ''token'' = Token cl" by (rule query_Get_single [OF plain_token assms(1) r(2)])
  have joins: "\<exists>srv g' t g2. agent_setup flags net ca g = (Inr srv, g')
            \<and> yamux_Server ws (UnderlyingConn ws conn) g1 = (Inr t, g2)
            \<and> held g' = (held g)(ks key := add_mset t (held g (ks key)))"
    if up: "Upgrade ws 1024 1024 r newWriter g0 = (Inr conn, w, g1)" for conn w g1
  proof -
    obtain t g2 g3 where c: "yamux_Server ws (UnderlyingConn ws conn) g1 = (Inr t, g2)" "?h r newWriter g = Some (w, g3)"
        "wStatus w = Some 101" "held g3 = (held g)(ks key := add_mset t (held g (ks key)))"
      using connect_joins [where get = get and key = key and isnf = isnf and ks = ks, OF assms(9,10) t assms(5,6) up] by blast
    obtain k where d: "ws_Dial net ?cfg (connectFlag flags) g = (Inr k, g3)"
      using dial [rule_format, OF c(2)] c(3) by (auto simp: assms(12))
    obtain srv g' where "agent_setup flags net ca g = (Inr srv, g')" "mgr g' = mgr g3"
      by (rule agent_setup_dialled [OF d assms(7,8)]) (simp_all add: assms(4,12))
    then show ?thesis using c(1,4) held_mgr [of g' g3] by auto
  qed
  have fails: "\<exists>msg g'. agent_setup flags net ca g = (Inl msg, g') \<and> held g' = held g"
    if up: "Upgrade ws 1024 1024 r newWriter g0 = (Inl e, w, g1)" for e w g1
  proof -
    obtain w' where c: "?h r newWriter g = Some (w', g1)" "wStatus w' \<noteq> Some 101" "held g1 = held g"
      using connect_fails_to_join [where get = get and key = key and isnf = isnf and ks = ks, OF assms(9,10) t assms(5) up] by blast
    obtain res where d: "ws_Dial net ?cfg ?url g = (res, g1)" "\<nexists>x. res = Inr x"
      using dial [rule_format, OF c(1)] c(2) by blast
    from d(2) obtain x where "res = Inl x" by (cases res) auto
    then show ?thesis using d(1) c(3) by (simp add: agent_setup_def assms(12) del: Sprintf.simps)
  qed
  show ?thesis using r(1) joins fails by blast
qed

text \<open>Once registered, such an agent gives access to its API server for as long as its session lives.\<close>

lemma joined_agent_gives_access:
  fixes get :: "('m, 'w hub) cluster_get"
  assumes "plain (Token cl)" and "host_ok (PublicAddr C)" and "path_plain path" and "host_ok apiserver"
    and "upgrade_doc ws" and "\<And>c. succeeds (yamux_Server ws c)" and "\<And>c. succeeds (yamux_Client net c)" and "account_mounted ca"
    and "yamux_doc yx alive"
    and "get (Namespace key) (Name key) g = (Inr cl, g0)" and "mgr g0 = mgr g"
    and "reaches_hub net (PublicAddr C) path (connect_handler isnf ws (Some get) (Some (add_session ks)) key) g"
  shows "\<exists>ra. handshake ra
    \<and> (\<forall>conn wa g1. Upgrade ws 1024 1024 ra newWriter g0 = (Inr conn, wa, g1) \<longrightarrow>
         (\<exists>srv g' t g2. agent_setup \<lparr>connectFlag = connectURL C path (Token cl), apiserverAddr = apiserver\<rparr> net ca g = (Inr srv, g')
            \<and> yamux_Server ws (UnderlyingConn ws conn) g1 = (Inr t, g2)
            \<and> held g' = (held g)(ks key := add_mset t (held g (ks key)))
            \<and> (\<forall>h h0. get (Namespace key) (Name key) h = (Inr cl, h0) \<and> t \<in># held h0 (ks key) \<and> alive (world h0) t \<longrightarrow>
                 gives_access isnf get ks yx dialTLS apiexch srv apiserver key h h0)))
    \<and> (\<forall>e wa g1. Upgrade ws 1024 1024 ra newWriter g0 = (Inl e, wa, g1) \<longrightarrow>
         (\<exists>msg g'. agent_setup \<lparr>connectFlag = connectURL C path (Token cl), apiserverAddr = apiserver\<rparr> net ca g = (Inl msg, g')
            \<and> held g' = held g))"
proof -
  let ?flags = "\<lparr>connectFlag = connectURL C path (Token cl), apiserverAddr = apiserver\<rparr>"
  have access: "\<forall>h h0. get (Namespace key) (Name key) h = (Inr cl, h0) \<and> t \<in># held h0 (ks key) \<and> alive (world h0) t \<longrightarrow>
      gives_access isnf get ks yx dialTLS apiexch srv apiserver key h h0"
    if "agent_setup ?flags net ca g = (Inr srv, g')" for srv g g' t
    using living_session_gives_access [where get = get and key = key and alive = alive and ks = ks and t = t and flags = ?flags,
        OF assms(9) _ _ _ that, unfolded agent_flags.simps, OF _ _ _ assms(4)] by blast
  obtain ra where ra: "handshake ra"
      "\<forall>conn w g1. Upgrade ws 1024 1024 ra newWriter g0 = (Inr conn, w, g1) \<longrightarrow>
         (\<exists>srv g' t g2. agent_setup ?flags net ca g = (Inr srv, g') \<and> yamux_Server ws (UnderlyingConn ws conn) g1 = (Inr t, g2)
            \<and> held g' = (held g)(ks key := add_mset t (held g (ks key))))"
      "\<forall>e w g1. Upgrade ws 1024 1024 ra newWriter g0 = (Inl e, w, g1) \<longrightarrow>
         (\<exists>msg g'. agent_setup ?flags net ca g = (Inl msg, g') \<and> held g' = held g)"
    using agent_joins [where get = get and key = key and flags = ?flags, OF assms(1-8,10-12) refl] by blast
  show ?thesis
  proof (rule exI [of _ ra], intro conjI ra(1,3) allI impI)
    fix conn wa g1
    assume "Upgrade ws 1024 1024 ra newWriter g0 = (Inr conn, wa, g1)"
    from ra(2) [rule_format, OF this] obtain srv g' t g2 where j: "agent_setup ?flags net ca g = (Inr srv, g')"
        "yamux_Server ws (UnderlyingConn ws conn) g1 = (Inr t, g2)" "held g' = (held g)(ks key := add_mset t (held g (ks key)))" by blast
    show "\<exists>srv g' t g2. agent_setup ?flags net ca g = (Inr srv, g')
            \<and> yamux_Server ws (UnderlyingConn ws conn) g1 = (Inr t, g2)
            \<and> held g' = (held g)(ks key := add_mset t (held g (ks key)))
            \<and> (\<forall>h h0. get (Namespace key) (Name key) h = (Inr cl, h0) \<and> t \<in># held h0 (ks key) \<and> alive (world h0) t \<longrightarrow>
                 gives_access isnf get ks yx dialTLS apiexch srv apiserver key h h0)"
      by (rule exI [of _ srv], rule exI [of _ g'], rule exI [of _ t], rule exI [of _ g2]) (intro conjI j access [OF j(1)])
  qed
qed

end
