(* ===== verification/Replicas.thy ===== *)
theory Replicas
  imports End_To_End Session_Liveness
begin

text \<open>
  The replicas of a hub as one system: every replica has its own session manager and its own sessions; a
  request arrives at one of them, which asks the others as \<open>Manager_TryNextPeer\<close> does, over the route that
  \<open>peer_handler\<close> serves. Together they reach a cluster exactly when one of them does.
\<close>

section \<open>The replicas and their network\<close>

text \<open>A replica is known by the address its peers dial. Dialling a cluster changes the replica that dials.\<close>

type_synonym 'w replicas = "string \<Rightarrow> 'w hub"

definition replica_dial ::
    "(NamespacedName \<Rightarrow> string) \<Rightarrow> 'w yamux \<Rightarrow> string \<Rightarrow> NamespacedName \<Rightarrow> 'w replicas \<Rightarrow> conn res \<times> 'w replicas" where
  "replica_dial ks yx p key S = (let (c, h) = DialCluster ks yx key (S p) in (c, S(p := h)))"

definition serving :: "(NamespacedName \<Rightarrow> string) \<Rightarrow> ('w \<Rightarrow> session \<Rightarrow> bool) \<Rightarrow> NamespacedName \<Rightarrow> 'w replicas \<Rightarrow> string \<Rightarrow> bool" where
  "serving ks alive key S p \<longleftrightarrow> (\<exists>s. s \<in># held (S p) (ks key) \<and> alive (world (S p)) s)"

lemma replica_dial_failed:
  assumes "yamux_doc yx alive" and "\<not> serving ks alive key S p"
  obtains e h where "replica_dial ks yx p key S = (Inl e, S(p := h))"
    and "\<And>x. serving ks alive key (S(p := h)) x \<longleftrightarrow> serving ks alive key S x"
proof -
  obtain res h where d: "DialCluster ks yx key (S p) = (res, h)" by fastforce
  note spec = sm.dial_held [OF d]
  obtain e where e: "res = Inl e"
    using dial_spec_alive [OF assms(1) spec] assms(2) by (cases res) (auto simp: serving_def)
  have "held h (ks key) = {#}" using dial_spec_error [OF spec e] by blast
  then have "\<not> serving ks alive key (S(p := h)) p" by (simp add: serving_def)
  then have "serving ks alive key (S(p := h)) x \<longleftrightarrow> serving ks alive key S x" for x
    using assms(2) by (cases "x = p") (auto simp: serving_def)
  with d e show ?thesis by (intro that) (simp_all add: replica_dial_def)
qed

lemma replica_dial_opened:
  assumes "yamux_doc yx alive" and "serving ks alive key S p"
  obtains c h s w0 where "replica_dial ks yx p key S = (Inr c, S(p := h))"
    and "s \<in># held (S p) (ks key)" and "alive (world (S p)) s" and "Open yx s w0 = (Inr c, world h)"
proof -
  obtain res h where d: "DialCluster ks yx key (S p) = (res, h)" by fastforce
  note spec = sm.dial_held [OF d]
  obtain c where c: "res = Inr c"
    using dial_spec_alive [OF assms(1) spec] assms(2) unfolding serving_def by blast
  obtain s w0 where "s \<in># held (S p) (ks key)" "alive (world (S p)) s" "Open yx s w0 = (Inr c, world h)"
    using dial_spec_opened_alive [OF assms(1) spec c] by blast
  with d c show ?thesis by (intro that) (simp_all add: replica_dial_def)
qed

text \<open>
  The circumstances: the cluster object can be read, the peers are listed, each can be dialled with the
  certificate, and at the other end its route is served. None of this touches a session.
\<close>

definition replica_env ::
    "(NamespacedName \<Rightarrow> string) \<Rightarrow> 'w yamux \<Rightarrow> (err \<Rightarrow> bool) \<Rightarrow> ('m, 'w replicas) cluster_get \<Rightarrow>
       (string \<Rightarrow> conn \<Rightarrow> request \<Rightarrow> 'w replicas \<Rightarrow> response res \<times> 'w replicas) \<Rightarrow> (string \<Rightarrow> string) \<Rightarrow> Config \<Rightarrow>
       'w replicas get_endpoints \<Rightarrow> ('cert, 'w replicas) peer_net \<Rightarrow> 'cert \<Rightarrow> NamespacedName \<Rightarrow> string list \<Rightarrow> bool" where
  "replica_env ks yx isnf get exch vars C ge pn cert key peers \<longleftrightarrow>
     key_ok key \<and> vars ''namespace'' = Namespace key \<and> vars ''name'' = Name key \<and> cert_loads C pn cert
     \<and> (\<forall>S. \<exists>cl. get (Namespace key) (Name key) S = (Inr cl, S))
     \<and> (\<forall>S. Manager_ListPeers C ge S = (Inr peers, S))
     \<and> (\<forall>p\<in>set peers. host_ok p \<and> p \<noteq> []
          \<and> (\<forall>S. \<exists>c. TLSDial pn (peer_tls cert) p S = (Inr c, S)
               \<and> Exchange pn c = serve_exchange (peer_handler isnf get (replica_dial ks yx p) (exch p) vars) c))"

lemma replica_envD:
  assumes "replica_env ks yx isnf get exch vars C ge pn cert key peers"
  shows "key_ok key" and "vars ''namespace'' = Namespace key" and "vars ''name'' = Name key" and "cert_loads C pn cert"
    and "\<exists>cl. get (Namespace key) (Name key) S = (Inr cl, S)"
    and "Manager_ListPeers C ge S = (Inr peers, S)"
    and "p \<in> set peers \<Longrightarrow> host_ok p" and "p \<in> set peers \<Longrightarrow> p \<noteq> []"
    and "p \<in> set peers \<Longrightarrow> \<exists>c. TLSDial pn (peer_tls cert) p S = (Inr c, S)
      \<and> Exchange pn c = serve_exchange (peer_handler isnf get (replica_dial ks yx p) (exch p) vars) c"
  using assms unfolding replica_env_def by blast+

section \<open>Asking one peer\<close>

text \<open>A request on its way: what is left of it from one attempt to the next.\<close>

definition on_its_way :: "string \<Rightarrow> request \<Rightarrow> request \<Rightarrow> bool" where
  "on_its_way subpath r r' \<longleftrightarrow>
     slash_path (reqURL r') \<and> Path (reqURL r') = subpath \<and> ContentLength r' = 0 \<and> carries r r'"

lemma on_its_wayD:
  assumes "on_its_way subpath r r'"
  shows "slash_path (reqURL r')" and "Path (reqURL r') = subpath" and "ContentLength r' = 0"
    and "RawQuery (reqURL r') = RawQuery (reqURL r)" and "upgradeType (Header r') = upgradeType (Header r)"
  using assms by (simp_all add: on_its_way_def carries_def)

lemma on_its_way_start:
  assumes "HasPrefix subpath ''/''" and "ContentLength r = 0"
  shows "on_its_way subpath r (closeBody (agent_request subpath r))"
  using agent_request_slash [OF assms(1), of r] assms(2) carries_agent [of r subpath]
  by (simp add: on_its_way_def) (simp add: closeBody_def agent_request_URL)

lemma on_its_way_retry:
  assumes "key_ok key" and "on_its_way subpath r r'"
  shows "on_its_way subpath r (peer_retry key p r')"
proof -
  note s = on_its_wayD [OF assms(2)]
  have "carries r (peer_request key p r')"
    using carries_trans [OF _ carries_peer [OF assms(1) s(1)]] assms(2) by (simp add: on_its_way_def)
  moreover have "carries (closeBody (peer_request key p r')) (peer_retry key p r')"
    by (simp add: peer_retry_def trim_proxy_prefix_def carries_def client_header_def)
  ultimately have "carries r (peer_retry key p r')"
    using carries_trans [of r "closeBody (peer_request key p r')" "peer_retry key p r'"] by simp
  with s show ?thesis by (simp add: on_its_way_def peer_retry_URL [OF assms(1) s(1)])
qed

text \<open>What goes over the network to the peer \<open>p\<close> and comes back.\<close>

lemma peer_transport_replica:
  assumes "replica_env ks yx isnf get exch vars C ge pn cert key peers" and "p \<in> set peers" and "on_its_way subpath r r'"
  obtains c :: conn where "peer_transport pn cert (peer_request key p r') S =
      serve_exchange (peer_handler isnf get (replica_dial ks yx p) (exch p) vars) c (peer_request key p r') S"
proof -
  note env = replica_envD [OF assms(1)]
  note s = on_its_wayD(1,3) [OF assms(3)]
  obtain c where c: "TLSDial pn (peer_tls cert) p S = (Inr c, S)"
      "Exchange pn c = serve_exchange (peer_handler isnf get (replica_dial ks yx p) (exch p) vars) c"
    using env(9) [OF assms(2)] by blast
  have "Host (reqURL (peer_request key p r')) = p" by (simp add: peer_request_URL [OF env(1) s(1)])
  then show ?thesis using c s(2) by (intro that [of c]) (simp add: peer_transport_def RoundTrip_def peer_tls_def)
qed

lemma peer_without_session:
  assumes "replica_env ks yx isnf get exch vars C ge pn cert key peers" and "p \<in> set peers" and "on_its_way subpath r r'"
    and "no_ctl (RawQuery (reqURL r))" and "replica_dial ks yx p key S = (Inl e, S')"
  shows "\<exists>res. peer_transport pn cert (peer_request key p r') S = (Inr res, S') \<and> StatusCode res = 502"
proof -
  note env = replica_envD [OF assms(1)]
  let ?h = "peer_handler isnf get (replica_dial ks yx p) (exch p) vars" and ?q = "peer_request key p r'"
  note s = on_its_wayD(1,2,4) [OF assms(3)]
  obtain c :: conn where t: "peer_transport pn cert ?q S = serve_exchange ?h c ?q S"
    by (rule peer_transport_replica [where S = S, OF assms(1-3)])
  obtain rB where rB: "received ?q = Inr rB" "Path (reqURL rB) = proxy_prefix key @ subpath"
    by (rule received_slash [OF peer_request_slash [OF env(1) s(1)], of p])
       (use assms(4) s peer_request_URL [OF env(1) s(1), of p] in simp_all)
  obtain cl where g: "get (Namespace key) (Name key) S = (Inr cl, S)" using env(5) by blast
  have "NewProxyHandler isnf get (replica_dial ks yx p) (exch p) None key subpath rB newWriter S = Some (WriteHeader 502 newWriter, S')"
    using proxy_handler_failed [where get = get and key = key and dial = "replica_dial ks yx p" and exch = "exch p",
        OF g RoundTrip_dial_error [where dial = "replica_dial ks yx p key" and exch = "exch p", OF assms(5)]]
    by (simp add: defaultErrorHandler_def)
  then have "?h rB newWriter S = Some (WriteHeader 502 newWriter, S')"
    by (simp only: peer_handler_trim [OF env(2,3) rB(2)])
  from serve_exchange_answer [where h = ?h, OF rB(1) this]
  have "peer_transport pn cert ?q S = (Inr (response_of (WriteHeader 502 newWriter)), S')" by (simp add: t)
  moreover have "StatusCode (response_of (WriteHeader 502 newWriter)) = 502"
    by (simp add: response_of_def WriteHeader_def newWriter_def)
  ultimately show ?thesis by blast
qed

lemma peer_with_session:
  assumes "replica_env ks yx isnf get exch vars C ge pn cert key peers" and "p \<in> set peers" and "on_its_way subpath r r'"
    and "no_ctl (RawQuery (reqURL r))" and "replica_dial ks yx p key S = (Inr c, S')"
  shows "\<exists>q. sent_to_agent subpath r q
    \<and> (\<forall>x S'' a. exch p c q S' = (x, S'') \<and> proxied (upgradeType (Header r)) x newWriter = Some a \<longrightarrow>
         peer_transport pn cert (peer_request key p r') S = (Inr (response_of a), S''))"
proof -
  note env = replica_envD [OF assms(1)] and s = on_its_wayD [OF assms(3)]
  let ?h = "peer_handler isnf get (replica_dial ks yx p) (exch p) vars"
  have nc: "no_ctl (RawQuery (reqURL r'))" using assms(4) s(4) by simp
  obtain cl where g: "get (Namespace key) (Name key) S = (Inr cl, S)" using env(5) by blast
  obtain d :: conn where t: "peer_transport pn cert (peer_request key p r') S = serve_exchange ?h d (peer_request key p r') S"
    by (rule peer_transport_replica [where S = S, OF assms(1-3)])
  obtain q where q: "sent_to_agent subpath r' q
    \<and> (\<forall>x S'' a (c' :: conn). exch p c q S' = (x, S'') \<and> proxied (upgradeType (Header r)) x newWriter = Some a \<longrightarrow>
       serve_exchange ?h c' (peer_request key p r') S = (Inr (response_of a), S''))"
    by (rule exE [OF peer_side [where get = get and dial = "replica_dial ks yx p" and exch = "exch p" and vars = vars and key = key
        and isnf = isnf and peer = p, OF env(1) s(1-3) nc env(2,3) g assms(5), unfolded s(5)]])
  show ?thesis
  proof (intro exI [of _ q] conjI allI impI)
    show "sent_to_agent subpath r q"
      using conjunct1 [OF q] assms(3) carries_trans unfolding sent_to_agent_def on_its_way_def by blast
    fix x S'' a
    assume "exch p c q S' = (x, S'') \<and> proxied (upgradeType (Header r)) x newWriter = Some a"
    from q [THEN conjunct2, THEN spec, THEN spec, THEN spec, THEN spec, THEN mp, OF this, of d]
    show "peer_transport pn cert (peer_request key p r') S = (Inr (response_of a), S'')" by (simp add: t)
  qed
qed

section \<open>Asking one after the other\<close>

text \<open>\<open>c\<close> is a stream opened on a living session that the replica \<open>p\<close> holds for the cluster.\<close>

definition opened_at ::
    "(NamespacedName \<Rightarrow> string) \<Rightarrow> 'w yamux \<Rightarrow> ('w \<Rightarrow> session \<Rightarrow> bool) \<Rightarrow> NamespacedName \<Rightarrow> 'w replicas \<Rightarrow> string \<Rightarrow> conn \<Rightarrow> bool" where
  "opened_at ks yx alive key S p c \<longleftrightarrow>
     (\<exists>s w0 w1. s \<in># held (S p) (ks key) \<and> alive (world (S p)) s \<and> Open yx s w0 = (Inr c, w1))"

lemma opened_at_serving: "opened_at ks yx alive key S p c \<Longrightarrow> serving ks alive key S p"
  by (auto simp: opened_at_def serving_def)

text \<open>An answer of the member that the replicas pass on: not a 502, and no switch that was not asked for.\<close>

definition passed_on :: "request \<Rightarrow> response \<Rightarrow> bool" where
  "passed_on r res \<longleftrightarrow> StatusCode res \<noteq> 502 \<and> switch_wanted (upgradeType (Header r)) res"

text \<open>
  The first of the replicas that serves the cluster carries the request; \<open>answer\<close> is what the client is
  sent, given what the agent at the end of the stream answers.
\<close>

definition first_serves ::
    "(NamespacedName \<Rightarrow> string) \<Rightarrow> 'w yamux \<Rightarrow> ('w \<Rightarrow> session \<Rightarrow> bool) \<Rightarrow> NamespacedName \<Rightarrow>
       (string \<Rightarrow> conn \<Rightarrow> request \<Rightarrow> 'w replicas \<Rightarrow> response res \<times> 'w replicas) \<Rightarrow> string \<Rightarrow> request \<Rightarrow> writer \<Rightarrow>
       'w replicas \<Rightarrow> string list \<Rightarrow> (writer \<times> 'w replicas) option \<Rightarrow> bool" where
  "first_serves ks yx alive key exch subpath r w S ps answer \<longleftrightarrow>
     (\<exists>pre p post c q S1. ps = pre @ p # post \<and> (\<forall>x\<in>set pre. \<not> serving ks alive key S x)
        \<and> opened_at ks yx alive key S p c \<and> sent_to_agent subpath r q
        \<and> (\<forall>res S2. exch p c q S1 = (Inr res, S2) \<and> passed_on r res \<longrightarrow>
             (\<exists>w'. answer = Some (w', S2) \<and> delivered (upgradeType (Header r)) (Inr res) w w')))"

lemma first_serves_later:
  assumes "first_serves ks yx alive key exch subpath r w S' ps answer" and "\<not> serving ks alive key S p"
    and "\<And>x. serving ks alive key S' x \<longleftrightarrow> serving ks alive key S x" and "S' = S(p := h)"
  shows "first_serves ks yx alive key exch subpath r w S (p # ps) answer"
proof -
  obtain pre x post c q S1 where f: "ps = pre @ x # post" "\<forall>y\<in>set pre. \<not> serving ks alive key S' y"
      "opened_at ks yx alive key S' x c" "sent_to_agent subpath r q"
      "\<forall>res S2. exch x c q S1 = (Inr res, S2) \<and> passed_on r res \<longrightarrow>
         (\<exists>w'. answer = Some (w', S2) \<and> delivered (upgradeType (Header r)) (Inr res) w w')"
    using assms(1) unfolding first_serves_def by (elim exE conjE) rule
  have "x \<noteq> p" using opened_at_serving [OF f(3)] assms(2,3) by auto
  then have "opened_at ks yx alive key S x c" using f(3) assms(4) by (simp add: opened_at_def)
  moreover have "\<forall>y\<in>set (p # pre). \<not> serving ks alive key S y" using f(2) assms(2,3) by simp
  moreover have "p # ps = (p # pre) @ x # post" using f(1) by simp
  ultimately show ?thesis using f(4,5) unfolding first_serves_def
    by (intro exI [of _ "p # pre"] exI [of _ x] exI [of _ post] exI [of _ c] exI [of _ q] exI [of _ S1] conjI)
qed

lemma first_serves_here:
  assumes "opened_at ks yx alive key S p c" and "sent_to_agent subpath r q"
    and "\<And>res S2. exch p c q S1 = (Inr res, S2) \<Longrightarrow> passed_on r res \<Longrightarrow>
      \<exists>w'. answer = Some (w', S2) \<and> delivered (upgradeType (Header r)) (Inr res) w w'"
  shows "first_serves ks yx alive key exch subpath r w S (p # ps) answer"
  unfolding first_serves_def
proof (intro exI conjI)
  show "p # ps = [] @ p # ps" by simp
  show "\<forall>res S2. exch p c q S1 = (Inr res, S2) \<and> passed_on r res \<longrightarrow>
     (\<exists>w'. answer = Some (w', S2) \<and> delivered (upgradeType (Header r)) (Inr res) w w')"
    using assms(3) by blast
qed (use assms(1,2) in simp_all)

lemma peer_answers:
  assumes "yamux_doc yx alive" and "replica_env ks yx isnf get exch vars C ge pn cert key peers" and "p \<in> set peers"
    and "on_its_way subpath r r'" and "no_ctl (RawQuery (reqURL r))" and "fresh w" and "serving ks alive key S p"
  shows "first_serves ks yx alive key exch subpath r w S (p # ps) (Some (peer_search C pn key (p # ps) w r' S))"
proof -
  note env = replica_envD [OF assms(2)]
  obtain c h s w0 where d: "replica_dial ks yx p key S = (Inr c, S(p := h))" and s: "s \<in># held (S p) (ks key)"
      "alive (world (S p)) s" "Open yx s w0 = (Inr c, world h)"
    by (rule replica_dial_opened [OF assms(1,7)])
  obtain q where q: "sent_to_agent subpath r q
    \<and> (\<forall>x S'' a. exch p c q (S(p := h)) = (x, S'') \<and> proxied (upgradeType (Header r)) x newWriter = Some a \<longrightarrow>
         peer_transport pn cert (peer_request key p r') S = (Inr (response_of a), S''))"
    by (rule exE [OF peer_with_session [OF assms(2-5) d]])
  show ?thesis
  proof (rule first_serves_here [of _ _ _ _ _ _ c _ _ q _ "S(p := h)"])
    show "opened_at ks yx alive key S p c" unfolding opened_at_def using s by blast
    show "sent_to_agent subpath r q" by (rule conjunct1 [OF q])
    fix res S2
    assume x: "exch p c q (S(p := h)) = (Inr res, S2)" and n: "passed_on r res"
    obtain a where a: "proxied (upgradeType (Header r)) (Inr res) newWriter = Some a"
      using n proxied_wanted [of "upgradeType (Header r)" res newWriter] by (auto simp: passed_on_def)
    have t: "peer_transport pn cert (peer_request key p r') S = (Inr (response_of a), S2)"
      by (rule q [THEN conjunct2, THEN spec, THEN spec, THEN spec, THEN mp, OF conjI [OF x a]])
    obtain w' where w': "proxied (upgradeType (Header r)) (Inr (response_of a)) w = Some w'"
        "delivered (upgradeType (Header r)) (Inr res) w w'"
      using proxied_twice [OF assms(6) a] by blast
    have "peer_search C pn key (p # ps) w r' S = (w', S2)"
      by (rule peer_search_proxied [OF env(1) env(7,8) [OF assms(3)] env(4) t])
        (use n w'(1) on_its_wayD(5) [OF assms(4)] proxied_response(1) [OF a] in \<open>simp_all add: passed_on_def\<close>)
    with w'(2) show "\<exists>w'. Some (peer_search C pn key (p # ps) w r' S) = Some (w', S2)
        \<and> delivered (upgradeType (Header r)) (Inr res) w w'" by simp
  qed
qed

lemma peer_passes_on:
  assumes "yamux_doc yx alive" and "replica_env ks yx isnf get exch vars C ge pn cert key peers" and "p \<in> set peers"
    and "on_its_way subpath r r'" and "no_ctl (RawQuery (reqURL r))" and "\<not> serving ks alive key S p"
  obtains h where "peer_search C pn key (p # ps) w r' S = peer_search C pn key ps w (peer_retry key p r') (S(p := h))"
    and "\<And>x. serving ks alive key (S(p := h)) x \<longleftrightarrow> serving ks alive key S x"
proof -
  note env = replica_envD [OF assms(2)]
  obtain e h where d: "replica_dial ks yx p key S = (Inl e, S(p := h))"
      "\<And>x. serving ks alive key (S(p := h)) x \<longleftrightarrow> serving ks alive key S x"
    by (rule replica_dial_failed [OF assms(1,6)]) blast
  obtain res where "peer_transport pn cert (peer_request key p r') S = (Inr res, S(p := h))" "StatusCode res = 502"
    using peer_without_session [OF assms(2-5) d(1)] by blast
  from peer_search_502 [OF env(1) env(7,8) [OF assms(3)] env(4) this] d(2) show ?thesis by (rule that)
qed

lemma search_replicas:
  assumes "yamux_doc yx alive" and "replica_env ks yx isnf get exch vars C ge pn cert key peers"
    and "no_ctl (RawQuery (reqURL r))" and "fresh w"
  shows "set ps \<subseteq> set peers \<Longrightarrow> on_its_way subpath r r' \<Longrightarrow>
    first_serves ks yx alive key exch subpath r w S ps (Some (peer_search C pn key ps w r' S))
    \<or> (\<forall>x\<in>set ps. \<not> serving ks alive key S x) \<and> (\<exists>S'. peer_search C pn key ps w r' S = (WriteHeader 502 w, S'))"
proof (induction ps arbitrary: r' S)
  case (Cons p ps)
  then have p: "p \<in> set peers" and ps: "set ps \<subseteq> set peers" by simp_all
  show ?case
  proof (cases "serving ks alive key S p")
    case True
    from peer_answers [OF assms(1,2) p Cons.prems(2) assms(3,4) this] show ?thesis by (rule disjI1)
  next
    case False
    obtain h where h: "peer_search C pn key (p # ps) w r' S = peer_search C pn key ps w (peer_retry key p r') (S(p := h))"
        "\<And>x. serving ks alive key (S(p := h)) x \<longleftrightarrow> serving ks alive key S x"
      by (rule peer_passes_on [where ps = ps and w = w, OF assms(1,2) p Cons.prems(2) assms(3) False]) blast
    from Cons.IH [OF ps on_its_way_retry [OF replica_envD(1) [OF assms(2)] Cons.prems(2), of p], of "S(p := h)"]
    show ?thesis
    proof (rule disjE)
      assume "first_serves ks yx alive key exch subpath r w (S(p := h)) ps
        (Some (peer_search C pn key ps w (peer_retry key p r') (S(p := h))))"
      from first_serves_later [OF this False h(2) refl] show ?thesis unfolding h(1) by (rule disjI1)
    next
      assume "(\<forall>x\<in>set ps. \<not> serving ks alive key (S(p := h)) x)
        \<and> (\<exists>S'. peer_search C pn key ps w (peer_retry key p r') (S(p := h)) = (WriteHeader 502 w, S'))"
      then show ?thesis unfolding h(1) h(2) using False by (intro disjI2) simp
    qed
  qed
qed simp

section \<open>Any replica\<close>

text \<open>
  Any replica serves every cluster that one of them serves. A request without a body that arrives
  at the replica \<open>self\<close> is forwarded over a living session of the first of \<open>self\<close> and its peers that has one,
  with its path behind the subresource, query and method, and the client gets what the agent answers: status, body and
  headers, or the connection after the protocol switch it has asked for (a 502 of the member and a switch to
  something else apart). If no replica has a living session, the client gets a 502.
\<close>

lemma any_replica_serves:
  assumes "yamux_doc yx alive" and "replica_env ks yx isnf get exch vars C ge pn cert key peers"
    and "HasPrefix subpath ''/''" and "no_ctl (RawQuery (reqURL r))" and "ContentLength r = 0" and "reqBody r \<noteq> ClosedBody"
    and "fresh w"
    and "answer = NewProxyHandler isnf get (replica_dial ks yx self) (exch self) (Some (NewManager C ge pn)) key subpath r w S"
  shows "((\<exists>p\<in>set (self # peers). serving ks alive key S p) \<longrightarrow>
      first_serves ks yx alive key exch subpath r w S (self # peers) answer)
    \<and> ((\<forall>p\<in>set (self # peers). \<not> serving ks alive key S p) \<longrightarrow> (\<exists>S'. answer = Some (WriteHeader 502 w, S')))"
proof (cases "serving ks alive key S self")
  case True
  obtain cl where g: "get (Namespace key) (Name key) S = (Inr cl, S)" using replica_envD(5) [OF assms(2)] by blast
  obtain c h s w0 where d: "replica_dial ks yx self key S = (Inr c, S(self := h))" and s: "s \<in># held (S self) (ks key)"
      "alive (world (S self)) s" "Open yx s w0 = (Inr c, world h)"
    by (rule replica_dial_opened [OF assms(1) True])
  have "opened_at ks yx alive key S self c" unfolding opened_at_def using s by blast
  then have "first_serves ks yx alive key exch subpath r w S (self # peers) answer"
  proof (rule first_serves_here [where q = "agent_request subpath r"])
    show "sent_to_agent subpath r (agent_request subpath r)" unfolding sent_to_agent_def using carries_refl by blast
    fix res S2
    assume x: "exch self c (agent_request subpath r) (S(self := h)) = (Inr res, S2)" and n: "passed_on r res"
    obtain w' where w': "proxied (upgradeType (Header r)) (Inr res) w = Some w'"
      using n proxied_wanted [of "upgradeType (Header r)" res w] by (auto simp: passed_on_def)
    have "answer = Some (w', S2)" unfolding assms(8)
      by (rule proxy_handler_proxied [where get = get and key = key and dial = "replica_dial ks yx self" and exch = "exch self",
            OF g d assms(6) x w'])
    with proxied_delivered [OF assms(7) w']
    show "\<exists>w'. answer = Some (w', S2) \<and> delivered (upgradeType (Header r)) (Inr res) w w'" by blast
  qed
  with True show ?thesis by simp
next
  case False
  note env = replica_envD [OF assms(2)]
  let ?r = "closeBody (agent_request subpath r)"
  obtain cl where g: "get (Namespace key) (Name key) S = (Inr cl, S)" using env(5) by blast
  obtain e h where d: "replica_dial ks yx self key S = (Inl e, S(self := h))"
      "\<And>x. serving ks alive key (S(self := h)) x \<longleftrightarrow> serving ks alive key S x"
    by (rule replica_dial_failed [OF assms(1) False]) blast
  have a: "answer = Some (peer_search C pn key peers w ?r (S(self := h)))"
    unfolding assms(8)
    by (rule proxy_without_session [where get = get and key = key and dial = "replica_dial ks yx self", OF g d(1) env(6)])
  from search_replicas [where S = "S(self := h)", OF assms(1,2,4,7) subset_refl on_its_way_start [OF assms(3,5)]]
  show ?thesis
  proof (rule disjE)
    assume "first_serves ks yx alive key exch subpath r w (S(self := h)) peers (Some (peer_search C pn key peers w ?r (S(self := h))))"
    from first_serves_later [OF this [folded a] False d(2) refl]
    have f: "first_serves ks yx alive key exch subpath r w S (self # peers) answer" .
    then have "\<exists>p\<in>set (self # peers). serving ks alive key S p"
      unfolding first_serves_def by (elim exE conjE) (use opened_at_serving in fastforce)
    with f show ?thesis by blast
  next
    assume "(\<forall>x\<in>set peers. \<not> serving ks alive key (S(self := h)) x)
      \<and> (\<exists>S'. peer_search C pn key peers w ?r (S(self := h)) = (WriteHeader 502 w, S'))"
    then show ?thesis unfolding a d(2) using False by simp
  qed
qed

text \<open>Two replicas: the one that is asked has no session, the other the sessions of \<open>demo_hub\<close>.\<close>

definition demo_replicas :: "nat replicas" where
  "demo_replicas p = (if p = ''10.0.0.2:6443'' then demo_hub else \<lparr>mgr = NewSessionManager, rand = sconst 0, world = 0\<rparr>)"

definition demo_route_vars :: "string \<Rightarrow> string" where
  "demo_route_vars v = (if v = ''namespace'' then ''default'' else ''sample'')"

definition demo_rep_net ::
    "(string \<Rightarrow> conn \<Rightarrow> request \<Rightarrow> nat replicas \<Rightarrow> response res \<times> nat replicas) \<Rightarrow> (unit, nat replicas) peer_net" where
  "demo_rep_net exch = \<lparr>LoadX509KeyPair = (\<lambda>_ _ s. (Inr (), s)), TLSDial = (\<lambda>_ _ s. (Inr 0, s)),
     Exchange = serve_exchange (peer_handler (\<lambda>_. False) (demo_lookup ''abc'') (replica_dial demo_ks demo_yamux ''10.0.0.2:6443'')
       (exch ''10.0.0.2:6443'') demo_route_vars)\<rparr>"

definition demo_rep_endpoints :: "nat replicas get_endpoints" where
  "demo_rep_endpoints ns name s =
     (Inr [\<lparr>Addresses = [''10.0.0.1'', ''10.0.0.2''], Ports = [\<lparr>portName = ''peer'', Port = 6443\<rparr>]\<rparr>], s)"

lemma demo_replica_env:
  "replica_env demo_ks demo_yamux (\<lambda>_. False) (demo_lookup ''abc'') exch demo_route_vars demo_C demo_rep_endpoints
     (demo_rep_net exch) () demo_key [''10.0.0.2:6443'']"
proof -
  have "show_int 6443 = ''6443''" by (simp add: show_int_def show_nat.simps digit_def) code_simp
  then have "Manager_ListPeers demo_C demo_rep_endpoints s = (Inr [''10.0.0.2:6443''], s)" for s
    by (simp add: Manager_ListPeers_def demo_rep_endpoints_def demo_C_def)
  moreover have "demo_route_vars ''namespace'' = Namespace demo_key" "demo_route_vars ''name'' = Name demo_key"
    by (simp_all add: demo_route_vars_def demo_key_def)
  moreover have "cert_loads demo_C (demo_rep_net exch) ()" by (simp add: cert_loads_def demo_rep_net_def)
  ultimately show ?thesis unfolding replica_env_def using demo_key_ok demo_peer_ok by (simp add: demo_rep_net_def)
qed

end
