(* ===== verification/Transport_Pool.thy ===== *)
theory Transport_Pool
  imports End_To_End
begin

text \<open>
  The idle connections of \<^verbatim>\<open>http.Transport\<close>. A transport keeps the connection of an answered request for the
  next request to the same host. The hub makes a new transport for each request it proxies
  (\<^verbatim>\<open>pkg/hub/cluster/subresources.go\<close>), so nothing is ever reused and every request leaves its stream open
  (\<open>hub_streams_accumulate\<close>); the agent has one transport for all requests (\<^verbatim>\<open>cmd/kopilot-agent/main.go\<close>)
  and reuses its connection (\<open>agent_reuses_connections\<close>).
\<close>

section \<open>The transport\<close>

text \<open>
  What the sources leave at its default: connections are kept alive, at most two idle ones per host,
  and an idle one is kept for any length of time.
\<close>

record 'c Transport =
  idleConn :: "string \<Rightarrow> 'c list"

definition newTransport :: "'c Transport" where
  "newTransport = \<lparr>idleConn = (\<lambda>_. [])\<rparr>"

definition DefaultMaxIdleConnsPerHost :: nat where
  "DefaultMaxIdleConnsPerHost = 2"

definition getConn ::
    "(string \<Rightarrow> 's \<Rightarrow> 'c res \<times> 's) \<Rightarrow> string \<Rightarrow> 'c Transport \<times> 's \<Rightarrow> 'c res \<times> 'c Transport \<times> 's" where
  "getConn dial host ts =
     (case ts of (t, s) \<Rightarrow>
        (case idleConn t host of
           c # cs \<Rightarrow> (Inr c, t\<lparr>idleConn := (idleConn t)(host := cs)\<rparr>, s)
         | [] \<Rightarrow> (let (res, s) = dial host s in (res, t, s))))"

definition putOrCloseIdleConn ::
    "('c \<Rightarrow> 's \<Rightarrow> 's) \<Rightarrow> string \<Rightarrow> 'c \<Rightarrow> 'c Transport \<times> 's \<Rightarrow> 'c Transport \<times> 's" where
  "putOrCloseIdleConn closeConn host c ts =
     (case ts of (t, s) \<Rightarrow>
        (if length (idleConn t host) < DefaultMaxIdleConnsPerHost
         then (t\<lparr>idleConn := (idleConn t)(host := c # idleConn t host)\<rparr>, s)
         else (t, closeConn c s)))"

text \<open>
  \<open>wire\<close> sends a request over a connection and reads the whole response; \<open>keeps\<close> tells whether the two
  allow the connection to be kept (neither side asked to close it).
\<close>

definition Transport_RoundTrip ::
    "(string \<Rightarrow> 's \<Rightarrow> 'c res \<times> 's) \<Rightarrow> ('c \<Rightarrow> request \<Rightarrow> 's \<Rightarrow> response res \<times> 's) \<Rightarrow> ('c \<Rightarrow> 's \<Rightarrow> 's) \<Rightarrow>
       (request \<Rightarrow> response \<Rightarrow> bool) \<Rightarrow> request \<Rightarrow> 'c Transport \<times> 's \<Rightarrow> response res \<times> 'c Transport \<times> 's" where
  "Transport_RoundTrip dial wire closeConn keeps r ts =
     (case getConn dial (Host (reqURL r)) ts of
        (Inl e, ts) \<Rightarrow> (Inl e, ts)
      | (Inr c, t, s) \<Rightarrow>
          (if reqBody r = ClosedBody \<and> ContentLength r \<noteq> 0 then (Inl ErrBodyReadAfterClose, t, closeConn c s)
           else case wire c r s of
               (Inl e, s) \<Rightarrow> (Inl e, t, closeConn c s)
             | (Inr res, s) \<Rightarrow>
                 if keeps r res then (Inr res, putOrCloseIdleConn closeConn (Host (reqURL r)) c (t, s))
                 else (Inr res, t, closeConn c s)))"

subsection \<open>A transport for one request\<close>

text \<open>
  With a transport of its own a request dials, and a connection that is kept is kept for nobody: the
  exchange of \<open>RoundTrip\<close> with what becomes of its connection.
\<close>

definition unshared ::
    "('c \<Rightarrow> request \<Rightarrow> 's \<Rightarrow> response res \<times> 's) \<Rightarrow> ('c \<Rightarrow> 's \<Rightarrow> 's) \<Rightarrow> (request \<Rightarrow> response \<Rightarrow> bool) \<Rightarrow>
       'c \<Rightarrow> request \<Rightarrow> 's \<Rightarrow> response res \<times> 's" where
  "unshared wire closeConn keeps c r s =
     (case wire c r s of
        (Inl e, s) \<Rightarrow> (Inl e, closeConn c s)
      | (Inr res, s) \<Rightarrow> (Inr res, if keeps r res then s else closeConn c s))"

lemma new_transport_RoundTrip:
  assumes "reqBody r \<noteq> ClosedBody \<or> ContentLength r = 0"
  shows "(let (x, t, s') = Transport_RoundTrip dial wire closeConn keeps r (newTransport, s) in (x, s')) =
    RoundTrip (dial (Host (reqURL r))) (unshared wire closeConn keeps) r s"
  using assms
  by (auto simp: Transport_RoundTrip_def getConn_def newTransport_def RoundTrip_def unshared_def putOrCloseIdleConn_def
      DefaultMaxIdleConnsPerHost_def split: prod.split sum.split)

subsection \<open>A transport for all requests\<close>

text \<open>Connections that are open: dialling opens one, closing closes it, sending a request does neither.\<close>

definition conn_ledger ::
    "('s \<Rightarrow> 'c multiset) \<Rightarrow> (string \<Rightarrow> 's \<Rightarrow> 'c res \<times> 's) \<Rightarrow> ('c \<Rightarrow> request \<Rightarrow> 's \<Rightarrow> response res \<times> 's) \<Rightarrow> ('c \<Rightarrow> 's \<Rightarrow> 's) \<Rightarrow> bool" where
  "conn_ledger opened dial wire closeConn \<longleftrightarrow>
     (\<forall>host s c s'. dial host s = (Inr c, s') \<longrightarrow> opened s' = add_mset c (opened s))
     \<and> (\<forall>host s e s'. dial host s = (Inl e, s') \<longrightarrow> opened s' = opened s)
     \<and> (\<forall>c r s res s'. wire c r s = (res, s') \<longrightarrow> opened s' = opened s)
     \<and> (\<forall>c s. opened (closeConn c s) = opened s - {#c#})"

lemma conn_ledgerD:
  assumes "conn_ledger opened dial wire closeConn"
  shows "dial host s = (Inr c, s') \<Longrightarrow> opened s' = add_mset c (opened s)"
    and "dial host s = (Inl e, s') \<Longrightarrow> opened s' = opened s"
    and "wire c r s = (res, s') \<Longrightarrow> opened s' = opened s"
    and "opened (closeConn c s) = opened s - {#c#}"
  using assms unfolding conn_ledger_def by blast+

text \<open>One request at a time, to one host: beside the connections of others, at most one idle connection is open.\<close>

definition one_idle :: "('s \<Rightarrow> 'c multiset) \<Rightarrow> 'c multiset \<Rightarrow> string \<Rightarrow> 'c Transport \<times> 's \<Rightarrow> bool" where
  "one_idle opened base host ts \<longleftrightarrow>
     opened (snd ts) = base + mset (idleConn (fst ts) host) \<and> length (idleConn (fst ts) host) \<le> 1"

lemma getConn_idle:
  assumes "conn_ledger opened dial wire closeConn" and "one_idle opened base host ts"
    and "getConn dial host ts = (res, t, s)"
  shows "idleConn t host = []" and "opened s = base + (case res of Inl _ \<Rightarrow> {#} | Inr c \<Rightarrow> {#c#})"
proof -
  obtain t0 s0 where ts: "ts = (t0, s0)" by fastforce
  have "idleConn t host = [] \<and> opened s = base + (case res of Inl _ \<Rightarrow> {#} | Inr c \<Rightarrow> {#c#})"
  proof (cases "idleConn t0 host")
    case Nil
    then show ?thesis
      using assms(2,3) conn_ledgerD(1,2) [OF assms(1)]
      by (cases res) (auto simp: getConn_def ts one_idle_def split: prod.splits)
  next
    case (Cons c cs)
    then have "cs = []" using assms(2) by (simp add: ts one_idle_def)
    with Cons assms(2,3) show ?thesis by (auto simp: getConn_def ts one_idle_def)
  qed
  then show "idleConn t host = []" and "opened s = base + (case res of Inl _ \<Rightarrow> {#} | Inr c \<Rightarrow> {#c#})" by blast+
qed

lemma Transport_RoundTrip_idle:
  assumes "conn_ledger opened dial wire closeConn" and "one_idle opened base (Host (reqURL r)) ts"
    and "Transport_RoundTrip dial wire closeConn keeps r ts = (x, ts')"
  shows "one_idle opened base (Host (reqURL r)) ts'"
proof -
  let ?host = "Host (reqURL r)"
  obtain res t s where g: "getConn dial ?host ts = (res, t, s)" by (cases "getConn dial ?host ts") auto
  note i = getConn_idle [OF assms(1,2) g]
  show ?thesis
  proof (cases res)
    case (Inl e)
    then show ?thesis using assms(3) i by (auto simp: Transport_RoundTrip_def g one_idle_def)
  next
    case (Inr c)
    obtain y s1 where w: "wire c r s = (y, s1)" by fastforce
    have "opened s1 = base + {#c#}" using conn_ledgerD(3) [OF assms(1) w] i(2) Inr by simp
    then show ?thesis
      using assms(3) i Inr w conn_ledgerD(4) [OF assms(1)]
      by (auto simp: Transport_RoundTrip_def g one_idle_def putOrCloseIdleConn_def DefaultMaxIdleConnsPerHost_def
          split: if_splits sum.splits)
  qed
qed

section \<open>Requests one after the other\<close>

fun serve_all :: "'s handler \<Rightarrow> request list \<Rightarrow> 's \<Rightarrow> (writer list \<times> 's) option" where
  "serve_all h [] s = Some ([], s)"
| "serve_all h (r # rs) s =
     (case h r newWriter s of
        None \<Rightarrow> None
      | Some (w, s) \<Rightarrow> (case serve_all h rs s of None \<Rightarrow> None | Some (ws, s) \<Rightarrow> Some (w # ws, s)))"

text \<open>An invariant of the handler holds after any number of requests.\<close>

lemma serve_all_invariant:
  assumes "\<And>r w s. I s \<Longrightarrow> \<exists>w' s'. h r w s = Some (w', s') \<and> I s'"
  shows "I s \<Longrightarrow> \<exists>ws s'. serve_all h rs s = Some (ws, s') \<and> I s'"
proof (induction rs arbitrary: s)
  case (Cons r rs)
  obtain w s1 where h: "h r newWriter s = Some (w, s1)" "I s1" using assms [OF Cons.prems] by blast
  from Cons.IH [OF this(2)] h(1) show ?case by auto
qed simp

section \<open>The agent\<close>

text \<open>The proxy of the agent with its transport, which is part of the state.\<close>

definition agent_proxy_shared ::
    "('pool \<Rightarrow> string \<Rightarrow> 's \<Rightarrow> 'c res \<times> 's) \<Rightarrow> ('c \<Rightarrow> request \<Rightarrow> 's \<Rightarrow> response res \<times> 's) \<Rightarrow> ('c \<Rightarrow> 's \<Rightarrow> 's) \<Rightarrow>
       (request \<Rightarrow> response \<Rightarrow> bool) \<Rightarrow> 'pool agent_server \<Rightarrow> ('c Transport \<times> 's) handler" where
  "agent_proxy_shared dialTLS wire closeConn keeps srv req w ts =
     (case ServeHTTP (agent_director srv) (Transport_RoundTrip (dialTLS (RootCAs srv)) wire closeConn keeps)
             (\<lambda>_. None) req w ts of
        Replied w ts \<Rightarrow> Some (w, ts)
      | CallErrorHandler w r e ts \<Rightarrow> Some (defaultErrorHandler w, ts))"

text \<open>Its first request is served as by \<open>agent_proxy\<close>.\<close>

lemma agent_first_request:
  assumes "reqBody (agent_outgoing srv r) \<noteq> ClosedBody \<or> ContentLength (agent_outgoing srv r) = 0"
  shows "map_option (\<lambda>(w, t, s). (w, s)) (agent_proxy_shared dialTLS wire closeConn keeps srv r w (newTransport, s)) =
    agent_proxy dialTLS (unshared wire closeConn keeps) srv r w s"
proof -
  let ?q = "outgoing_request (agent_director srv) r"
  obtain x t s' where x: "Transport_RoundTrip (dialTLS (RootCAs srv)) wire closeConn keeps ?q (newTransport, s) = (x, t, s')"
    by (cases "Transport_RoundTrip (dialTLS (RootCAs srv)) wire closeConn keeps ?q (newTransport, s)") auto
  then have "RoundTrip (dialTLS (RootCAs srv) (Host (reqURL ?q))) (unshared wire closeConn keeps) ?q s = (x, s')"
    using new_transport_RoundTrip [OF assms [unfolded agent_outgoing_def], of "dialTLS (RootCAs srv)" wire closeConn keeps s] by simp
  with x show ?thesis
    by (cases x) (simp_all add: agent_proxy_shared_def agent_proxy_def ServeHTTP_def switch_protocols_def Let_def)
qed

lemma agent_outgoing_host: "Host (reqURL (agent_outgoing srv r)) = Host (apiserverURL srv)"
  by (simp add: agent_outgoing_fields single_host_URL)

lemma agent_shared_idle:
  assumes "conn_ledger opened (dialTLS (RootCAs srv)) wire closeConn"
    and "one_idle opened base (Host (apiserverURL srv)) ts"
  shows "\<exists>w' ts'. agent_proxy_shared dialTLS wire closeConn keeps srv r w ts = Some (w', ts')
    \<and> one_idle opened base (Host (apiserverURL srv)) ts'"
proof -
  let ?rt = "Transport_RoundTrip (dialTLS (RootCAs srv)) wire closeConn keeps"
  let ?o = "ServeHTTP (agent_director srv) ?rt (\<lambda>_. None) r w ts"
  obtain x ts' where x: "?rt (agent_outgoing srv r) ts = (x, ts')" by (rule prod.exhaust)
  have "one_idle opened base (Host (apiserverURL srv)) ts'"
    using Transport_RoundTrip_idle [OF assms(1) _ x] assms(2) by (simp add: agent_outgoing_host)
  moreover have "outcome_state ?o = ts'" using x by (simp add: ServeHTTP_state agent_outgoing_def)
  ultimately show ?thesis by (cases ?o) (auto simp: agent_proxy_shared_def)
qed

section \<open>The hub\<close>

text \<open>
  The streams of a hub: opening one adds to those that are open, and a session on which no stream can be
  opened has none, so that closing it changes nothing.
\<close>

definition stream_law :: "'w yamux \<Rightarrow> ('w \<Rightarrow> conn multiset) \<Rightarrow> bool" where
  "stream_law yx opened \<longleftrightarrow>
     (\<forall>s w c w'. Open yx s w = (Inr c, w') \<longrightarrow> opened w' = add_mset c (opened w))
     \<and> (\<forall>s w e w'. Open yx s w = (Inl e, w') \<longrightarrow> opened (Close yx s w') = opened w)"

lemma dial_spec_streams:
  assumes "stream_law yx opened"
  shows "dial_spec yx cid M w res M' w' \<Longrightarrow> res = Inr c \<Longrightarrow> opened w' = add_mset c (opened w)"
proof (induction rule: dial_spec.induct)
  case (dropped s M w e w1 res M' w')
  then show ?case using assms [unfolded stream_law_def, THEN conjunct2] by simp
qed (use assms [unfolded stream_law_def, THEN conjunct1] in auto)

text \<open>Calls that neither open nor close a stream, and leave the sessions alone.\<close>

definition keeps_streams :: "('w \<Rightarrow> conn multiset) \<Rightarrow> 'w hub \<Rightarrow> 'w hub \<Rightarrow> bool" where
  "keeps_streams opened h h' \<longleftrightarrow> mgr h' = mgr h \<and> opened (world h') = opened (world h)"

lemma hub_request_stream:
  fixes opened :: "'w \<Rightarrow> conn multiset" and get :: "('m, 'w hub) cluster_get"
  assumes "stream_law yx opened" and "live yx sess" and "sess \<in># held h (ks key)"
    and "\<And>h. \<exists>cl h'. get (Namespace key) (Name key) h = (Inr cl, h') \<and> keeps_streams opened h h'"
    and "\<And>c q h. \<exists>res h'. wire c q h = (Inr res, h') \<and> keeps q res \<and> StatusCode res \<noteq> 101 \<and> keeps_streams opened h h'"
    and "reqBody r \<noteq> ClosedBody" and "fresh w"
  shows "\<exists>w' h'. NewProxyHandler isnf get (DialCluster ks yx) (unshared wire closeConn keeps) pm key subpath r w h = Some (w', h')
    \<and> sess \<in># held h' (ks key) \<and> size (opened (world h')) = Suc (size (opened (world h)))"
proof -
  let ?q = "agent_request subpath r"
  obtain cl h1 where g: "get (Namespace key) (Name key) h = (Inr cl, h1)" "keeps_streams opened h h1" using assms(4) by blast
  then have h1: "sess \<in># held h1 (ks key)" using assms(3) held_mgr [of h1 h] by (simp add: keeps_streams_def)
  obtain c h2 where d: "DialCluster ks yx key h1 = (Inr c, h2)"
    using sm.dial_live [where ks = ks and k = key, OF assms(2) h1] by blast
  obtain res h3 where x: "wire c ?q h2 = (Inr res, h3)" "keeps ?q res" "StatusCode res \<noteq> 101" "keeps_streams opened h2 h3"
    using assms(5) by blast
  have e: "unshared wire closeConn keeps c ?q h2 = (Inr res, h3)" using x by (simp add: unshared_def)
  have "sess \<in># held h2 (ks key)" by (rule sm.dial_keeps_live [OF d assms(2) h1])
  then have "sess \<in># held h3 (ks key)" using x(4) held_mgr [of h3 h2] by (simp add: keeps_streams_def)
  moreover have "size (opened (world h3)) = Suc (size (opened (world h)))"
    using dial_spec_streams [OF assms(1) sm.dial_held [OF d] refl] g(2) x(4) by (simp add: keeps_streams_def)
  ultimately show ?thesis
    using proxy_local_reply [where get = get and key = key and dial = "DialCluster ks yx"
        and exch = "unshared wire closeConn keeps" and isnf = isnf and pm = pm, OF g(1) d assms(6,7) e x(3)] by blast
qed

section \<open>Properties\<close>

text \<open>
  C23: Every proxied request leaves a stream open. The handler makes a transport for each request and never
  closes its idle connections: after \<open>n\<close> requests over the sessions of a cluster, all answered and read to
  their end on connections that may be kept, the hub has \<open>n\<close> opened more than before.
\<close>

theorem hub_streams_accumulate:
  fixes opened :: "'w \<Rightarrow> conn multiset" and get :: "('m, 'w hub) cluster_get"
  assumes "stream_law yx opened" and "live yx sess" and "sess \<in># held h (ks key)"
    and "\<And>h. \<exists>cl h'. get (Namespace key) (Name key) h = (Inr cl, h') \<and> keeps_streams opened h h'"
    and "\<And>c q h. \<exists>res h'. wire c q h = (Inr res, h') \<and> keeps q res \<and> StatusCode res \<noteq> 101 \<and> keeps_streams opened h h'"
    and "\<And>r. r \<in> set rs \<Longrightarrow> reqBody r \<noteq> ClosedBody"
  shows "\<exists>ws h'. serve_all (NewProxyHandler isnf get (DialCluster ks yx) (unshared wire closeConn keeps) pm key subpath) rs h = Some (ws, h')
    \<and> size (opened (world h')) = size (opened (world h)) + length rs"
  using assms(3,6)
proof (induction rs arbitrary: h)
  case (Cons r rs)
  obtain w h1 where h1: "NewProxyHandler isnf get (DialCluster ks yx) (unshared wire closeConn keeps) pm key subpath r newWriter h = Some (w, h1)"
      "sess \<in># held h1 (ks key)" "size (opened (world h1)) = Suc (size (opened (world h)))"
    using hub_request_stream [where opened = opened and get = get and ks = ks and key = key and wire = wire and keeps = keeps
        and isnf = isnf and closeConn = closeConn and pm = pm and subpath = subpath,
        OF assms(1,2) Cons.prems(1) assms(4,5) _ fresh_newWriter, of r] Cons.prems(2) by auto
  from Cons.IH [OF h1(2)] Cons.prems(2) h1(1,3) show ?case by auto
qed simp

text \<open>A world of streams for the witness: every session but 7 opens.\<close>

definition demo_stream_yamux :: "conn multiset yamux" where
  "demo_stream_yamux = \<lparr>Open = (\<lambda>s w. if s = 7 then (Inl (errors_New ''session shutdown''), w) else (Inr (100 + s), add_mset (100 + s) w)),
     Close = (\<lambda>s w. w)\<rparr>"

definition demo_stream_hub :: "conn multiset hub" where
  "demo_stream_hub = add_session demo_ks demo_key 3 \<lparr>mgr = NewSessionManager, rand = sconst 0, world = {#}\<rparr>"

definition demo_ok :: response where
  "demo_ok = \<lparr>StatusCode = 200, respHeader = Map.empty, respBody = ''pods''\<rparr>"

theorem hub_streams_accumulate_witness:
  "\<exists>ws h'. serve_all (NewProxyHandler (\<lambda>_. False) (demo_lookup ''abc'') (DialCluster demo_ks demo_stream_yamux)
      (unshared (\<lambda>c q h. (Inr demo_ok, h)) (\<lambda>c h. h\<lparr>world := world h - {#c#}\<rparr>) (\<lambda>q res. True)) None demo_key ''/api'')
      [demo_query [], demo_query [], demo_query []] demo_stream_hub = Some (ws, h') \<and> size (world h') = 3"
proof -
  have law: "stream_law demo_stream_yamux (\<lambda>w. w)" and l: "live demo_stream_yamux 3"
    by (auto simp: stream_law_def live_def demo_stream_yamux_def split: if_splits)
  have m: "3 \<in># held demo_stream_hub (demo_ks demo_key)" by (simp add: demo_stream_hub_def sm.add_held)
  have g: "\<exists>cl h'. demo_lookup ''abc'' (Namespace demo_key) (Name demo_key) h = (Inr cl, h') \<and> keeps_streams (\<lambda>w. w) h h'"
    and x: "\<exists>res h'. (Inr demo_ok, h) = (Inr res :: response res, h') \<and> True \<and> StatusCode res \<noteq> 101 \<and> keeps_streams (\<lambda>w. w) h h'"
    for h :: "conn multiset hub"
    by (simp_all add: keeps_streams_def demo_ok_def)
  have b: "reqBody r \<noteq> ClosedBody" if "r \<in> set [demo_query [], demo_query [], demo_query []]" for r
    using that by (simp add: demo_query_def)
  have "size (world demo_stream_hub) = 0" by (simp add: demo_stream_hub_def add_session_def)
  with hub_streams_accumulate [where get = "demo_lookup ''abc''" and key = demo_key and ks = demo_ks and isnf = "\<lambda>_. False"
      and rs = "[demo_query [], demo_query [], demo_query []]"
      and wire = "\<lambda>c q h. (Inr demo_ok, h)" and keeps = "\<lambda>q res. True" and pm = None and subpath = "''/api''"
      and closeConn = "\<lambda>c h. h\<lparr>world := world h - {#c#}\<rparr>",
      OF law l m g x b]
  show ?thesis by (simp add: numeral_3_eq_3 del: serve_all.simps)
qed

text \<open>
  C28: The agent keeps one connection to the API server. Its proxy has one transport: however many requests it
  serves one after the other, whatever they are answered, at most one connection more than before is open.
\<close>

theorem agent_reuses_connections:
  assumes "conn_ledger opened (dialTLS (RootCAs srv)) wire closeConn"
  shows "\<exists>ws t s'. serve_all (agent_proxy_shared dialTLS wire closeConn keeps srv) rs (newTransport, s) = Some (ws, t, s')
    \<and> size (opened s') \<le> size (opened s) + 1"
proof -
  let ?I = "one_idle opened (opened s) (Host (apiserverURL srv))"
  have "?I (newTransport, s)" by (simp add: one_idle_def newTransport_def)
  from serve_all_invariant [where I = ?I and h = "agent_proxy_shared dialTLS wire closeConn keeps srv",
      OF agent_shared_idle [where dialTLS = dialTLS, OF assms] this]
  obtain ws ts where "serve_all (agent_proxy_shared dialTLS wire closeConn keeps srv) rs (newTransport, s) = Some (ws, ts)" "?I ts"
    by blast
  then show ?thesis by (cases ts) (auto simp: one_idle_def)
qed

theorem agent_reuses_connections_witness:
  "\<exists>ws t s'. serve_all (agent_proxy_shared (\<lambda>_ _ s. (Inr (size s), add_mset (size s) s)) (\<lambda>c q s. (Inr demo_ok, s)) (\<lambda>c s. s - {#c#})
      (\<lambda>q res. True) \<lparr>agentSession = 1, apiserverURL = apiserver_target ''kubernetes.default'', agentToken = ''t'', RootCAs = ()\<rparr>)
      [demo_query [], demo_query [], demo_query []] (newTransport, {#}) = Some (ws, t, s') \<and> size (s' :: nat multiset) \<le> 1"
  using agent_reuses_connections [where opened = "\<lambda>s. s" and s = "{#}" and rs = "[demo_query [], demo_query [], demo_query []]"
      and dialTLS = "\<lambda>_ _ s. (Inr (size s), add_mset (size s) s)" and wire = "\<lambda>c q s. (Inr demo_ok, s)" and closeConn = "\<lambda>c s. s - {#c#}"
      and keeps = "\<lambda>q res. True"
      and srv = "\<lparr>agentSession = 1, apiserverURL = apiserver_target ''kubernetes.default'', agentToken = ''t'', RootCAs = ()\<rparr>"]
  by (simp add: conn_ledger_def del: serve_all.simps)

end
