(* ===== verification/Agent_Process.thy ===== *)
theory Agent_Process
  imports End_To_End
begin

text \<open>
  \<^verbatim>\<open>main\<close> of \<^verbatim>\<open>src/cmd/kopilot-agent/main.go\<close> as a process: set-up, the goroutine that waits for a signal, the
  server on the yamux session, and every way the process can end.

  The listener of the server \<^emph>\<open>is\<close> the yamux session: \<^verbatim>\<open>Shutdown\<close>, which first closes the listeners, closes
  the session and with it the streams of the requests in flight. \<^verbatim>\<open>Serve\<close> accepts streams as long as the
  session is open; when \<^verbatim>\<open>Accept\<close> fails it returns, with \<^verbatim>\<open>ErrServerClosed\<close> if \<^verbatim>\<open>Shutdown\<close> was called.
  A signal for which \<^verbatim>\<open>signal.Notify\<close> was not called ends the process.
\<close>

section \<open>State\<close>

text \<open>The flags as the process sees them; \<open>Parse\<close> is \<^verbatim>\<open>flag.Parse\<close> on the registered flags.\<close>

definition agent_parse_flags ::
    "(agent_flag \<Rightarrow> string \<Rightarrow> string \<Rightarrow> string \<Rightarrow> 'fs \<times> agent_flags \<Rightarrow> 'fs \<times> agent_flags) \<Rightarrow>
       ('fs \<times> agent_flags \<Rightarrow> agent_flags) \<Rightarrow> 'fs \<Rightarrow> agent_flags" where
  "agent_parse_flags StringVar Parse fs = Parse (agent_InitFlags StringVar fs)"

datatype signal = Interrupt | SIGTERM

datatype exit = Fatal string | Killed signal | Clean

text \<open>The main goroutine; and the other: before each \<^verbatim>\<open>Notify\<close>, at the receive, in \<^verbatim>\<open>Shutdown\<close>, after closing the channel.\<close>

datatype 'pool agent_main = AtSetup | AtServe "'pool agent_server" | AtWaitIdle | Ended exit

datatype agent_waiter = NotStarted | AtNotify signal | AtReceive | AtShutdown | AtClosed

record ('pool, 's) agent_proc =
  agMain :: "'pool agent_main"
  agWaiter :: agent_waiter
  notified :: "signal set"
  sigint :: bool
  sessionOpen :: bool
  inFlight :: nat
  agWorld :: 's

definition agent_start :: "'s \<Rightarrow> ('pool, 's) agent_proc" where
  "agent_start w = \<lparr>agMain = AtSetup, agWaiter = NotStarted, notified = {}, sigint = False, sessionOpen = False,
     inFlight = 0, agWorld = w\<rparr>"

fun stopping :: "agent_waiter \<Rightarrow> bool" where
  "stopping AtShutdown = True"
| "stopping AtClosed = True"
| "stopping _ = False"

text \<open>What \<^verbatim>\<open>Serve\<close> may return when \<^verbatim>\<open>Accept\<close> has failed.\<close>

definition serve_error :: "agent_waiter \<Rightarrow> err \<Rightarrow> bool" where
  "serve_error g e \<longleftrightarrow> (e = ErrServerClosed \<longleftrightarrow> stopping g)"

definition after_serve :: "err option \<Rightarrow> 'pool agent_main" where
  "after_serve r = (case agent_after_serve r of Exited msg \<Rightarrow> Ended (Fatal msg) | _ \<Rightarrow> AtWaitIdle)"

section \<open>Steps\<close>

text \<open>
  The steps of the program. \<open>inFlight\<close> counts the requests that the server waits for; \<open>finish\<close> is a request that is
  answered, or a connection that the handler takes over for a protocol switch, for which the server does not wait.
\<close>

inductive agent_step ::
    "agent_flags \<Rightarrow> 's agent_net \<Rightarrow> ('pool, 's) ca_store \<Rightarrow> ('pool, 's) agent_proc \<Rightarrow> ('pool, 's) agent_proc \<Rightarrow> bool"
  for flags net ca where
  set_up: "agMain a = AtSetup \<Longrightarrow> agent_setup flags net ca (agWorld a) = (Inr srv, w) \<Longrightarrow>
     agent_step flags net ca a (a\<lparr>agMain := AtServe srv, agWaiter := AtNotify Interrupt, sessionOpen := True, agWorld := w\<rparr>)"
| setup_fatal: "agMain a = AtSetup \<Longrightarrow> agent_setup flags net ca (agWorld a) = (Inl msg, w) \<Longrightarrow>
     agent_step flags net ca a (a\<lparr>agMain := Ended (Fatal msg), agWorld := w\<rparr>)"
| notify_interrupt: "\<forall>x. agMain a \<noteq> Ended x \<Longrightarrow> agWaiter a = AtNotify Interrupt \<Longrightarrow>
     agent_step flags net ca a (a\<lparr>agWaiter := AtNotify SIGTERM, notified := insert Interrupt (notified a)\<rparr>)"
| notify_sigterm: "\<forall>x. agMain a \<noteq> Ended x \<Longrightarrow> agWaiter a = AtNotify SIGTERM \<Longrightarrow>
     agent_step flags net ca a (a\<lparr>agWaiter := AtReceive, notified := insert SIGTERM (notified a)\<rparr>)"
| shutdown: "\<forall>x. agMain a \<noteq> Ended x \<Longrightarrow> agWaiter a = AtReceive \<Longrightarrow> sigint a \<Longrightarrow>
     agent_step flags net ca a (a\<lparr>agWaiter := AtShutdown, sigint := False, sessionOpen := False\<rparr>)"
| idle: "\<forall>x. agMain a \<noteq> Ended x \<Longrightarrow> agWaiter a = AtShutdown \<Longrightarrow> inFlight a = 0 \<Longrightarrow>
     agent_step flags net ca a (a\<lparr>agWaiter := AtClosed\<rparr>)"
| finish: "\<forall>x. agMain a \<noteq> Ended x \<Longrightarrow> inFlight a = Suc n \<Longrightarrow> agent_step flags net ca a (a\<lparr>inFlight := n\<rparr>)"
| serve: "agMain a = AtServe srv \<Longrightarrow> \<not> sessionOpen a \<Longrightarrow> serve_error (agWaiter a) e \<Longrightarrow>
     agent_step flags net ca a (a\<lparr>agMain := after_serve (Some e)\<rparr>)"
| leave: "agMain a = AtWaitIdle \<Longrightarrow> agWaiter a = AtClosed \<Longrightarrow> agent_step flags net ca a (a\<lparr>agMain := Ended Clean\<rparr>)"

text \<open>What comes from outside: requests, signals, the end of the session, and anything in the world.\<close>

inductive agent_env :: "('pool, 's) agent_proc \<Rightarrow> ('pool, 's) agent_proc \<Rightarrow> bool" where
  request: "agMain a = AtServe srv \<Longrightarrow> sessionOpen a \<Longrightarrow> agent_env a (a\<lparr>inFlight := Suc (inFlight a)\<rparr>)"
| signal: "\<forall>x. agMain a \<noteq> Ended x \<Longrightarrow> sg \<in> notified a \<Longrightarrow> agent_env a (a\<lparr>sigint := True\<rparr>)"
| kill: "\<forall>x. agMain a \<noteq> Ended x \<Longrightarrow> sg \<notin> notified a \<Longrightarrow> agent_env a (a\<lparr>agMain := Ended (Killed sg)\<rparr>)"
| lost: "sessionOpen a \<Longrightarrow> agent_env a (a\<lparr>sessionOpen := False\<rparr>)"
| elsewhere: "agent_env a (a\<lparr>agWorld := w\<rparr>)"

inductive agent_reachable ::
    "agent_flags \<Rightarrow> 's agent_net \<Rightarrow> ('pool, 's) ca_store \<Rightarrow> ('pool, 's) agent_proc \<Rightarrow> bool"
  for flags net ca where
  start: "agent_reachable flags net ca (agent_start w)"
| step: "agent_reachable flags net ca a \<Longrightarrow> agent_step flags net ca a b \<Longrightarrow> agent_reachable flags net ca b"
| env: "agent_reachable flags net ca a \<Longrightarrow> agent_env a b \<Longrightarrow> agent_reachable flags net ca b"

inductive_cases agent_stepE: "agent_step flags net ca a b"
inductive_cases agent_envE: "agent_env a b"

lemma after_serve_error: "after_serve (Some e) = Ended (Fatal (''error running apiserver proxy: '' @ Error e))"
  by (simp add: after_serve_def agent_after_serve_def)

lemma after_serve_closed:
  "after_serve (Some ErrServerClosed) = Ended (Fatal ''error running apiserver proxy: http: Server closed'')"
  by (simp add: after_serve_error ErrServerClosed_def)

section \<open>Every way to end\<close>

text \<open>What holds of every state: a process that waits for the channel or has ended cleanly does not occur.\<close>

definition setup_message :: "agent_flags \<Rightarrow> 's agent_net \<Rightarrow> ('pool, 's) ca_store \<Rightarrow> string \<Rightarrow> bool" where
  "setup_message flags net ca msg \<longleftrightarrow> (\<exists>w w'. agent_setup flags net ca w = (Inl msg, w'))"

fun main_ok :: "(string \<Rightarrow> bool) \<Rightarrow> ('pool, 's) agent_proc \<Rightarrow> bool" where
  "main_ok setup_msg a =
     (case agMain a of
        AtSetup \<Rightarrow> agWaiter a = NotStarted \<and> notified a = {} \<and> inFlight a = 0 \<and> \<not> sessionOpen a
      | AtServe srv \<Rightarrow> agWaiter a \<noteq> NotStarted \<and> (stopping (agWaiter a) \<longrightarrow> \<not> sessionOpen a)
      | AtWaitIdle \<Rightarrow> False
      | Ended x \<Rightarrow>
          (case x of
             Fatal msg \<Rightarrow> setup_msg msg \<or> (\<exists>e. msg = ''error running apiserver proxy: '' @ Error e \<and> serve_error (agWaiter a) e)
           | Killed sg \<Rightarrow> sg \<notin> notified a
           | Clean \<Rightarrow> False))"

lemma main_ok_step: "agent_step flags net ca a b \<Longrightarrow> main_ok (setup_message flags net ca) a \<Longrightarrow> main_ok (setup_message flags net ca) b"
proof (induction rule: agent_step.induct)
  case (setup_fatal a msg w)
  then have "setup_message flags net ca msg" unfolding setup_message_def by blast
  then show ?case by simp
next
  case (serve a srv e)
  then show ?case by (simp add: after_serve_error) blast
qed (auto split: agent_main.splits)

lemma main_ok_env: "agent_env a b \<Longrightarrow> main_ok P a \<Longrightarrow> main_ok P b"
  by (induction rule: agent_env.induct) (auto split: agent_main.splits exit.splits)

lemma main_ok_reachable: "agent_reachable flags net ca a \<Longrightarrow> main_ok (setup_message flags net ca) a"
proof (induction rule: agent_reachable.induct)
  case (start w)
  then show ?case by (simp add: agent_start_def)
qed (blast intro: main_ok_step main_ok_env)+

text \<open>The first step of a process: it serves, or its set-up has failed.\<close>

lemma agent_starts:
  "(\<forall>srv g'. agent_setup flags net ca g = (Inr srv, g') \<longrightarrow>
      (\<exists>c. agent_step flags net ca (agent_start g) c \<and> agMain c = AtServe srv \<and> sessionOpen c \<and> agWorld c = g'))
   \<and> (\<forall>msg g'. agent_setup flags net ca g = (Inl msg, g') \<longrightarrow>
      (\<exists>c. agent_step flags net ca (agent_start g) c \<and> agMain c = Ended (Fatal msg) \<and> agWorld c = g'))"
proof (intro conjI allI impI)
  fix srv g'
  assume "agent_setup flags net ca g = (Inr srv, g')"
  then have "agent_step flags net ca (agent_start g)
      ((agent_start g)\<lparr>agMain := AtServe srv, agWaiter := AtNotify Interrupt, sessionOpen := True, agWorld := g'\<rparr>)"
    by (intro agent_step.set_up) (simp_all add: agent_start_def)
  then show "\<exists>c. agent_step flags net ca (agent_start g) c \<and> agMain c = AtServe srv \<and> sessionOpen c \<and> agWorld c = g'"
    by (intro exI conjI, assumption) simp_all
next
  fix msg g'
  assume "agent_setup flags net ca g = (Inl msg, g')"
  then have "agent_step flags net ca (agent_start g) ((agent_start g)\<lparr>agMain := Ended (Fatal msg), agWorld := g'\<rparr>)"
    by (intro agent_step.setup_fatal) (simp_all add: agent_start_def)
  then show "\<exists>c. agent_step flags net ca (agent_start g) c \<and> agMain c = Ended (Fatal msg) \<and> agWorld c = g'"
    by (intro exI conjI, assumption) simp_all
qed

section \<open>The server inside the process\<close>

text \<open>Forgetting set-up, signals and session, the process is a server as in \<open>Http_Server\<close>.\<close>

fun server_main :: "'pool agent_main \<Rightarrow> main_state" where
  "server_main (Ended (Fatal msg)) = Exited msg"
| "server_main (Ended (Killed sg)) = Exited []"
| "server_main (Ended Clean) = Returned None"
| "server_main AtWaitIdle = WaitIdle"
| "server_main _ = Serving"

fun server_stopper :: "agent_waiter \<Rightarrow> stopper" where
  "server_stopper AtShutdown = InShutdown"
| "server_stopper AtClosed = ChannelClosed"
| "server_stopper _ = WaitStop"

definition as_server :: "('pool, 's) agent_proc \<Rightarrow> server_run" where
  "as_server a = \<lparr>runMain = server_main (agMain a), runStopper = server_stopper (agWaiter a),
     stopRequested = (sigint a \<or> stopping (agWaiter a)), openConns = inFlight a, hijackedConns = 0\<rparr>"

lemma server_main_alive: "\<forall>x. m \<noteq> Ended x \<Longrightarrow> \<not> exited (server_main m)"
  by (cases m) auto

lemma server_main_after: "server_main (after_serve r) = agent_after_serve r"
  by (simp add: after_serve_def agent_after_serve_def split: option.split)

text \<open>Every step after the set-up is a step of the server or none at all.\<close>

lemma agent_step_serves:
  "agent_step flags net ca a b \<Longrightarrow> agMain a \<noteq> AtSetup \<Longrightarrow> server_step agent_after_serve (as_server a) (as_server b) \<or> as_server b = as_server a"
proof (induction rule: agent_step.induct)
  case (shutdown a)
  have "server_step agent_after_serve (as_server a) ((as_server a)\<lparr>runStopper := InShutdown\<rparr>)"
    by (rule server_step.shutdown) (use shutdown server_main_alive in \<open>simp_all add: as_server_def\<close>)
  then show ?case using shutdown by (simp add: as_server_def)
next
  case (idle a)
  have "server_step agent_after_serve (as_server a) ((as_server a)\<lparr>runStopper := ChannelClosed\<rparr>)"
    by (rule server_step.idle) (use idle server_main_alive in \<open>simp_all add: as_server_def\<close>)
  then show ?case using idle by (simp add: as_server_def)
next
  case (finish a n)
  have "server_step agent_after_serve (as_server a) ((as_server a)\<lparr>openConns := n\<rparr>)"
    by (rule server_step.finish) (use finish server_main_alive in \<open>simp_all add: as_server_def\<close>)
  then show ?case by (simp add: as_server_def)
next
  case (serve a srv e)
  have "serve_result (runStopper (as_server a)) (Some e)"
    using serve(3) by (cases "agWaiter a") (auto simp: as_server_def serve_error_def)
  from server_step.serve [OF _ this, where after = agent_after_serve]
  have "server_step agent_after_serve (as_server a) ((as_server a)\<lparr>runMain := agent_after_serve (Some e)\<rparr>)"
    using serve(1) by (simp add: as_server_def)
  then show ?case by (simp add: as_server_def server_main_after)
next
  case (leave a)
  have "server_step agent_after_serve (as_server a) ((as_server a)\<lparr>runMain := Returned None\<rparr>)"
    by (rule server_step.leave) (use leave in \<open>simp_all add: as_server_def\<close>)
  then show ?case by (simp add: as_server_def)
qed (simp_all add: as_server_def)

section \<open>Runs\<close>

text \<open>A run with \<open>n\<close> steps of the program and any number of events from outside.\<close>

inductive agent_run ::
    "agent_flags \<Rightarrow> 's agent_net \<Rightarrow> ('pool, 's) ca_store \<Rightarrow> nat \<Rightarrow> ('pool, 's) agent_proc \<Rightarrow> ('pool, 's) agent_proc \<Rightarrow> bool"
  for flags net ca where
  nothing: "agent_run flags net ca 0 a a"
| prog: "agent_run flags net ca n a b \<Longrightarrow> agent_step flags net ca b c \<Longrightarrow> agent_run flags net ca (Suc n) a c"
| outside: "agent_run flags net ca n a b \<Longrightarrow> agent_env b c \<Longrightarrow> agent_run flags net ca n a c"

lemma agent_run_reachable: "agent_run flags net ca n a b \<Longrightarrow> agent_reachable flags net ca a \<Longrightarrow> agent_reachable flags net ca b"
  by (induction rule: agent_run.induct) (auto intro: agent_reachable.intros)

text \<open>The work that is left: each step of the program takes some, and only a request brings new.\<close>

fun waiter_work :: "agent_waiter \<Rightarrow> nat" where
  "waiter_work (AtNotify Interrupt) = 5"
| "waiter_work (AtNotify SIGTERM) = 4"
| "waiter_work AtReceive = 3"
| "waiter_work AtShutdown = 2"
| "waiter_work AtClosed = 1"
| "waiter_work NotStarted = 0"

fun main_work :: "'pool agent_main \<Rightarrow> nat" where
  "main_work AtSetup = 10"
| "main_work (AtServe srv) = 2"
| "main_work AtWaitIdle = 1"
| "main_work (Ended x) = 0"

definition agent_work :: "('pool, 's) agent_proc \<Rightarrow> nat" where
  "agent_work a = main_work (agMain a) + waiter_work (agWaiter a) + inFlight a"

lemma agent_step_work:
  "agent_step flags net ca a b \<Longrightarrow> main_ok P a \<Longrightarrow> agent_work b < agent_work a"
  by (induction rule: agent_step.induct) (simp_all add: agent_work_def after_serve_error)

lemma agent_env_work: "agent_env a b \<Longrightarrow> \<not> sessionOpen a \<Longrightarrow> agent_work b \<le> agent_work a"
  by (induction rule: agent_env.induct) (simp_all add: agent_work_def)

text \<open>A session that is gone does not come back.\<close>

definition session_gone :: "('pool, 's) agent_proc \<Rightarrow> bool" where
  "session_gone a \<longleftrightarrow> agMain a \<noteq> AtSetup \<and> \<not> sessionOpen a"

lemma session_gone_step: "agent_step flags net ca a b \<Longrightarrow> session_gone a \<Longrightarrow> session_gone b"
  by (induction rule: agent_step.induct) (simp_all add: session_gone_def after_serve_error)

lemma session_gone_env: "agent_env a b \<Longrightarrow> session_gone a \<Longrightarrow> session_gone b"
  by (induction rule: agent_env.induct) (simp_all add: session_gone_def)

lemma session_gone_run:
  assumes "agent_reachable flags net ca a" and "session_gone a"
  shows "agent_run flags net ca n a b \<Longrightarrow> session_gone b \<and> n + agent_work b \<le> agent_work a"
proof -
  have "agent_run flags net ca n a b \<Longrightarrow> agent_reachable flags net ca a \<Longrightarrow> session_gone a \<Longrightarrow>
      session_gone b \<and> n + agent_work b \<le> agent_work a"
  proof (induction rule: agent_run.induct)
    case (prog n a b c)
    have "main_ok (setup_message flags net ca) b"
      by (rule main_ok_reachable [OF agent_run_reachable [OF prog.hyps(1) prog.prems(1)]])
    from agent_step_work [OF prog.hyps(2) this] session_gone_step [OF prog.hyps(2)] prog.IH [OF prog.prems]
    show ?case by auto
  next
    case (outside n a b c)
    from outside.IH [OF outside.prems] have b: "session_gone b" "n + agent_work b \<le> agent_work a" by blast+
    with agent_env_work [OF outside.hyps(2)] session_gone_env [OF outside.hyps(2)] show ?case
      by (auto simp: session_gone_def)
  qed simp
  with assms show "agent_run flags net ca n a b \<Longrightarrow> session_gone b \<and> n + agent_work b \<le> agent_work a" by blast
qed

lemma session_gone_unstuck:
  assumes "main_ok P a" and "session_gone a" and "\<And>b. \<not> agent_step flags net ca a b"
  obtains x where "agMain a = Ended x"
proof (cases "agMain a")
  case (AtServe srv)
  obtain e where e: "serve_error (agWaiter a) e"
  proof (cases "stopping (agWaiter a)")
    case True
    then show thesis by (intro that [of ErrServerClosed]) (simp add: serve_error_def)
  next
    case False
    then show thesis by (intro that [of "errors_New ''session shutdown''"])
        (simp add: serve_error_def ErrServerClosed_def errors_New_def)
  qed
  from agent_step.serve [OF AtServe _ e] assms(2,3) show thesis by (auto simp: session_gone_def)
qed (use assms(1,2) that in \<open>auto simp: session_gone_def\<close>)

text \<open>A run in which a stop signal comes while \<open>n\<close> requests are in flight.\<close>

lemma agent_can_drop:
  assumes "agent_setup flags net ca w = (Inr srv, w')"
  shows "\<exists>a. agent_reachable flags net ca a \<and> inFlight a = n \<and> agWaiter a = AtShutdown
    \<and> agMain a = Ended (Fatal ''error running apiserver proxy: http: Server closed'')"
proof -
  let ?r = "agent_reachable flags net ca"
  let ?a = "\<lambda>m g ns p open n. \<lparr>agMain = m, agWaiter = g, notified = ns, sigint = p, sessionOpen = open, inFlight = n, agWorld = w'\<rparr>"
  let ?S = "AtServe srv" and ?N = "{SIGTERM, Interrupt}"
  have "?r (?a ?S (AtNotify Interrupt) {} False True 0)"
    using agent_reachable.step [OF agent_reachable.start [of flags net ca w] agent_step.set_up [OF _ _]] assms
    by (simp add: agent_start_def)
  from agent_reachable.step [OF this agent_step.notify_interrupt]
  have "?r (?a ?S (AtNotify SIGTERM) {Interrupt} False True 0)" by simp
  from agent_reachable.step [OF this agent_step.notify_sigterm]
  have "?r (?a ?S AtReceive ?N False True 0)" by simp
  then have "?r (?a ?S AtReceive ?N False True n)"
  proof (induction n)
    case (Suc n)
    from agent_reachable.env [OF Suc.IH [OF Suc.prems] agent_env.request] show ?case by simp
  qed simp
  from agent_reachable.env [OF this agent_env.signal [of _ SIGTERM]]
  have "?r (?a ?S AtReceive ?N True True n)" by simp
  from agent_reachable.step [OF this agent_step.shutdown]
  have "?r (?a ?S AtShutdown ?N False False n)" by simp
  from agent_reachable.step [OF this agent_step.serve [of _ srv ErrServerClosed]]
  have "?r (?a (Ended (Fatal ''error running apiserver proxy: http: Server closed'')) AtShutdown ?N False False n)"
    by (simp add: serve_error_def after_serve_closed)
  then show ?thesis
    by (intro exI [of _ "?a (Ended (Fatal ''error running apiserver proxy: http: Server closed'')) AtShutdown ?N False False n"] conjI)
       simp_all
qed

text \<open>The agent of the witness: in a cluster whose API server is \<^verbatim>\<open>kubernetes.default\<close>.\<close>

definition demo_agent_net :: "nat agent_net" where
  "demo_agent_net = \<lparr>ws_Dial = (\<lambda>_ _ s. (Inr 1, s)), wsUnderlyingConn = (\<lambda>c. c), yamux_Client = (\<lambda>c s. (Inr c, s))\<rparr>"

definition demo_agent :: "string list agent_server" where
  "demo_agent = \<lparr>agentSession = 1, apiserverURL = apiserver_target ''kubernetes.default'', agentToken = ''CA'', RootCAs = [''CA'']\<rparr>"

lemma demo_apiserver: "host_ok ''kubernetes.default''"
  by (simp add: host_ok_def plain_def unreserved_def is_alnum_def is_upper_def is_lower_def)

lemma demo_agent_setup: "agent_setup agent_flag_defaults demo_agent_net demo_ca 0 = (Inr demo_agent, 0)"
proof -
  have "Sprintf ''https://%s'' [Str (apiserverAddr agent_flag_defaults)] = ''https://'' @ ''kubernetes.default''"
    by (simp add: agent_flag_defaults_def)
  then have "url_Parse (Sprintf ''https://%s'' [Str (apiserverAddr agent_flag_defaults)]) = Inr (apiserver_target ''kubernetes.default'')"
    using parse_apiserver [OF demo_apiserver] by metis
  then show ?thesis by (simp add: agent_setup_def demo_agent_net_def demo_ca_def demo_agent_def)
qed

section \<open>Properties\<close>

text \<open>
  An agent that has lost its session ends. Whatever requests are still being answered and whatever signals
  arrive, only finitely many steps of the program are left, and it does not stop before the process has ended,
  with a failure, so that it is started again and connects anew.
\<close>

lemma lost_session_ends_agent:
  assumes "agent_reachable flags net ca a" and "agMain a = AtServe srv" and "\<not> sessionOpen a"
    and "agent_run flags net ca n a b"
  shows "n \<le> agent_work a
    \<and> ((\<forall>c. \<not> agent_step flags net ca b c) \<longrightarrow> (\<exists>x. agMain b = Ended x \<and> x \<noteq> Clean))"
proof -
  have g: "session_gone a" using assms(2,3) by (simp add: session_gone_def)
  note r = session_gone_run [OF assms(1) g assms(4)]
  note ok = main_ok_reachable [OF agent_run_reachable [OF assms(4,1)]]
  have "\<exists>x. agMain b = Ended x \<and> x \<noteq> Clean" if stuck: "\<forall>c. \<not> agent_step flags net ca b c"
  proof -
    obtain x where x: "agMain b = Ended x"
      by (rule session_gone_unstuck [OF ok]) (use r stuck in blast)+
    with ok show ?thesis by auto
  qed
  with r show ?thesis by auto
qed

text \<open>A run in which the session is lost as soon as it was opened.\<close>

lemma agent_loses_session:
  assumes "agent_setup flags net ca w = (Inr srv, w')"
  shows "\<exists>a b. agent_reachable flags net ca a \<and> agMain a = AtServe srv \<and> \<not> sessionOpen a \<and> agent_run flags net ca 1 a b
    \<and> agWorld b = w' \<and> (\<forall>c. \<not> agent_step flags net ca b c)"
proof -
  let ?a = "\<lambda>m open. \<lparr>agMain = m, agWaiter = AtNotify Interrupt, notified = {}, sigint = False, sessionOpen = open,
     inFlight = 0, agWorld = w'\<rparr>"
  let ?S = "AtServe srv" and ?e = "errors_New ''session shutdown''"
  have "agent_reachable flags net ca (?a ?S True)"
    using agent_reachable.step [OF agent_reachable.start [of _ _ _ w] agent_step.set_up [OF _ _]] assms
    by (simp add: agent_start_def)
  from agent_reachable.env [OF this agent_env.lost] have r: "agent_reachable flags net ca (?a ?S False)" by simp
  have "agent_step flags net ca (?a ?S False) ((?a ?S False)\<lparr>agMain := after_serve (Some ?e)\<rparr>)"
    by (rule agent_step.serve) (simp_all add: serve_error_def ErrServerClosed_def errors_New_def)
  from agent_run.prog [OF agent_run.nothing this]
  have run: "agent_run flags net ca 1 (?a ?S False) (?a (after_serve (Some ?e)) False)" by simp
  have "\<not> agent_step flags net ca (?a (after_serve (Some ?e)) False) c" for c
    by (rule notI, erule agent_stepE) (simp_all add: after_serve_error)
  then show ?thesis using r run by (intro exI [of _ "?a ?S False"] exI [of _ "?a (after_serve (Some ?e)) False"]) simp
qed

text \<open>
  C27: The agent cannot stop in order. It never exits cleanly: it ends with a failure of its set-up, with the error
  of \<^verbatim>\<open>Serve\<close>, which is the one for a server that was closed exactly if a signal closed it, or by a signal that
  came before \<^verbatim>\<open>Notify\<close>. And whenever the set-up succeeds, for any number of requests in flight there is a run in
  which a signal ends the process before they are answered.
\<close>

theorem agent_stop_drops_requests:
  "(\<forall>a x. agent_reachable flags net ca a \<and> agMain a = Ended x \<longrightarrow>
      (case x of Clean \<Rightarrow> False | Killed sg \<Rightarrow> sg \<notin> notified a
       | Fatal msg \<Rightarrow> (\<exists>w w'. agent_setup flags net ca w = (Inl msg, w'))
           \<or> (\<exists>e. msg = ''error running apiserver proxy: '' @ Error e \<and> (e = ErrServerClosed \<longleftrightarrow> stopping (agWaiter a)))))
   \<and> (\<forall>w srv w' n. agent_setup flags net ca w = (Inr srv, w') \<longrightarrow>
        (\<exists>a. agent_reachable flags net ca a \<and> inFlight a = n \<and> agWaiter a = AtShutdown
           \<and> agMain a = Ended (Fatal ''error running apiserver proxy: http: Server closed'')))"
proof (intro conjI allI impI)
  fix a x
  assume a: "agent_reachable flags net ca a \<and> agMain a = Ended x"
  from main_ok_reachable [OF conjunct1 [OF a]] conjunct2 [OF a]
  show "case x of Clean \<Rightarrow> False | Killed sg \<Rightarrow> sg \<notin> notified a
       | Fatal msg \<Rightarrow> (\<exists>w w'. agent_setup flags net ca w = (Inl msg, w'))
           \<or> (\<exists>e. msg = ''error running apiserver proxy: '' @ Error e \<and> (e = ErrServerClosed \<longleftrightarrow> stopping (agWaiter a)))"
    by (cases x) (auto simp: setup_message_def serve_error_def)
next
  fix w srv w' n
  assume s: "agent_setup flags net ca w = (Inr srv, w')"
  show "\<exists>a. agent_reachable flags net ca a \<and> inFlight a = n \<and> agWaiter a = AtShutdown
           \<and> agMain a = Ended (Fatal ''error running apiserver proxy: http: Server closed'')"
    by (rule agent_can_drop [OF s])
qed

theorem agent_stop_drops_requests_witness:
  "\<exists>a. agent_reachable agent_flag_defaults demo_agent_net demo_ca a \<and> inFlight a = 2
     \<and> agMain a = Ended (Fatal ''error running apiserver proxy: http: Server closed'')"
  using agent_stop_drops_requests [of agent_flag_defaults demo_agent_net demo_ca, THEN conjunct2, THEN spec, THEN spec, THEN spec,
      THEN spec, THEN mp, OF demo_agent_setup, of 2] by blast

end
