(* ===== verification/Informer_Interfaces.thy ===== *)
theory Informer_Interfaces
  imports Listers
begin

text \<open>
  The Go interfaces of \<^verbatim>\<open>pkg/client/informers\<close> and \<^verbatim>\<open>pkg/client/listers\<close> as records of methods, and the structs
  that implement them. Users hold interface values only: \<open>factory_serves_clusters\<close> follows them from the factory
  to a lister.

  A method that needs the factory, to which the structs point, is a function on its state: the factory, the world
  in which informers are made, and the informers that run. \<open>_I\<close> marks what belongs to an interface.
\<close>

section \<open>The listers\<close>

record ('sel, 'm) ClusterNamespaceLister_I =
  nlList :: "'sel \<Rightarrow> ('m Cluster list \<times> err option) option"
  nlGet :: "string \<Rightarrow> 'm Cluster res option"

record ('sel, 'm) ClusterLister_I =
  clList :: "'sel \<Rightarrow> ('m Cluster list \<times> err option) option"
  clClusters :: "string \<Rightarrow> ('sel, 'm) ClusterNamespaceLister_I"

definition clusterNamespaceLister_I ::
    "(string \<Rightarrow> string \<Rightarrow> string \<Rightarrow> err) \<Rightarrow> ('o \<Rightarrow> 'm Cluster option) \<Rightarrow> ('o, 'sel) clusterNamespaceLister \<Rightarrow>
       ('sel, 'm) ClusterNamespaceLister_I" where
  "clusterNamespaceLister_I NewNotFound as_cluster s =
     \<lparr>nlList = nsLister_List as_cluster s, nlGet = nsLister_Get NewNotFound as_cluster s\<rparr>"

definition clusterLister_I ::
    "(string \<Rightarrow> string \<Rightarrow> string \<Rightarrow> err) \<Rightarrow> ('o \<Rightarrow> 'm Cluster option) \<Rightarrow> ('o, 'sel) clusterLister \<Rightarrow> ('sel, 'm) ClusterLister_I" where
  "clusterLister_I NewNotFound as_cluster s =
     \<lparr>clList = lister_List as_cluster s,
      clClusters = (\<lambda>namespace. clusterNamespaceLister_I NewNotFound as_cluster (lister_Clusters s namespace))\<rparr>"

section \<open>The informers\<close>

type_synonym ('c, 'w) factory_state = "('c sharedInformerFactory \<times> 'w) \<times> runs"
type_synonym ('c, 'w) NewInformerFunc = "'c \<Rightarrow> duration \<Rightarrow> 'w \<Rightarrow> informer \<times> 'w"
type_synonym TweakListOptionsFunc = "list_options \<Rightarrow> list_options"

record ('st, 'l) ClusterInformer_I =
  iInformer :: "'st \<Rightarrow> informer \<times> 'st"
  iLister :: "'st \<Rightarrow> 'l \<times> 'st"

record ('st, 'l) v1alpha1_Interface =
  iClusters :: "('st, 'l) ClusterInformer_I"

record ('st, 'l) kopilot_Interface =
  iV1alpha1 :: "('st, 'l) v1alpha1_Interface"

record 'gl GenericInformer_I =
  gInformer :: informer
  gLister :: 'gl

text \<open>The small interface of \<^verbatim>\<open>internalinterfaces\<close>, and the one that embeds it.\<close>

record ('st, 'c, 'w) internal_SharedInformerFactory_I =
  ifStart :: "stop_chan \<Rightarrow> 'st \<Rightarrow> 'st"
  ifInformerFor :: "go_type \<Rightarrow> ('c, 'w) NewInformerFunc \<Rightarrow> 'st \<Rightarrow> informer \<times> 'st"

record ('st, 'c, 'w, 'gl, 'l) SharedInformerFactory_I = "('st, 'c, 'w) internal_SharedInformerFactory_I" +
  ifForResource :: "GroupVersionResource \<Rightarrow> 'st \<Rightarrow> 'gl GenericInformer_I res \<times> 'st"
  ifWaitForCacheSync :: "stop_chan \<Rightarrow> 'st \<Rightarrow> go_type \<Rightarrow> bool option"
  ifKopilot :: "'st \<Rightarrow> ('st, 'l) kopilot_Interface"

section \<open>The structs behind them\<close>

text \<open>What client-go provides: caches, generic listers, the order in which a range visits a map, and synchronisation.\<close>

record ('ob, 'sel, 'gl, 'm) client_go =
  GetIndexer :: "informer \<Rightarrow> ('ob, 'sel) indexer"
  NewGenericLister :: "('ob, 'sel) indexer \<Rightarrow> string \<Rightarrow> string \<Rightarrow> 'gl"
  asCluster :: "'ob \<Rightarrow> 'm Cluster option"
  NotFoundError :: "string \<Rightarrow> string \<Rightarrow> string \<Rightarrow> err"
  rangeOrder :: "(go_type \<Rightarrow> informer option) \<Rightarrow> go_type list"
  hasSynced :: "stop_chan \<Rightarrow> informer \<Rightarrow> bool"
  show_gvr :: "GroupVersionResource \<Rightarrow> string"

text \<open>A method of the factory that does not touch the informers that run.\<close>

definition on_factory :: "('a \<Rightarrow> 'b \<times> 'a) \<Rightarrow> 'a \<times> runs \<Rightarrow> 'b \<times> 'a \<times> runs" where
  "on_factory m st = (let (x, fw) = m (fst st) in (x, fw, snd st))"

definition clusterInformer_I ::
    "('ob, 'sel, 'gl, 'm) client_go \<Rightarrow> ('m, 'l, 'i, 's, 'w) new_informer \<Rightarrow> clusterInformer \<Rightarrow>
       ((('m, 'l, 'o, 'r, 'i, 's, 'd) cluster_clientset, 'w) factory_state, ('sel, 'm) ClusterLister_I) ClusterInformer_I" where
  "clusterInformer_I lib new f =
     \<lparr>iInformer = on_factory (clusterInformer_Informer new f),
      iLister = on_factory (\<lambda>fw. let (s, fw) = clusterInformer_Lister (GetIndexer lib) new f fw
                                 in (clusterLister_I (NotFoundError lib) (asCluster lib) s, fw))\<rparr>"

definition version_I ::
    "('ob, 'sel, 'gl, 'm) client_go \<Rightarrow> ('m, 'l, 'i, 's, 'w) new_informer \<Rightarrow> kopilot_version \<Rightarrow>
       ((('m, 'l, 'o, 'r, 'i, 's, 'd) cluster_clientset, 'w) factory_state, ('sel, 'm) ClusterLister_I) v1alpha1_Interface" where
  "version_I lib new v = \<lparr>iClusters = clusterInformer_I lib new (version_Clusters v)\<rparr>"

definition group_I ::
    "('ob, 'sel, 'gl, 'm) client_go \<Rightarrow> ('m, 'l, 'i, 's, 'w) new_informer \<Rightarrow> kopilot_group \<Rightarrow>
       ((('m, 'l, 'o, 'r, 'i, 's, 'd) cluster_clientset, 'w) factory_state, ('sel, 'm) ClusterLister_I) kopilot_Interface" where
  "group_I lib new g = \<lparr>iV1alpha1 = version_I lib new (group_V1alpha1 g)\<rparr>"

definition genericInformer_I :: "('ob, 'sel, 'gl, 'm) client_go \<Rightarrow> genericInformer \<Rightarrow> 'gl GenericInformer_I" where
  "genericInformer_I lib g =
     \<lparr>gInformer = genericInformer_Informer g, gLister = genericInformer_Lister (GetIndexer lib) (NewGenericLister lib) g\<rparr>"

definition sharedInformerFactory_I ::
    "('ob, 'sel, 'gl, 'm) client_go \<Rightarrow> ('m, 'l, 'i, 's, 'w) new_informer \<Rightarrow>
       ((('m, 'l, 'o, 'r, 'i, 's, 'd) cluster_clientset, 'w) factory_state, ('m, 'l, 'o, 'r, 'i, 's, 'd) cluster_clientset, 'w,
        'gl, ('sel, 'm) ClusterLister_I) SharedInformerFactory_I" where
  "sharedInformerFactory_I lib new =
     \<lparr>ifStart = (\<lambda>stopCh ((f, w), rs).
        let (f', rs') = factory_Start stopCh (rangeOrder lib (informers f)) (f, rs) in ((f', w), rs')),
      ifInformerFor = (\<lambda>t newFunc. on_factory (factory_InformerFor t newFunc)),
      ifForResource = (\<lambda>resource. on_factory (\<lambda>fw.
        let (g, fw) = factory_ForResource new resource (show_gvr lib) fw in (map_sum id (genericInformer_I lib) g, fw))),
      ifWaitForCacheSync = (\<lambda>stopCh ((f, w), rs). factory_WaitForCacheSync (hasSynced lib) stopCh f),
      ifKopilot = (\<lambda>((f, w), rs). group_I lib new (factory_Kopilot f))\<rparr>"

text \<open>\<^verbatim>\<open>factory.Kopilot().V1alpha1().Clusters()\<close>.\<close>

abbreviation cluster_informer_of ::
    "('st, 'c, 'w, 'gl, 'l) SharedInformerFactory_I \<Rightarrow> 'st \<Rightarrow> ('st, 'l) ClusterInformer_I" where
  "cluster_informer_of F st \<equiv> iClusters (iV1alpha1 (ifKopilot F st))"

section \<open>What the methods do\<close>

lemma Informer_I:
  "iInformer (cluster_informer_of (sharedInformerFactory_I lib new) ((f, w), rs)) ((f, w), rs) =
     (let (i, fw) = clusterInformer_Informer new (factory_Clusters f) (f, w) in (i, fw, rs))"
  by (simp add: sharedInformerFactory_I_def group_I_def version_I_def clusterInformer_I_def on_factory_def)

lemma Lister_I:
  "iLister (cluster_informer_of (sharedInformerFactory_I lib new) ((f, w), rs)) ((f, w), rs) =
     (let (i, fw) = clusterInformer_Informer new (factory_Clusters f) (f, w)
      in (clusterLister_I (NotFoundError lib) (asCluster lib) (NewClusterLister (GetIndexer lib i)), fw, rs))"
  by (simp add: sharedInformerFactory_I_def group_I_def version_I_def clusterInformer_I_def clusterInformer_Lister_def
      on_factory_def split: prod.split)

text \<open>A lister over the cache of clusters answers what the cache holds, in any order.\<close>

definition lists_clusters ::
    "('m \<Rightarrow> NamespacedName) \<Rightarrow> ('sel \<Rightarrow> 'm Cluster \<Rightarrow> bool) \<Rightarrow> 'm Cluster list \<Rightarrow> (string \<Rightarrow> string \<Rightarrow> string \<Rightarrow> err) \<Rightarrow>
       ('sel, 'm) ClusterLister_I \<Rightarrow> bool" where
  "lists_clusters key_of sel cls nf l \<longleftrightarrow>
     (\<forall>q. \<exists>ms. clList l q = Some (ms, None) \<and> mset ms = mset (filter (sel q) cls))
     \<and> (\<forall>n q. \<exists>ms. nlList (clClusters l n) q = Some (ms, None)
          \<and> mset ms = mset (filter (in_namespace key_of n) (filter (sel q) cls)))
     \<and> (\<forall>n name. CHR ''/'' \<notin> set n \<longrightarrow> nlGet (clClusters l n) name =
          Some (case find (\<lambda>cl. key_of (ObjectMeta cl) = \<lparr>Namespace = n, Name = name\<rparr>) cls of
                  None \<Rightarrow> Inl (nf ''kopilot.smartx.com'' ''cluster'' name) | Some cl \<Rightarrow> Inr cl))"

lemma cache_lists_clusters:
  assumes "cluster_cache key_of sel cls ix" and "\<forall>cl \<in> set cls. namespaced key_of cl"
  shows "lists_clusters key_of sel cls nf (clusterLister_I nf Some (NewClusterLister ix))"
  unfolding lists_clusters_def clusterLister_I_def clusterNamespaceLister_I_def
    ClusterLister_I.simps ClusterNamespaceLister_I.simps
  by (intro conjI allI impI lister_List_cache [OF assms(1)] nsLister_List_cache [OF assms(1)] nsLister_Get_cache [OF assms])

section \<open>Properties\<close>

text \<open>The informer that a factory makes for clusters is new: its address is that of no other.\<close>

lemma cluster_informer_step:
  assumes "factory_reachable ((f, w), rs)" and "\<And>lw t d is. fst (new lw t d is w) \<notin> ran (informers f)"
    and "clusterInformer_Informer new (factory_Clusters f) (f, w) = (i, f1, w1)"
  shows "factory_reachable ((f1, w1), rs)" and "informers f1 ''*v1alpha1.Cluster'' = Some i"
proof -
  note i = assms(3) [unfolded clusterInformer_Informer_def]
  have "i \<notin> ran (informers f)" if "informers f ''*v1alpha1.Cluster'' = None"
    using i that assms(2) [of _ "''*v1alpha1.Cluster''"]
    by (auto simp: factory_InformerFor_def Let_def defaultInformer_def NewFilteredClusterInformer_def split: prod.splits)
       (metis fst_conv)
  then show "factory_reachable ((f1, w1), rs)"
    by (intro factory_reachable.step [OF assms(1) factory_step.informer_for [OF i]]) blast
  from fac.known_after [OF i] show "informers f1 ''*v1alpha1.Cluster'' = Some i" by simp
qed

text \<open>
  C39: From a factory to its clusters. Whatever has been done with a factory before, who takes the lister of clusters
  and starts the factory has one informer of clusters, which runs, once, which \<open>WaitForCacheSync\<close> waits for, and
  which everybody gets who asks for it by the typed accessors or by its resource. The lister reads the
  cache of this informer: all clusters, those of a namespace, each once and in any order, or one; and the
  lister of the empty namespace lists all.
\<close>

theorem factory_serves_clusters:
  fixes new :: "('m, 'l, 'i, 's, 'w) new_informer" and lib :: "('m Cluster, 'sel, 'gl, 'm) client_go"
    and f :: "('m, 'l, 'o, 'r, 'i, 's, 'd) cluster_clientset sharedInformerFactory"
  assumes "factory_reachable ((f, w), rs)" and "\<And>lw t d is. fst (new lw t d is w) \<notin> ran (informers f)"
    and "asCluster lib = Some" and "F = sharedInformerFactory_I lib new"
    and "iLister (cluster_informer_of F ((f, w), rs)) ((f, w), rs) = (l, st1)"
    and "range_order (informers (fst (fst st1))) (rangeOrder lib (informers (fst (fst st1))))" and "st2 = ifStart F stopCh st1"
  shows "\<exists>i. iInformer (cluster_informer_of F st2) st2 = (i, st2)
    \<and> (\<exists>g. ifForResource F (WithResource SchemeGroupVersion ''clusters'') st2 = (Inr g, st2) \<and> gInformer g = i)
    \<and> i \<in> fst ` set (snd st2) \<and> distinct (map fst (snd st2))
    \<and> ifWaitForCacheSync F stopCh st2 ''*v1alpha1.Cluster'' = Some (hasSynced lib stopCh i)
    \<and> (\<forall>key_of sel cls. cluster_cache key_of sel cls (GetIndexer lib i)
          \<and> (\<forall>cl \<in> set cls. namespaced key_of cl) \<longrightarrow>
        lists_clusters key_of sel cls (NotFoundError lib) l)"
proof -
  let ?t = "''*v1alpha1.Cluster''"
  obtain i f1 w1 where i: "clusterInformer_Informer new (factory_Clusters f) (f, w) = (i, f1, w1)"
    by (cases "clusterInformer_Informer new (factory_Clusters f) (f, w)") auto
  note r1 = cluster_informer_step [OF assms(1,2) i]
  have l: "l = clusterLister_I (NotFoundError lib) Some (NewClusterLister (GetIndexer lib i))" and st1: "st1 = ((f1, w1), rs)"
    using assms(5) i by (simp_all add: assms(3,4) Lister_I)
  have o: "range_order (informers f1) (rangeOrder lib (informers f1))"
    using assms(6) by (simp add: st1)
  obtain f2 rs2 where s: "factory_Start stopCh (rangeOrder lib (informers f1)) (f1, rs) = (f2, rs2)" by fastforce
  have st2: "st2 = ((f2, w1), rs2)" using s by (simp add: assms(4,7) st1 sharedInformerFactory_I_def)
  note inv = factory_invD [OF factory_reachable_inv [OF factory_reachable.step [OF r1(1) factory_step.start_all [OF o s]],
      unfolded fst_conv snd_conv]]
  have f2: "informers f2 ?t = Some i" "startedInformers f2 ?t" using s r1(2) by (auto simp: Start_range [OF o])
  have again: "clusterInformer_Informer new ci (f2, w1) = (i, f2, w1)" for ci
    unfolding clusterInformer_Informer_def by (rule fac.known_again) (simp add: f2)
  show ?thesis
  proof (intro exI [of _ i] conjI allI impI)
    show "iInformer (cluster_informer_of F st2) st2 = (i, st2)" by (simp add: assms(4) st2 Informer_I again)
    show "\<exists>g. ifForResource F (WithResource SchemeGroupVersion ''clusters'') st2 = (Inr g, st2) \<and> gInformer g = i"
      by (simp add: assms(4) st2 sharedInformerFactory_I_def on_factory_def factory_ForResource_def again
          genericInformer_I_def genericInformer_Informer_def)
    show "i \<in> fst ` set (snd st2)" using inv(3) f2 by (auto simp: st2)
    show "distinct (map fst (snd st2))" using inv(2) by (simp add: st2)
    show "ifWaitForCacheSync F stopCh st2 ?t = Some (hasSynced lib stopCh i)"
      by (simp add: assms(4) st2 sharedInformerFactory_I_def factory_WaitForCacheSync_def f2)
  next
    fix key_of :: "'m \<Rightarrow> NamespacedName" and sel cls
    assume "cluster_cache key_of sel cls (GetIndexer lib i) \<and> (\<forall>cl \<in> set cls. namespaced key_of cl)"
    then show "lists_clusters key_of sel cls (NotFoundError lib) l" unfolding l by (intro cache_lists_clusters) simp_all
  qed
qed

text \<open>A cache with one cluster, the one of \<open>demo_key\<close>.\<close>

definition demo_cached :: "unit Cluster" where
  "demo_cached = \<lparr>clusterTypeMeta = zeroTypeMeta, ObjectMeta = (), Token = ''t''\<rparr>"

definition demo_client_go :: "(unit Cluster, unit, unit, unit) client_go" where
  "demo_client_go =
     \<lparr>GetIndexer = (\<lambda>_. \<lparr>ListAll = (\<lambda>_. ([demo_cached], None)),
        ListAllByNamespace = (\<lambda>n _. (if n = [] \<or> n = ''default'' then [demo_cached] else [], None)),
        GetByKey = (\<lambda>k. Inr (if k = ''default/sample'' then Some demo_cached else None))\<rparr>),
      NewGenericLister = (\<lambda>_ _ _. ()), asCluster = Some, NotFoundError = (\<lambda>g r n. Err ''NotFound'' n),
      rangeOrder = (\<lambda>_. [''*v1alpha1.Cluster'']), hasSynced = (\<lambda>_ _. True), show_gvr = (\<lambda>_. [])\<rparr>"

theorem factory_serves_clusters_witness:
  "\<exists>l st1. iLister (cluster_informer_of (sharedInformerFactory_I demo_client_go demo_index)
       ((NewSharedInformerFactory demo_clientset 0, 0), [])) ((NewSharedInformerFactory demo_clientset 0, 0), []) = (l, st1)
     \<and> nlGet (clClusters l ''default'') ''sample'' = Some (Inr demo_cached)
     \<and> nlList (clClusters l []) () = Some ([demo_cached], None)"
proof -
  let ?f = "NewSharedInformerFactory demo_clientset 0" and ?F = "sharedInformerFactory_I demo_client_go demo_index"
  have f: "informers ?f = Map.empty" "startedInformers ?f = (\<lambda>_. False)"
    by (simp_all add: NewSharedInformerFactory_def NewSharedInformerFactoryWithOptions_def)
  have r: "factory_reachable ((?f, 0 :: nat), [])" by (rule factory_reachable.start) (simp_all add: f)
  have n: "fst (demo_index lw t d is 0) \<notin> ran (informers ?f)" for lw t d "is" by (simp add: f)
  have a: "asCluster demo_client_go = Some" by (simp add: demo_client_go_def)
  obtain l st1 where l: "iLister (cluster_informer_of ?F ((?f, 0), [])) ((?f, 0), []) = (l, st1)" by (rule prod.exhaust)
  then have "informers (fst (fst st1)) = [''*v1alpha1.Cluster'' \<mapsto> 0]"
    by (simp add: Lister_I clusterInformer_Informer_def factory_InformerFor_def f defaultInformer_def NewFilteredClusterInformer_def
        demo_index_def) auto
  then have o: "range_order (informers (fst (fst st1))) (rangeOrder demo_client_go (informers (fst (fst st1))))"
    by (simp add: range_order_def demo_client_go_def)
  have c: "cluster_cache (\<lambda>_. demo_key) (\<lambda>_ _. True) [demo_cached] (GetIndexer demo_client_go i)" for i
    by (auto simp: cluster_cache_def demo_client_go_def demo_key_def MetaNamespaceKey_def in_namespace_def)
  from factory_serves_clusters [where stopCh = 9, OF r n a refl l o refl]
  obtain i where "\<forall>key_of sel cls. cluster_cache key_of sel cls (GetIndexer demo_client_go i)
      \<and> (\<forall>cl \<in> set cls. namespaced key_of cl) \<longrightarrow>
    lists_clusters key_of sel cls (NotFoundError demo_client_go) l" by (elim exE conjE) (rule that)
  from this [THEN spec, THEN spec, THEN spec, THEN mp, OF conjI [OF c]]
  have c: "lists_clusters (\<lambda>_. demo_key) (\<lambda>_ _. True) [demo_cached] (NotFoundError demo_client_go) l"
    by (simp add: demo_key_def namespaced_def)
  then have "nlGet (clClusters l ''default'') ''sample'' = Some (Inr demo_cached)" by (simp add: lists_clusters_def demo_key_def)
  moreover obtain ms where "nlList (clClusters l []) () = Some (ms, None)" "mset ms = {#demo_cached#}"
    using c [unfolded lists_clusters_def, THEN conjunct2, THEN conjunct1, rule_format, of "[]" "()"] by (auto simp: in_namespace_def)
  ultimately show ?thesis using l by auto
qed

end
