(* ===== verification/Connect_Threads.thy ===== *)
theory Connect_Threads
  imports Hub_Trace
begin

text \<open>
  The connect handler of \<^verbatim>\<open>subresources.go\<close> statement by statement, and a hub on which any number of
  goroutines run it side by side. A goroutine is a request with its writer and the position it has reached,
  with the local variables in scope there; a library call, the comparison of the token and the call of
  \<open>AddClusterSession\<close> are one step each, and between two steps anything else may happen on the hub: other
  goroutines step, proxy requests dial, the world changes. Nothing but its position decides what a goroutine
  does next. The trace of \<open>Hub_Trace\<close> is kept as a ghost: it records what a library call has answered.

  A goroutine that runs undisturbed does what \<open>connect_handler\<close> does (\<open>goroutine_runs_handler\<close>), and every
  step of the system is one of the protocol \<open>act\<close> of \<open>Hub_Trace\<close> (\<open>threads_step_act\<close>): that a registration
  has its evidence is shown here, from the code before it.
\<close>

section \<open>One goroutine\<close>

datatype 'm position =
    Looking
  | Comparing "'m Cluster"
  | Upgrading "'m Cluster"
  | Multiplexing "'m Cluster" conn
  | Adding "'m Cluster" conn session
  | Returned

record 'm goroutine =
  gkey :: NamespacedName
  greq :: request
  gwriter :: writer
  gpos :: "'m position"

definition accepted :: "NamespacedName \<Rightarrow> request \<Rightarrow> writer \<Rightarrow> 'm goroutine" where
  "accepted key r w = \<lparr>gkey = key, greq = r, gwriter = w, gpos = Looking\<rparr>"

text \<open>A library call acts on the world, and what it answers is recorded.\<close>

definition called :: "'m event list \<Rightarrow> 'w \<Rightarrow> ('m, 'w) traced \<Rightarrow> ('m, 'w) traced" where
  "called evs v st = st\<lparr>trace := evs @ trace st, thub := (thub st)\<lparr>world := v\<rparr>\<rparr>"

definition returns :: "writer \<Rightarrow> 'm goroutine \<Rightarrow> 'm goroutine" where
  "returns w g = g\<lparr>gwriter := w, gpos := Returned\<rparr>"

definition connect_step ::
    "(err \<Rightarrow> bool) \<Rightarrow> 'w ws_lib \<Rightarrow> ('m, 'w) cluster_get \<Rightarrow> (NamespacedName \<Rightarrow> string) \<Rightarrow>
       'm goroutine \<Rightarrow> ('m, 'w) traced \<Rightarrow> 'm goroutine \<times> ('m, 'w) traced" where
  "connect_step IsNotFound ws get ks g st =
     (let key = gkey g; r = greq g; w = gwriter g; v = world (thub st)
      in case gpos g of
           Looking \<Rightarrow>
             (case get (Namespace key) (Name key) v of
                (Inl err, v) \<Rightarrow>
                  (returns (if IsNotFound err
                            then http_Error (StatusText StatusNotFound) StatusNotFound w
                            else http_Error (Sprintf ''failed to get cluster: %s'' [Str (Error err)])
                                   StatusInternalServerError w) g, called [] v st)
              | (Inr cluster, v) \<Rightarrow> (g\<lparr>gpos := Comparing cluster\<rparr>, called [LookedUp key r cluster] v st))
         | Comparing cluster \<Rightarrow>
             (if query_Get (reqURL r) ''token'' \<noteq> Token cluster
              then (returns (http_Error (StatusText StatusUnauthorized) StatusUnauthorized w) g, st)
              else (g\<lparr>gpos := Upgrading cluster\<rparr>, st))
         | Upgrading cluster \<Rightarrow>
             (case Upgrade ws 1024 1024 r w v of
                (Inl err, w, v) \<Rightarrow>
                  (returns (http_Error (Sprintf ''failed to upgrade to WebSocket: %s'' [Str (Error err)])
                     StatusInternalServerError w) g, called [] v st)
              | (Inr c, w, v) \<Rightarrow> (g\<lparr>gwriter := w, gpos := Multiplexing cluster c\<rparr>, called [Upgraded key r c] v st))
         | Multiplexing cluster c \<Rightarrow>
             (case yamux_Server ws (UnderlyingConn ws c) v of
                (Inl err, v) \<Rightarrow>
                  (returns (http_Error (Sprintf ''failed to multiplex channel: %s'' [Str (Error err)])
                     StatusInternalServerError w) g, called [] v st)
              | (Inr sess, v) \<Rightarrow>
                  (g\<lparr>gpos := Adding cluster c sess\<rparr>, called [Multiplexed key r (UnderlyingConn ws c) sess] v st))
         | Adding cluster c sess \<Rightarrow> (returns w g, traced_add ks key sess st)
         | Returned \<Rightarrow> (g, st))"

section \<open>A goroutine on its own is the handler\<close>

text \<open>The libraries act on the world of a hub; the sequential handler runs on the hub.\<close>

definition on_world :: "('w \<Rightarrow> 'a \<times> 'w) \<Rightarrow> 'w hub \<Rightarrow> 'a \<times> 'w hub" where
  "on_world f h = (let (x, v) = f (world h) in (x, h\<lparr>world := v\<rparr>))"

definition ws_on_world :: "'w ws_lib \<Rightarrow> 'w hub ws_lib" where
  "ws_on_world ws = \<lparr>Upgrade = (\<lambda>rb wb r w h. let (u, w', v) = Upgrade ws rb wb r w (world h) in (u, w', h\<lparr>world := v\<rparr>)),
     UnderlyingConn = UnderlyingConn ws, yamux_Server = (\<lambda>c. on_world (yamux_Server ws c))\<rparr>"

definition solo ::
    "(err \<Rightarrow> bool) \<Rightarrow> 'w ws_lib \<Rightarrow> ('m, 'w) cluster_get \<Rightarrow> (NamespacedName \<Rightarrow> string) \<Rightarrow> nat \<Rightarrow>
       'm goroutine \<times> ('m, 'w) traced \<Rightarrow> 'm goroutine \<times> ('m, 'w) traced" where
  "solo isnf ws get ks n = (\<lambda>(g, st). connect_step isnf ws get ks g st) ^^ n"

lemma solo_0 [simp]: "solo isnf ws get ks 0 a = a"
  by (simp add: solo_def)

lemma solo_Suc: "solo isnf ws get ks (Suc n) (g, st) = solo isnf ws get ks n (connect_step isnf ws get ks g st)"
  by (simp add: solo_def funpow_swap1)

lemma step_returned [simp]: "gpos g = Returned \<Longrightarrow> solo isnf ws get ks n (g, st) = (g, st)"
  by (induction n) (simp_all add: solo_Suc connect_step_def)

lemma gpos_returns [simp]: "gpos (returns w g) = Returned" "gwriter (returns w g) = w"
  by (simp_all add: returns_def)

lemma thub_called [simp]: "thub (called evs v st) = (thub st)\<lparr>world := v\<rparr>" "trace (called evs v st) = evs @ trace st"
  by (simp_all add: called_def)

text \<open>Five steps take a request through; then it has been answered as the handler answers it.\<close>

lemma goroutine_runs_handler:
  assumes "solo isnf ws get ks 5 (accepted key r w, st) = (g, st')"
  shows "gpos g = Returned \<and> connect_handler isnf (ws_on_world ws) (Some (\<lambda>ns n. on_world (get ns n))) (Some (add_session ks)) key r w
    (thub st) = Some (gwriter g, thub st')"
  using assms
  by (auto simp: eval_nat_numeral solo_Suc connect_step_def connect_handler_def accepted_def on_world_def ws_on_world_def
      traced_add_def Let_def split: prod.splits sum.splits if_splits)

section \<open>All goroutines\<close>

text \<open>
  The state is the list of the goroutines of all connect requests so far, in order of their arrival, and the
  hub. Dials are those of proxy requests, atomic by \<open>calls_linearise\<close>, as registrations are.
\<close>

inductive threads_step ::
    "(err \<Rightarrow> bool) \<Rightarrow> 'w ws_lib \<Rightarrow> ('m, 'w) cluster_get \<Rightarrow> (NamespacedName \<Rightarrow> string) \<Rightarrow> 'w yamux \<Rightarrow>
       'm goroutine list \<times> ('m, 'w) traced \<Rightarrow> 'm goroutine list \<times> ('m, 'w) traced \<Rightarrow> bool"
  for isnf ws get ks yx where
  accept: "threads_step isnf ws get ks yx (gs, st) (gs @ [accepted key r newWriter], st)"
| run: "i < length gs \<Longrightarrow> connect_step isnf ws get ks (gs ! i) st = (g, st') \<Longrightarrow>
     threads_step isnf ws get ks yx (gs, st) (gs[i := g], st')"
| dialled: "traced_dial ks yx key st = (c, st') \<Longrightarrow> threads_step isnf ws get ks yx (gs, st) (gs, st')"
| elsewhere: "threads_step isnf ws get ks yx (gs, st) (gs, called [] v st)"

text \<open>What a goroutine can show for itself at its position.\<close>

fun evidence :: "'w ws_lib \<Rightarrow> 'm event list \<Rightarrow> NamespacedName \<Rightarrow> request \<Rightarrow> 'm position \<Rightarrow> bool" where
  "evidence ws t key r (Comparing cl) \<longleftrightarrow> LookedUp key r cl \<in> set t"
| "evidence ws t key r (Upgrading cl) \<longleftrightarrow> LookedUp key r cl \<in> set t \<and> query_Get (reqURL r) ''token'' = Token cl"
| "evidence ws t key r (Multiplexing cl c) \<longleftrightarrow>
     LookedUp key r cl \<in> set t \<and> query_Get (reqURL r) ''token'' = Token cl \<and> Upgraded key r c \<in> set t"
| "evidence ws t key r (Adding cl c s) \<longleftrightarrow>
     LookedUp key r cl \<in> set t \<and> query_Get (reqURL r) ''token'' = Token cl \<and> Upgraded key r c \<in> set t
     \<and> Multiplexed key r (UnderlyingConn ws c) s \<in> set t"
| "evidence ws t key r _ \<longleftrightarrow> True"

definition shown :: "'w ws_lib \<Rightarrow> 'm goroutine list \<times> ('m, 'w) traced \<Rightarrow> bool" where
  "shown ws a \<longleftrightarrow> (\<forall>g \<in> set (fst a). evidence ws (trace (snd a)) (gkey g) (greq g) (gpos g))"

lemma evidence_mono: "evidence ws t key r p \<Longrightarrow> set t \<subseteq> set t' \<Longrightarrow> evidence ws t' key r p"
  by (cases p) auto

lemma connect_step_evidence:
  assumes "connect_step isnf ws get ks g st = (g', st')" and "evidence ws (trace st) (gkey g) (greq g) (gpos g)"
  shows "evidence ws (trace st') (gkey g') (greq g') (gpos g')"
  using assms
  by (cases "gpos g")
     (auto simp: connect_step_def traced_add_def returns_def Let_def split: prod.splits sum.splits if_splits)

lemma acts_world: "acts ks yx raw st (called [] v st)"
  using act.elsewhere [of ks yx raw st v] by (simp add: called_def)

lemma acts_called:
  assumes "act ks yx raw st (st\<lparr>trace := e # trace st\<rparr>)"
  shows "acts ks yx raw st (called [e] v st)"
  using rtranclp.rtrancl_into_rtrancl [OF r_into_rtranclp [of "act ks yx raw", OF assms] act.elsewhere [of ks yx raw _ v]]
  by (simp add: called_def)

lemma connect_step_acts:
  assumes "connect_step isnf ws get ks g st = (g', st')" and "evidence ws (trace st) (gkey g) (greq g) (gpos g)"
  shows "acts ks yx (UnderlyingConn ws) st st'"
proof (cases "gpos g")
  case (Adding cl c s)
  with assms(2) have "authenticated (UnderlyingConn ws) (trace st) (gkey g) s" unfolding authenticated_def by auto
  with assms(1) Adding show ?thesis by (auto simp: connect_step_def intro: act.registered)
qed (use assms(1) in \<open>auto simp: connect_step_def Let_def split: prod.splits sum.splits if_splits
      intro!: acts_world acts_called act.looked_up act.upgraded act.multiplexed\<close>)

text \<open>Every step is one of the protocol, and leaves every goroutine able to show what it has reached.\<close>

lemma threads_step_act:
  "threads_step isnf ws get ks yx a b \<Longrightarrow> shown ws a \<Longrightarrow> acts ks yx (UnderlyingConn ws) (snd a) (snd b) \<and> shown ws b"
proof (induction rule: threads_step.induct)
  case (accept gs st key r)
  then show ?case by (simp add: shown_def accepted_def)
next
  case (run i gs st g st')
  then have e: "evidence ws (trace st) (gkey (gs ! i)) (greq (gs ! i)) (gpos (gs ! i))"
    by (simp add: shown_def)
  note a = connect_step_acts [where yx = yx, OF run.hyps(2) e]
  have "evidence ws (trace st') (gkey x) (greq x) (gpos x)" if "x \<in> set (gs[i := g])" for x
  proof (cases "x = g")
    case False
    with that have "x \<in> set gs" using set_update_subset_insert by fastforce
    with run.prems acts_extends [OF a] show ?thesis unfolding shown_def by (auto intro: evidence_mono)
  qed (simp add: connect_step_evidence [OF run.hyps(2) e])
  with a show ?case by (simp add: shown_def)
next
  case (dialled key st c st' gs)
  then have a: "acts ks yx (UnderlyingConn ws) st st'" by (auto intro: act.dialled)
  with dialled.prems acts_extends [OF a] show ?case by (auto simp: shown_def intro: evidence_mono)
next
  case (elsewhere gs st v)
  then show ?case using acts_world [of ks yx "UnderlyingConn ws" st v] by (simp add: shown_def)
qed

lemma threads_acts:
  assumes "(threads_step isnf ws get ks yx)\<^sup>*\<^sup>* ([], hub_start rg v) a"
  shows "acts ks yx (UnderlyingConn ws) (hub_start rg v) (snd a) \<and> shown ws a"
  using assms
proof (induction rule: rtranclp_induct)
  case base
  show ?case by (simp add: shown_def)
next
  case (step a b)
  then show ?case using threads_step_act [OF step.hyps(2)] by (auto intro: rtranclp_trans)
qed

section \<open>Properties\<close>

text \<open>
  C11: Goroutines that run the code of the connect handler (one that runs undisturbed does what
  \<open>connect_handler\<close> does) let only agents in that have shown their token, however many there are, however
  they interleave with each other, with dials and with changes of the world: a stream that is dialled for a
  cluster runs over a session for which a connect request under the id of the cluster carried the token that
  was looked up for this request, was upgraded to a WebSocket, and the session multiplexes that connection.
\<close>

theorem streams_authenticated:
  assumes "(threads_step isnf ws get ks yx)\<^sup>*\<^sup>* ([], hub_start rg v) (gs, st)"
    and "traced_dial ks yx key st = (Inr c, st')"
  shows "(\<exists>s w0 k r cl wc. Open yx s w0 = (Inr c, world (thub st')) \<and> ks k = ks key
      \<and> LookedUp k r cl \<in> set (trace st) \<and> query_Get (reqURL r) ''token'' = Token cl
      \<and> Upgraded k r wc \<in> set (trace st) \<and> Multiplexed k r (UnderlyingConn ws wc) s \<in> set (trace st))
    \<and> (let (g, st1) = solo isnf ws get ks 5 (accepted key r w, st)
       in connect_handler isnf (ws_on_world ws) (Some (\<lambda>ns n. on_world (get ns n))) (Some (add_session ks)) key r w (thub st)
            = Some (gwriter g, thub st1))"
proof
  obtain h where d: "DialCluster ks yx key (thub st) = (Inr c, h)" "st' = st\<lparr>thub := h\<rparr>"
    using assms(2) by (auto simp: traced_dial_def split: prod.splits)
  obtain s w0 where s: "s \<in># held (thub st) (ks key)" "Open yx s w0 = (Inr c, world h)"
    using sm.dial_opened [OF d(1)] by blast
  have a: "acts ks yx (UnderlyingConn ws) (hub_start rg v) st" using threads_acts [OF assms(1)] by simp
  obtain k where k: "ks k = ks key" "authenticated (UnderlyingConn ws) (trace st) k s"
    using acts_safe [OF a safe_start] s(1) unfolding safe_def by blast
  moreover have "Open yx s w0 = (Inr c, world (thub st'))" using s(2) d(2) by simp
  ultimately show "\<exists>s w0 k r cl wc. Open yx s w0 = (Inr c, world (thub st')) \<and> ks k = ks key
      \<and> LookedUp k r cl \<in> set (trace st) \<and> query_Get (reqURL r) ''token'' = Token cl
      \<and> Upgraded k r wc \<in> set (trace st) \<and> Multiplexed k r (UnderlyingConn ws wc) s \<in> set (trace st)"
    unfolding authenticated_def by blast
qed (use goroutine_runs_handler in \<open>fastforce split: prod.split\<close>)

text \<open>A hub that one agent has joined.\<close>

definition calm_ws :: "nat ws_lib" where
  "calm_ws = \<lparr>Upgrade = (\<lambda>_ _ _ w v. (Inr 5, w\<lparr>wStatus := Some 101, wHijacked := True\<rparr>, v)),
     UnderlyingConn = Suc, yamux_Server = (\<lambda>c v. (Inr (c + 10), v))\<rparr>"

lemma threads_solo:
  "i < length gs \<Longrightarrow> solo isnf ws get ks n (gs ! i, st) = (g, st') \<Longrightarrow>
     (threads_step isnf ws get ks yx)\<^sup>*\<^sup>* (gs, st) (gs[i := g], st')"
proof (induction n arbitrary: gs st)
  case (Suc n)
  obtain g1 st1 where c: "connect_step isnf ws get ks (gs ! i) st = (g1, st1)" by fastforce
  have "solo isnf ws get ks n (gs[i := g1] ! i, st1) = (g, st')" using Suc.prems c by (simp add: solo_Suc)
  from Suc.IH [OF _ this] Suc.prems(1)
  have "(threads_step isnf ws get ks yx)\<^sup>*\<^sup>* (gs[i := g1], st1) (gs[i := g], st')" by simp
  with threads_step.run [OF Suc.prems(1) c] show ?case by (rule converse_rtranclp_into_rtranclp)
qed auto

lemma demo_threads:
  "\<exists>g st. (threads_step (\<lambda>_. False) calm_ws (demo_lookup ''abc'') demo_ks demo_yamux)\<^sup>*\<^sup>* ([], hub_start (sconst 0) 0) ([g], st)
     \<and> 16 \<in># held (thub st) (demo_ks demo_key)"
proof -
  let ?T = "threads_step (\<lambda>_. False) calm_ws (demo_lookup ''abc'') demo_ks demo_yamux" and ?st = "hub_start (sconst 0) 0"
  let ?g = "accepted demo_key join_request newWriter :: unit goroutine"
  obtain g st where s: "solo (\<lambda>_. False) calm_ws (demo_lookup ''abc'') demo_ks 5 (?g, ?st) = (g, st)" by fastforce
  have a: "?T ([], ?st) ([?g], ?st)" using threads_step.accept [of _ _ _ _ _ "[]"] by simp
  have "?T\<^sup>*\<^sup>* ([?g], ?st) ([g], st)" using threads_solo [of 0 "[?g]"] s by fastforce
  with a have "?T\<^sup>*\<^sup>* ([], ?st) ([g], st)" by (rule converse_rtranclp_into_rtranclp)
  moreover have "16 \<in># held (thub st) (demo_ks demo_key)"
    using s demo_token
    by (auto simp: eval_nat_numeral solo_Suc connect_step_def accepted_def demo_lookup_def demo_cluster_def calm_ws_def
        traced_add_def sm.add_held)
  ultimately show ?thesis by blast
qed

theorem streams_authenticated_witness:
  "\<exists>gs st c st' s w0 k r cl wc. (threads_step (\<lambda>_. False) calm_ws (demo_lookup ''abc'') demo_ks demo_yamux)\<^sup>*\<^sup>*
        ([], hub_start (sconst 0) 0) (gs, st)
    \<and> traced_dial demo_ks demo_yamux demo_key st = (Inr c, st')
    \<and> Open demo_yamux s w0 = (Inr c, world (thub st')) \<and> demo_ks k = demo_ks demo_key
    \<and> LookedUp k r (cl :: unit Cluster) \<in> set (trace st) \<and> query_Get (reqURL r) ''token'' = Token cl
    \<and> Upgraded k r wc \<in> set (trace st) \<and> Multiplexed k r (UnderlyingConn calm_ws wc) s \<in> set (trace st)"
proof -
  obtain g st where t: "(threads_step (\<lambda>_. False) calm_ws (demo_lookup ''abc'') demo_ks demo_yamux)\<^sup>*\<^sup>*
      ([], hub_start (sconst 0) 0) ([g], st)" and h: "16 \<in># held (thub st) (demo_ks demo_key)"
    using demo_threads by blast
  obtain c h' where d: "DialCluster demo_ks demo_yamux demo_key (thub st) = (Inr c, h')"
    using h demo_dial [of 16 "thub st" demo_key] demo_live [of 16] by fastforce
  have "traced_dial demo_ks demo_yamux demo_key st = (Inr c, st\<lparr>thub := h'\<rparr>)" by (simp add: traced_dial_def d)
  from streams_authenticated [OF t this, THEN conjunct1] this t show ?thesis by blast
qed

end
