(* ===== verification/Spec2Isabelle.thy ===== *)
theory Spec2Isabelle
  imports Prelude Session_Manager Session_Locking Session_Progress Go_Url Go_Http Hub_Config Api_Types Deepcopy Subresources Connect
    Proxy Proxy_Outcomes Http_Server Proxy_Paths Peer_Server Hub_Trace Peer_Address Peer_Start Webhooks Webhook_Main Agent_Main
    Hub_Main Rest_Client Clientset Fake_Client Client_Equivalence Scheme_Registration Informers Listers Wire End_To_End
    Session_Liveness Replicas Transport_Pool Agent_Process Informer_Interfaces Connect_Threads
begin

text \<open>
  A model of kopilot: a hub that lets users of one Kubernetes cluster reach the API servers of member
  clusters through tunnels the members open. All paths are below \<^verbatim>\<open>src/\<close>.

  \<^bold>\<open>The program.\<close> A member cluster is a \<^verbatim>\<open>Cluster\<close> object with a token. The webhook process gives it a token
  (\<open>Mutator_Handle\<close>) and refuses one without (\<open>Validator_Handle\<close>). The hub serves three subresources of
  the object: \<^verbatim>\<open>agent\<close> hands out the manifest of the agent, \<^verbatim>\<open>connect\<close> takes the agent's WebSocket and
  registers a yamux session over it with the session manager, \<^verbatim>\<open>proxy\<close> opens a stream on a session and
  forwards a request over it. The agent serves the streams with a reverse proxy to its API server. A
  hub replica without a session asks the other replicas (the peers) over mutual TLS.

  \<^bold>\<open>The theories\<close>, in the order they build on one another:

  \<^item> \<open>Prelude\<close>: errors, formatting, strings, slices, random numbers; the lemmas all components share.
  \<^item> \<open>Go_Url\<close>, \<open>Go_Http\<close>, \<open>Wire\<close>: what the sources use of \<^verbatim>\<open>net/url\<close>, \<^verbatim>\<open>net/http\<close> and \<^verbatim>\<open>httputil\<close> of Go 1.16.
    Decoding undoes encoding; how the reverse proxy ends; which headers it keeps; a URL survives the wire.
  \<^item> \<open>Session_Manager\<close> (\<^verbatim>\<open>pkg/hub/cluster/session_manager.go\<close>): the registry as a record, \<open>AddClusterSession\<close>,
    \<open>DialCluster\<close>. \<open>dial_spec\<close> is the abstract specification over multisets of sessions, the locale
    \<open>session_manager\<close> the interface, \<open>hub_step\<close> the registrations and dials of any handlers, in any order and of any
    sessions. \<open>Session_Locking\<close> has
    the goroutines statement by statement and the mutex, and proves that whole calls may be taken as steps;
    \<open>Session_Progress\<close> that they all return.
    \<open>Session_Liveness\<close> lets sessions die unnoticed: a hub reaches exactly the clusters with a living session.
  \<^item> \<open>Hub_Config\<close> (\<^verbatim>\<open>pkg/hub/config.go\<close>), \<open>Api_Types\<close> (\<^verbatim>\<open>pkg/apis\<close>): data. \<open>Deepcopy\<close>: the
    deep copies of clusters and lists over a store of addresses, independent of their originals down to the cells of
    the metadata.
  \<^item> \<open>Subresources\<close> (\<^verbatim>\<open>pkg/hub/cluster/subresources.go\<close>): the three handlers, each guard and early return
    in the order of the code; the locale \<open>peer_manager\<close> is what the proxy relies on. \<open>Connect\<close> and \<open>Proxy\<close>
    prove what they promise. \<open>Proxy_Outcomes\<close> covers every result of a round trip, through one reverse proxy or two:
    answers, protocol switches, errors, and which headers pass in either direction.
  \<^item> \<open>Peer_Server\<close> and \<open>Peer_Start\<close> (\<^verbatim>\<open>pkg/hub/peer/server.go\<close>): listing and asking peers, answering them, TLS
    and shutdown. \<open>peer_search\<close> is the search as a function of the list of peers.
  \<^item> \<open>Hub_Trace\<close>: the handlers run concurrently. What each of them does to the hub is a sequence of atomic
    actions (rely and guarantee over a ghost trace), and what all sequences of actions keep holds of the hub. The actions
    (\<open>act\<close>) are a specification, not code. \<open>Connect_Threads\<close> has goroutines that run the connect handler
    statement by statement; that they register only what the specification allows is shown from the code.
  \<^item> \<open>Replicas\<close>: all replicas of a hub as one system, each with its own sessions; together they reach a cluster
    exactly when one of them does.
  \<^item> \<open>Transport_Pool\<close>: the idle connections of \<^verbatim>\<open>http.Transport\<close>, of which the hub makes one per request and the
    agent one for all.
  \<^item> \<open>Http_Server\<close>: the goroutines around an \<^verbatim>\<open>http.Server\<close> as a step relation with the locale \<open>served\<close>,
    interpreted for the peer server and for the agent. \<^verbatim>\<open>Shutdown\<close> waits for the connections that are still the server's;
    hijacked ones are counted and not waited for.
  \<^item> \<open>Webhooks\<close>, \<open>Webhook_Main\<close> (\<^verbatim>\<open>pkg/webhook/cluster\<close>, \<^verbatim>\<open>cmd/kopilot-webhook\<close>), \<open>Agent_Main\<close>
    (\<^verbatim>\<open>cmd/kopilot-agent\<close>), \<open>Hub_Main\<close> (\<^verbatim>\<open>cmd/kopilot-hub\<close>): the other processes. \<open>Agent_Process\<close> is the
    whole life of an agent: set-up, signals, the session that is its listener, and every way to end; it refines
    the server of \<open>Http_Server\<close> (\<open>agent_step_serves\<close>).
  \<^item> \<open>Rest_Client\<close>, \<open>Clientset\<close> (\<^verbatim>\<open>pkg/client/clientset/versioned\<close>): the typed client with its 64-bit
    durations, the clientset with its constructors, and the Go interfaces of both as records of methods.
  \<^item> \<open>Fake_Client\<close> (\<^verbatim>\<open>versioned/fake\<close>, \<^verbatim>\<open>typed/kopilot/v1alpha1/fake\<close>) and \<open>Client_Equivalence\<close>: the clientset of
    tests, and that no program of calls can tell it from the real one.
  \<^item> \<open>Scheme_Registration\<close>: which Go types the schemes of clientset, fake and webhook know.
  \<^item> \<open>Informers\<close>, \<open>Listers\<close> (\<^verbatim>\<open>pkg/client/informers\<close>, \<^verbatim>\<open>pkg/client/listers\<close>): the informer factory as a state
    machine with the locale \<open>shared_informer_factory\<close>, the accessors that lead to it, the listers.
    \<open>Informer_Interfaces\<close>: their Go interfaces as records of methods, and the way from a factory to its clusters.
  \<^item> \<open>Peer_Address\<close>, \<open>Proxy_Paths\<close>: what address a listed peer is dialled at, and what becomes of the
    encoding of a path.
  \<^item> \<open>End_To_End\<close> and this theory: hub, peer and agent joined by \<open>serve_exchange\<close>, an agent and its hub by
    \<open>reaches_hub\<close>, where the upgrade of the hub may fail.

  \<^bold>\<open>How state and calls correspond.\<close> A method of the code is a function that takes and returns the state
  it changes; what it calls outside the repository (Kubernetes clients, WebSocket, yamux, TLS, files,
  UUIDs) is an argument. A Go error return is an \<open>Inl\<close> of \<open>err\<close>; a panic or a call that does not return is
  \<open>None\<close>; \<^verbatim>\<open>log.Fatalf\<close> is the message the process ends with. A handler edits a \<open>writer\<close>, in which the first
  status wins, as in \<^verbatim>\<open>net/http\<close>. A request body can be read once: after a failed round trip it is
  \<open>ClosedBody\<close>.

  \<^bold>\<open>Termination.\<close> \<open>dialLoop\<close> is total: each round drops a session. \<open>TryNextPeer\<close> calls itself without a
  bound of its own and is a partial function; with the closure of the proxy handler it always returns
  (\<open>TryNextPeer_returns\<close>). An agent without a session has at most \<open>agent_work\<close> steps left, and goroutines that
  wait for the session manager are served within \<open>lock_work\<close> steps. No definition uses fuel.

  \<^bold>\<open>What the theorems found.\<close> Requests with a body never survive the way to a peer; an unreachable peer
  ends the search; the agent cannot shut down cleanly; a token with a separator locks its agent out; a
  failed upgrade is answered twice; the encoding of a path is lost; a dial that waits holds up all clusters; every
  proxied request leaves a stream open; dead sessions stay until they are dialled (\<open>dead_sessions_accumulate\<close>).
  The fake client reports the deletion of a collection as done and deletes nothing.
  These are theorems about the code as it is, beside those that state what it achieves.

  \<^bold>\<open>Not modelled.\<close> Log output; the content of yamux, WebSocket and TLS; HTTP/2; bodies that break off midway: bodies are whole
  strings, so the panic of \<^verbatim>\<open>ReverseProxy\<close> with \<^verbatim>\<open>http.ErrAbortHandler\<close>, when it cannot copy a response body to its end, is not
  there, and neither is a body that is sent piece by piece; library calls that never return: an exchange without time-out is taken
  to end some time (\<open>Session_Locking\<close> has the one wait that matters for others, that of \<^verbatim>\<open>Open\<close>); what goes over a connection after a
  protocol switch, and how long it lasts; the \<^verbatim>\<open>Host\<close> header and headers that the server of
  \<^verbatim>\<open>net/http\<close> adds of its own; of the transport, that it asks for \<^verbatim>\<open>Accept-Encoding: gzip\<close> of its own and then decompresses the
  answer, and that it refuses malformed header fields, which a server has not let in; context cancellation inside a call of the
  Kubernetes client.
\<close>

section \<open>Properties that span components\<close>

text \<open>
  A cluster whose agent has connected is served. After the connect handler has registered a
  session that opens, a proxy request for the cluster is forwarded to its agent and answered with what the
  agent answers, provided that the lookup of the cluster leaves the sessions alone.
\<close>

lemma connected_cluster_is_served:
  assumes "get (Namespace key) (Name key) h = (Inr cl, h1)" and "query_Get (reqURL r) ''token'' = Token cl"
    and "Upgrade ws 1024 1024 r w h1 = (Inr conn, w1, h2)"
    and "yamux_Server ws (UnderlyingConn ws conn) h2 = (Inr sess, h3)" and "live yx sess"
    and "get (Namespace key) (Name key) (add_session ks key sess h3) = (Inr cl', h4)"
    and "mgr h4 = mgr (add_session ks key sess h3)" and "reqBody r' \<noteq> ClosedBody" and "fresh w'"
  shows "connect_handler isnf ws (Some get) (Some (add_session ks)) key r w h = Some (w1, add_session ks key sess h3)
    \<and> (\<exists>c h5 q. DialCluster ks yx key h4 = (Inr c, h5) \<and> forwarded subpath r' q
        \<and> (\<forall>res h6. exch c q h5 = (Inr res, h6) \<and> switch_wanted (upgradeType (Header r')) res \<longrightarrow>
             (\<exists>w''. NewProxyHandler isnf get (DialCluster ks yx) exch pm key subpath r' w' (add_session ks key sess h3) = Some (w'', h6)
               \<and> delivered (upgradeType (Header r')) (Inr res) w' w'')))"
proof
  show "connect_handler isnf ws (Some get) (Some (add_session ks)) key r w h = Some (w1, add_session ks key sess h3)"
    unfolding connect_right_token [where get = get and key = key, OF assms(1,2)] by (simp add: assms(3,4))
  have "held h4 (ks key) = held (add_session ks key sess h3) (ks key)" by (simp add: held_def assms(7))
  then have "sess \<in># held h4 (ks key)" by (simp add: sm.add_held)
  from sm.dial_live [where ks = ks and k = key, OF assms(5) this] obtain c h5
    where d: "DialCluster ks yx key h4 = (Inr c, h5)" by blast
  obtain q where "forwarded subpath r' q"
      "\<forall>res h6. exch c q h5 = (Inr res, h6) \<and> switch_wanted (upgradeType (Header r')) res \<longrightarrow>
         (\<exists>w''. (\<forall>pm. NewProxyHandler isnf get (DialCluster ks yx) exch pm key subpath r' w' (add_session ks key sess h3) = Some (w'', h6))
           \<and> delivered (upgradeType (Header r')) (Inr res) w' w'')"
    using proxy_local [where get = get and key = key and dial = "DialCluster ks yx" and exch = exch, OF assms(6) d assms(8,9)]
    by blast
  with d show "\<exists>c h5 q. DialCluster ks yx key h4 = (Inr c, h5) \<and> forwarded subpath r' q
        \<and> (\<forall>res h6. exch c q h5 = (Inr res, h6) \<and> switch_wanted (upgradeType (Header r')) res \<longrightarrow>
             (\<exists>w''. NewProxyHandler isnf get (DialCluster ks yx) exch pm key subpath r' w' (add_session ks key sess h3) = Some (w'', h6)
               \<and> delivered (upgradeType (Header r')) (Inr res) w' w''))"
    by (intro exI [of _ c] exI [of _ h5] exI [of _ q] conjI) (assumption+, blast)
qed

text \<open>
  C4: The hub that \<^verbatim>\<open>main\<close> puts together serves a cluster whose agent has connected. It has the three
  subresources; when the handler of \<^verbatim>\<open>connect\<close> has registered a session that opens, a request to \<^verbatim>\<open>proxy\<close> for the
  cluster is forwarded to its agent and answered with what the agent answers, because both work on the same
  session manager, provided that the lookup of the cluster leaves the sessions alone.
\<close>

theorem hub_serves_joined_cluster:
  assumes "hub_main StringVar Parse fs lib clustersOf endpointsOf isnf ws subPath ks yx exch pn = Inr (C, subs)"
    and "hub_setup lib = Inr (kube, client)"
    and "clustersOf client (Namespace key) (Name key) h = (Inr cl, h1)" and "query_Get (reqURL r) ''token'' = Token cl"
    and "Upgrade ws 1024 1024 r w h1 = (Inr conn, w1, h2)"
    and "yamux_Server ws (UnderlyingConn ws conn) h2 = (Inr sess, h3)" and "live yx sess"
    and "clustersOf client (Namespace key) (Name key) (add_session ks key sess h3) = (Inr cl', h4)"
    and "mgr h4 = mgr (add_session ks key sess h3)" and "reqBody r' \<noteq> ClosedBody" and "fresh w'"
  shows "map subName subs = [''agent'', ''connect'', ''proxy'']
    \<and> Connect (subs ! 1) key r w h = Some (w1, add_session ks key sess h3)
    \<and> (\<exists>c h5 q route. DialCluster ks yx key h4 = (Inr c, h5) \<and> forwarded subpath r' q \<and> Route (subs ! 2) = Some route
        \<and> (\<forall>res h6. exch c q h5 = (Inr res, h6) \<and> switch_wanted (upgradeType (Header r')) res \<longrightarrow>
             (\<exists>w''. route key subpath r' w' (add_session ks key sess h3) = Some (w'', h6)
               \<and> delivered (upgradeType (Header r')) (Inr res) w' w'')))"
proof -
  have subs: "subs = [NewAgentSubresource isnf ws subPath C (clustersOf client),
       NewConnectSubresource isnf ws (Some (clustersOf client)) (Some (add_session ks)),
       NewProxySubresource isnf (clustersOf client) (DialCluster ks yx) exch (Some (NewManager C (endpointsOf kube) pn))]"
    by (rule hub_mainE [OF assms(1)]) (use assms(2) in simp)
  from connected_cluster_is_served [where get = "clustersOf client" and key = key and ks = ks and isnf = isnf and exch = exch
      and pm = "Some (NewManager C (endpointsOf kube) pn)" and subpath = subpath, OF assms(3-11)]
  show ?thesis
    by (simp add: subs NewAgentSubresource_def NewConnectSubresource_def NewProxySubresource_def)
qed

definition demo_hub_clients :: "(unit, unit, unit) hub_clients" where
  "demo_hub_clients = \<lparr>BuildConfigFromFlags = (\<lambda>_ _. Inr ()), kubeNewForConfig = Inr, clientNewForConfig = Inr\<rparr>"

definition demo_no_peers :: "(unit, nat hub) peer_net" where
  "demo_no_peers = \<lparr>LoadX509KeyPair = (\<lambda>_ _ s. (Inr (), s)), TLSDial = (\<lambda>_ _ s. (Inl (errors_New ''refused''), s)),
     Exchange = (\<lambda>_ _ s. (Inl (errors_New ''EOF''), s))\<rparr>"

theorem hub_serves_joined_cluster_witness:
  "\<exists>C subs route w'' h'. hub_main StringVar_doc (parse_flags (\<lambda>_. None)) [] demo_hub_clients (\<lambda>_. demo_lookup ''abc'')
       (\<lambda>_ _ _ s. (Inr [], s)) (\<lambda>_. False) (demo_ws True) (\<lambda>_ _. ''/connect'') demo_ks demo_yamux demo_exchange demo_no_peers = Inr (C, subs)
     \<and> Route (subs ! 2) = Some route
     \<and> route demo_key ''/api'' (demo_query []) newWriter (add_session demo_ks demo_key 15 demo_hub) = Some (w'', h') \<and> wStatus w'' = Some 200"
proof -
  let ?main = "hub_main StringVar_doc (parse_flags (\<lambda>_. None)) [] demo_hub_clients (\<lambda>_. demo_lookup ''abc'')
       (\<lambda>_ _ _ s. (Inr [], s)) (\<lambda>_. False) (demo_ws True) (\<lambda>_ _. ''/connect'') demo_ks demo_yamux demo_exchange demo_no_peers"
  have s: "hub_setup demo_hub_clients = Inr ((), ())" by (simp add: hub_setup_def demo_hub_clients_def)
  then obtain C subs where m: "?main = Inr (C, subs)" by (simp add: hub_main_def Let_def)
  have t: "query_Get (reqURL (demo_query ''token=abc'')) ''token'' = Token (demo_cluster ''abc'')"
    by (simp add: demo_token demo_cluster_def)
  have u: "Upgrade (demo_ws True) 1024 1024 (demo_query ''token=abc'') newWriter demo_hub = (Inr 5, newWriter\<lparr>wStatus := Some 101, wHijacked := True\<rparr>, demo_hub)"
    and y: "yamux_Server (demo_ws True) (UnderlyingConn (demo_ws True) 5) demo_hub = (Inr 15, demo_hub)"
    by (simp_all add: demo_ws_def)
  have l: "live demo_yamux 15" by (simp add: demo_live)
  have b: "reqBody (demo_query []) \<noteq> ClosedBody" by (simp add: demo_query_def)
  from hub_serves_joined_cluster [where key = demo_key and subpath = "''/api''", OF m s demo_lookup t u y l demo_lookup refl b fresh_newWriter]
  obtain c h5 q route where r: "Route (subs ! 2) = Some route" and q: "\<forall>res h6. demo_exchange c q h5 = (Inr res, h6)
        \<and> switch_wanted (upgradeType (Header (demo_query []))) res \<longrightarrow>
     (\<exists>w''. route demo_key ''/api'' (demo_query []) newWriter (add_session demo_ks demo_key 15 demo_hub) = Some (w'', h6)
        \<and> delivered (upgradeType (Header (demo_query []))) (Inr res) newWriter w'')" by blast
  have "demo_exchange c q h5 = (Inr \<lparr>StatusCode = 200, respHeader = Map.empty, respBody = ''pods''\<rparr>, h5)"
    by (simp add: demo_exchange_def)
  with q obtain w'' where "route demo_key ''/api'' (demo_query []) newWriter (add_session demo_ks demo_key 15 demo_hub) = Some (w'', h5)"
      "wStatus w'' = Some 200" by (fastforce simp: switch_wanted_def delivered_def)
  with m r show ?thesis by blast
qed

text \<open>
  C1: The whole way to the member's API server, whatever comes back. With an agent at the other end of the stream, the
  API server is sent the path behind the proxy subresource (the root, if there is none), query, method, body and
  headers of the client, and the agent's service account token as its only authorization. The client gets what the API
  server answers, with its headers; the connection after a switch to the protocol it has asked for, as \<^verbatim>\<open>kubectl exec\<close>
  does; and a 502 if the API server cannot be dialled, fails, or switches to another protocol. No peer is asked: the answer
  is the same for every peer manager.
\<close>

theorem request_reaches_api_server:
  assumes "get (Namespace key) (Name key) s = (Inr cl, s1)" and "dial key s1 = (Inr c, s2)"
    and "agent_setup flags net ca t = (Inr srv, t')" and "host_ok (apiserverAddr flags)"
    and "subpath = [] \<or> HasPrefix subpath ''/''" and "no_ctl (RawQuery (reqURL r))" and "reqBody r \<noteq> ClosedBody" and "fresh w"
  shows "\<exists>q. api_request (apiserverAddr flags) (agentToken srv) subpath r q
    \<and> (\<forall>x s3. RoundTrip (dialTLS (RootCAs srv) (apiserverAddr flags)) apiexch q s2 = (x, s3) \<longrightarrow>
         (\<exists>w'. (\<forall>pm. NewProxyHandler isnf get dial (serve_exchange (agent_proxy dialTLS apiexch srv)) pm key subpath r w s = Some (w', s3))
           \<and> delivered (upgradeType (Header r)) x w w'))"
  by (rule request_over_session [where get = get and key = key and dial = dial and dialTLS = dialTLS and apiexch = apiexch, OF assms])

text \<open>An API server that answers plain requests and switches to WebSocket if it is asked to.\<close>

definition demo_switch :: response where
  "demo_switch = \<lparr>StatusCode = 101, respHeader = [''Connection'' \<mapsto> [''Upgrade''], ''Upgrade'' \<mapsto> [''WebSocket'']], respBody = []\<rparr>"

definition demo_api_exchange :: "nat \<Rightarrow> request \<Rightarrow> 's \<Rightarrow> response res \<times> 's" where
  "demo_api_exchange k q s = (Inr (
     if Header q ''Authorization'' \<noteq> Some [''Bearer CA''] then \<lparr>StatusCode = 401, respHeader = Map.empty, respBody = []\<rparr>
     else if upgradeType (Header q) = ''websocket'' then demo_switch
     else \<lparr>StatusCode = 200, respHeader = Map.empty, respBody = Path (reqURL q)\<rparr>), s)"

definition demo_exec :: request where
  "demo_exec = (demo_query ''command=ls'')\<lparr>Header := [''Connection'' \<mapsto> [''keep-alive, Upgrade''], ''Upgrade'' \<mapsto> [''WebSocket'']]\<rparr>"

lemma demo_exec_upgrade: "upgradeType (Header demo_exec) = ''websocket''" "upgradeType (respHeader demo_switch) = ''websocket''"
  unfolding demo_exec_def demo_switch_def by code_simp+

lemma demo_exec_request:
  "HasPrefix ''/api/v1/pods'' ''/''" "no_ctl (RawQuery (reqURL demo_exec))" "ContentLength demo_exec = 0" "reqBody demo_exec \<noteq> ClosedBody"
  by (simp_all add: demo_exec_def demo_query_def no_ctl_def isCTL_def HasPrefix_def)

lemma demo_exec_answer:
  assumes "api_request (apiserverAddr agent_flag_defaults) (agentToken demo_agent) subpath demo_exec q"
  shows "RoundTrip (\<lambda>s. (Inr 0, s)) demo_api_exchange q s = (Inr demo_switch, s)"
  using assms demo_exec_request(4) demo_exec_upgrade(1)
  by (simp add: RoundTrip_def demo_api_exchange_def api_request_def demo_agent_def)

lemma demo_exec_delivered:
  "delivered (upgradeType (Header demo_exec)) (Inr demo_switch) newWriter w' \<Longrightarrow>
     wStatus w' = Some 101 \<and> wHijacked w' \<and> wSent w' ''Upgrade'' = Some [''WebSocket'']"
  using demo_exec_upgrade by (simp add: delivered_def header_passed_def newWriter_def) (simp add: demo_switch_def)

lemma demo_apiserver_default: "host_ok (apiserverAddr agent_flag_defaults)"
  by (simp add: agent_flag_defaults_def demo_apiserver)

theorem request_reaches_api_server_witness:
  "\<exists>w'. NewProxyHandler (\<lambda>_. False) (demo_lookup ''abc'') (\<lambda>_ s. (Inr 1, s))
     (serve_exchange (agent_proxy (\<lambda>_ _ s. (Inr 0, s)) demo_api_exchange demo_agent)) None demo_key ''/api/v1/pods''
     demo_exec newWriter (0 :: nat) = Some (w', 0) \<and> wStatus w' = Some 101 \<and> wHijacked w' \<and> wSent w' ''Upgrade'' = Some [''WebSocket'']"
proof -
  obtain q where q: "api_request (apiserverAddr agent_flag_defaults) (agentToken demo_agent) ''/api/v1/pods'' demo_exec q"
    and r: "\<forall>x s3. RoundTrip (\<lambda>s. (Inr 0, s)) demo_api_exchange q (0 :: nat) = (x, s3) \<longrightarrow>
      (\<exists>w'. (\<forall>pm. NewProxyHandler (\<lambda>_. False) (demo_lookup ''abc'') (\<lambda>_ s. (Inr 1, s))
       (serve_exchange (agent_proxy (\<lambda>_ _ s. (Inr 0, s)) demo_api_exchange demo_agent)) pm demo_key ''/api/v1/pods''
       demo_exec newWriter (0 :: nat) = Some (w', s3)) \<and> delivered (upgradeType (Header demo_exec)) x newWriter w')"
    using request_reaches_api_server [where get = "demo_lookup ''abc''" and key = demo_key and dial = "\<lambda>_ s. (Inr 1, s)"
      and isnf = "\<lambda>_. False" and apiexch = demo_api_exchange and dialTLS = "\<lambda>_ _ s. (Inr 0, s)" and s = "0 :: nat",
      OF demo_lookup refl demo_agent_setup demo_apiserver_default disjI2 [OF demo_exec_request(1)] demo_exec_request(2,4) fresh_newWriter]
    by blast
  from r demo_exec_answer [OF q, of "0 :: nat"] obtain w' where "NewProxyHandler (\<lambda>_. False) (demo_lookup ''abc'') (\<lambda>_ s. (Inr 1, s))
       (serve_exchange (agent_proxy (\<lambda>_ _ s. (Inr 0, s)) demo_api_exchange demo_agent)) None demo_key ''/api/v1/pods''
       demo_exec newWriter (0 :: nat) = Some (w', 0)" "delivered (upgradeType (Header demo_exec)) (Inr demo_switch) newWriter w'" by blast
  with demo_exec_delivered show ?thesis by blast
qed



text \<open>
  C16: A cluster that was admitted cannot be joined without its token. Once both webhooks have let a
  cluster pass, a request with another token, or without one, is answered 401 and nothing else by the connect and
  the agent handler of every hub that reads this cluster: no connection is upgraded, no session registered.
\<close>

theorem admitted_cluster_needs_token:
  assumes "admission_doc lib d api" and "validatorDecoder v = Some d"
    and "admit lib api uuid_New m v q t = Some (Some q', t')" and "Decode lib d q' = Inr cl"
    and "get (Namespace key) (Name key) s = (Inr cl, s1)"
    and "query_Get (reqURL r) ''token'' \<noteq> Token cl \<or> query_Get (reqURL r) ''token'' = []" and "fresh w"
  shows "\<exists>w'. wStatus w' = Some 401 \<and> wBody w' = ''Unauthorized'' @ NL
    \<and> connect_handler isnf ws (Some get) add key r w s = Some (w', s1)
    \<and> agent_handler isnf ws subPath C get key r w s = Some (w', s1)"
proof -
  have "Token cl \<noteq> []" using admit_token [OF assms(1-3)] assms(4) by auto
  with assms(6) have n: "query_Get (reqURL r) ''token'' \<noteq> Token cl" by auto
  show ?thesis by (rule wrong_token_refused [where get = get and key = key, OF assms(5) n assms(7)])
qed

definition demo_admitted :: "(unit, 's) cluster_get" where
  "demo_admitted n m s = (Inr \<lparr>clusterTypeMeta = \<lparr>Kind = [], APIVersion = []\<rparr>, ObjectMeta = (), Token = ''t''\<rparr>, s)"

theorem admitted_cluster_needs_token_witness:
  "\<exists>w'. wStatus w' = Some 401
    \<and> connect_handler (\<lambda>_. False) (demo_ws True) (Some demo_admitted) (Some (add_session demo_ks)) demo_key
        (demo_query []) newWriter demo_hub = Some (w', demo_hub)"
proof -
  have a: "admit demo_admission demo_api demo_uuid demo_mutator demo_validator ''t'' 0 = Some (Some ''t'', 0)"
    by (simp add: admit_def Mutator_Handle_def Validator_Handle_def demo_handlers demo_admission_def demo_api_def)
  have d: "Decode demo_admission () ''t'' = Inr \<lparr>clusterTypeMeta = \<lparr>Kind = [], APIVersion = []\<rparr>, ObjectMeta = (), Token = ''t''\<rparr>"
    by (simp add: demo_admission_def)
  have g: "demo_admitted (Namespace demo_key) (Name demo_key) demo_hub =
      (Inr \<lparr>clusterTypeMeta = \<lparr>Kind = [], APIVersion = []\<rparr>, ObjectMeta = (), Token = ''t''\<rparr>, demo_hub)"
    by (simp add: demo_admitted_def)
  have n: "query_Get (reqURL (demo_query [])) ''token'' \<noteq> Token (\<lparr>clusterTypeMeta = \<lparr>Kind = [], APIVersion = []\<rparr>,
      ObjectMeta = (), Token = ''t''\<rparr> :: unit Cluster) \<or> query_Get (reqURL (demo_query [])) ''token'' = []"
    by (simp add: demo_query_def query_Get_def parseQuery_def List.map_filter_def query_pair_def)
  from admitted_cluster_needs_token [where get = demo_admitted and key = demo_key and isnf = "\<lambda>_. False" and ws = "demo_ws True"
      and add = "Some (add_session demo_ks)" and s = demo_hub and subPath = "\<lambda>_ _. []" and C = hub_C,
      OF demo_admission_doc demo_handlers(2) a d g n fresh_newWriter]
  show ?thesis by fast
qed

text \<open>
  C3: An agent deployed from the manifest gives access to its cluster. Whoever knows the token of a cluster is handed a
  manifest with a connect URL. An agent started with this URL dials the hub with a WebSocket handshake. If the
  hub's upgrade of it succeeds, the agent gets through its set-up, and leaves the hub with one session more for this cluster and
  for no other; from then on, in every state of the hub in which the cluster can be read and this session is still registered and
  alive, a dial of the cluster opens a stream, and a client's request goes over it to the API server and back as in
  \<open>request_reaches_api_server\<close>. If the upgrade fails, the agent's set-up fails and the hub has the sessions it had.
  The hypotheses are documented behaviour of the upgrade and of yamux, that the service account of the agent is mounted, and, for the
  state in which the agent dials, that the cluster can be read and the dial reaches the hub under its public address; whichever session
  is dialled later, such an agent is at its end.
\<close>

theorem deployed_agent_gives_access:
  fixes get :: "('m, 'w hub) cluster_get"
  assumes "get (Namespace key) (Name key) h = (Inr cl, h1)"
    and "query_Get (reqURL r) ''token'' = Token cl" and "plain (Token cl)"
    and "path = subPath (NewConnectSubresource isnf ws (None :: ('m, 'w hub) cluster_get option) None) key"
    and "host_ok (PublicAddr C)" and "path_plain path" and "host_ok apiserver"
    and "upgrade_doc ws" and "\<And>c. succeeds (yamux_Server ws c)" and "\<And>c. succeeds (yamux_Client net c)" and "account_mounted ca"
    and "yamux_doc yx alive"
  shows "\<exists>pre url post. agent_handler isnf ws subPath C get key r w h = Some (Write (pre @ url_line url @ post) w, h1)
    \<and> (\<forall>g g0. get (Namespace key) (Name key) g = (Inr cl, g0) \<and> mgr g0 = mgr g
         \<and> reaches_hub net (PublicAddr C) path (connect_handler isnf ws (Some get) (Some (add_session ks)) key) g \<longrightarrow>
         (\<exists>ra. handshake ra
            \<and> (\<forall>conn wa g1. Upgrade ws 1024 1024 ra newWriter g0 = (Inr conn, wa, g1) \<longrightarrow>
                 (\<exists>srv g' t g2. agent_setup \<lparr>connectFlag = url, apiserverAddr = apiserver\<rparr> net ca g = (Inr srv, g')
                    \<and> yamux_Server ws (UnderlyingConn ws conn) g1 = (Inr t, g2)
                    \<and> held g' = (held g)(ks key := add_mset t (held g (ks key)))
                    \<and> (\<forall>h h0. get (Namespace key) (Name key) h = (Inr cl, h0) \<and> t \<in># held h0 (ks key) \<and> alive (world h0) t \<longrightarrow>
                         gives_access isnf get ks yx dialTLS apiexch srv apiserver key h h0)))
            \<and> (\<forall>e wa g1. Upgrade ws 1024 1024 ra newWriter g0 = (Inl e, wa, g1) \<longrightarrow>
                 (\<exists>msg g'. agent_setup \<lparr>connectFlag = url, apiserverAddr = apiserver\<rparr> net ca g = (Inl msg, g') \<and> held g' = held g))))"
proof -
  let ?url = "connectURL C path (Token cl)"
  obtain pre post where m: "Execute AgentYAMLTemplate [''imageName'' \<mapsto> AgentImage C, ''connectURL'' \<mapsto> ?url] =
      pre @ url_line ?url @ post" using manifest_line by blast
  have manifest: "agent_handler isnf ws subPath C get key r w h = Some (Write (pre @ url_line ?url @ post) w, h1)"
    using agent_right_token [where get = get and key = key and isnf = isnf and ws = ws and subPath = subPath and C = C
        and w = w, OF assms(1,2)]
    by (simp only: assms(4) [symmetric] m)
  note joins = joined_agent_gives_access [where get = get and key = key and alive = alive and dialTLS = dialTLS and apiexch = apiexch,
      OF assms(3,5-12)]
  show ?thesis
    by (rule exI [of _ pre], rule exI [of _ ?url], rule exI [of _ post], intro conjI manifest allI impI, elim conjE, rule joins)
qed

text \<open>A network in which the URL leads to the hub, whatever its host is.\<close>

definition demo_handshake :: "string \<Rightarrow> request" where
  "demo_handshake q = (demo_query q)\<lparr>Header := [''Connection'' \<mapsto> [''Upgrade''], ''Upgrade'' \<mapsto> [''websocket''],
     ''Sec-Websocket-Version'' \<mapsto> [''13''], ''Sec-Websocket-Key'' \<mapsto> [''x3JJHMbDL1EzLkh9GBhXDw=='']]\<rparr>"

lemma demo_handshake: "handshake (demo_handshake q)" "RawQuery (reqURL (demo_handshake q)) = q"
proof -
  have "upgradeType (Header (demo_handshake q)) = ''websocket''" "header_Get (Header (demo_handshake q)) ''Sec-Websocket-Version'' = ''13''"
      "header_Get (Header (demo_handshake q)) ''Sec-Websocket-Key'' \<noteq> []" "Header (demo_handshake q) ''Origin'' = None"
    unfolding demo_handshake_def by code_simp+
  then show "handshake (demo_handshake q)" by (simp add: handshake_def) (simp add: demo_handshake_def demo_query_def)
  show "RawQuery (reqURL (demo_handshake q)) = q" by (simp add: demo_handshake_def demo_query_def)
qed

definition demo_join_net :: "nat hub handler \<Rightarrow> nat hub agent_net" where
  "demo_join_net h = \<lparr>ws_Dial = (\<lambda>_ url s. case url_Parse url of
       Inl e \<Rightarrow> (Inl e, s)
     | Inr u \<Rightarrow> (case h (demo_handshake (RawQuery u)) newWriter s of
           None \<Rightarrow> (Inl (errors_New ''EOF''), s)
         | Some (w, s) \<Rightarrow> (if wStatus w = Some 101 then Inr 1 else Inl (errors_New ''bad handshake''), s))),
     wsUnderlyingConn = (\<lambda>c. c), yamux_Client = (\<lambda>c s. (Inr c, s))\<rparr>"

lemma demo_reaches: "reaches_hub (demo_join_net h) addr path h s"
  unfolding reaches_hub_def
proof (intro allI impI)
  fix cfg url u
  assume u: "url_Parse url = Inr u"
  show "\<exists>r. handshake r \<and> RawQuery (reqURL r) = RawQuery u
      \<and> (\<forall>w s1. h r newWriter s = Some (w, s1) \<longrightarrow>
           (\<exists>res. ws_Dial (demo_join_net h) cfg url s = (res, s1) \<and> ((\<exists>c. res = Inr c) \<longleftrightarrow> wStatus w = Some 101)))"
    by (rule exI [of _ "demo_handshake (RawQuery u)"]) (simp add: demo_join_net_def u demo_handshake)
qed

definition demo_pool :: "(string list, 's) ca_store" where
  "demo_pool = \<lparr>ReadFile = (\<lambda>_ s. (Inr ''CA'', s)), NewCertPool = [], AppendCertsFromPEM = (\<lambda>pem pool. (True, pem # pool))\<rparr>"

abbreviation demo_join :: "nat hub agent_net" where
  "demo_join \<equiv> demo_join_net (connect_handler (\<lambda>_. False) (demo_ws True) (Some (demo_lookup ''abc'')) (Some (add_session demo_ks)) demo_key)"

definition demo_public :: Config where
  "demo_public = hub_C\<lparr>PublicAddr := ''hub.example.com:443''\<rparr>"

lemma demo_join_env:
  "plain (Token (demo_cluster ''abc''))" "host_ok (PublicAddr demo_public)" "path_plain ''/connect''" "upgrade_doc (demo_ws True)"
  "succeeds (yamux_Server (demo_ws True) c)" "succeeds (yamux_Client (demo_join_net hub) c)" "account_mounted demo_pool"
  by (simp_all add: host_ok_def hostport_ok_def ip_text_def CutLast_def path_plain_def demo_cluster_def plain_def demo_public_def account_mounted_def
      unreserved_def is_alnum_def is_upper_def is_lower_def is_digit_def upgrade_doc_def succeeds_def demo_ws_def demo_join_net_def demo_pool_def)

text \<open>The WebSocket library of these examples always upgrades.\<close>

lemma demo_upgrade: "Upgrade (demo_ws True) rb wb r w s = (Inr 5, w\<lparr>wStatus := Some 101, wHijacked := True\<rparr>, s)"
  by (simp add: demo_ws_def)

definition demo_echo :: "nat \<Rightarrow> request \<Rightarrow> 's \<Rightarrow> response res \<times> 's" where
  "demo_echo k q s = (Inr \<lparr>StatusCode = 200, respHeader = Map.empty, respBody = Path (reqURL q)\<rparr>, s)"

lemma demo_echo_access:
  assumes "gives_access isnf get ks yx (\<lambda>_ _ s. (Inr 0, s)) demo_echo srv addr key h h0"
  shows "\<exists>w' h'. NewProxyHandler isnf get (DialCluster ks yx) (serve_exchange (agent_proxy (\<lambda>_ _ s. (Inr 0, s)) demo_echo srv)) None key
      ''/api'' (demo_query []) newWriter h = Some (w', h') \<and> wStatus w' = Some 200 \<and> wBody w' = ''/api''"
proof -
  have r: "(''/api'' = [] \<or> HasPrefix ''/api'' ''/'') \<and> no_ctl (RawQuery (reqURL (demo_query []))) \<and> reqBody (demo_query []) \<noteq> ClosedBody
      \<and> fresh newWriter"
    by (simp add: demo_query_def no_ctl_def HasPrefix_def)
  obtain h1 q where q: "api_request addr (agentToken srv) ''/api'' (demo_query []) q"
    and x: "\<forall>x h2. RoundTrip (\<lambda>s. (Inr 0, s)) demo_echo q h1 = (x, h2) \<longrightarrow>
      (\<exists>w'. (\<forall>pm. NewProxyHandler isnf get (DialCluster ks yx) (serve_exchange (agent_proxy (\<lambda>_ _ s. (Inr 0, s)) demo_echo srv)) pm key
         ''/api'' (demo_query []) newWriter h = Some (w', h2)) \<and> delivered (upgradeType (Header (demo_query []))) x newWriter w')"
    using assms r unfolding gives_access_def by blast
  have "RoundTrip (\<lambda>s. (Inr 0, s)) demo_echo q h1 = (Inr \<lparr>StatusCode = 200, respHeader = Map.empty, respBody = ''/api''\<rparr>, h1)"
    using q by (simp add: RoundTrip_def demo_echo_def api_request_def demo_query_def wire_path_def)
  with x obtain w' where "\<forall>pm. NewProxyHandler isnf get (DialCluster ks yx) (serve_exchange (agent_proxy (\<lambda>_ _ s. (Inr 0, s)) demo_echo srv)) pm key
         ''/api'' (demo_query []) newWriter h = Some (w', h1)"
      "delivered (upgradeType (Header (demo_query []))) (Inr \<lparr>StatusCode = 200, respHeader = Map.empty, respBody = ''/api''\<rparr>) newWriter w'"
    by blast
  then show ?thesis by (intro exI [of _ w'] exI [of _ h1]) (simp add: delivered_def)
qed

theorem deployed_agent_gives_access_witness:
  "\<exists>url srv g' w' h'. agent_setup \<lparr>connectFlag = url, apiserverAddr = ''kubernetes.default''\<rparr> demo_join demo_pool demo_hub = (Inr srv, g')
     \<and> NewProxyHandler (\<lambda>_. False) (demo_lookup ''abc'') (DialCluster demo_ks demo_yamux)
         (serve_exchange (agent_proxy (\<lambda>_ _ s. (Inr 0, s)) demo_echo srv)) None demo_key ''/api'' (demo_query []) newWriter g' = Some (w', h')
     \<and> wStatus w' = Some 200 \<and> wBody w' = ''/api''"
proof -
  have t: "query_Get (reqURL (demo_query ''token=abc'')) ''token'' = Token (demo_cluster ''abc'')"
    by (simp add: demo_token demo_cluster_def)
  obtain url where J: "\<forall>g g0. demo_lookup ''abc'' (Namespace demo_key) (Name demo_key) g = (Inr (demo_cluster ''abc''), g0) \<and> mgr g0 = mgr g
         \<and> reaches_hub demo_join (PublicAddr demo_public) ''/connect''
             (connect_handler (\<lambda>_. False) (demo_ws True) (Some (demo_lookup ''abc'')) (Some (add_session demo_ks)) demo_key) g \<longrightarrow>
         (\<exists>ra. handshake ra
            \<and> (\<forall>conn wa g1. Upgrade (demo_ws True) 1024 1024 ra newWriter g0 = (Inr conn, wa, g1) \<longrightarrow>
                 (\<exists>srv g' t g2. agent_setup \<lparr>connectFlag = url, apiserverAddr = ''kubernetes.default''\<rparr> demo_join demo_pool g = (Inr srv, g')
                    \<and> yamux_Server (demo_ws True) (UnderlyingConn (demo_ws True) conn) g1 = (Inr t, g2)
                    \<and> held g' = (held g)(demo_ks demo_key := add_mset t (held g (demo_ks demo_key)))
                    \<and> (\<forall>h h0. demo_lookup ''abc'' (Namespace demo_key) (Name demo_key) h = (Inr (demo_cluster ''abc''), h0)
                           \<and> t \<in># held h0 (demo_ks demo_key) \<and> t \<noteq> 7 \<longrightarrow>
                         gives_access (\<lambda>_. False) (demo_lookup ''abc'') demo_ks demo_yamux (\<lambda>_ _ s. (Inr 0, s)) demo_echo srv
                           ''kubernetes.default'' demo_key h h0)))
            \<and> (\<forall>e wa g1. Upgrade (demo_ws True) 1024 1024 ra newWriter g0 = (Inl e, wa, g1) \<longrightarrow>
                 (\<exists>msg g'. agent_setup \<lparr>connectFlag = url, apiserverAddr = ''kubernetes.default''\<rparr> demo_join demo_pool g = (Inl msg, g')
                    \<and> held g' = held g)))"
    using deployed_agent_gives_access [where key = demo_key and get = "demo_lookup ''abc''" and ks = demo_ks and isnf = "\<lambda>_. False"
      and subPath = "\<lambda>_ _. ''/connect''" and w = newWriter and h = demo_hub and dialTLS = "\<lambda>_ _ s. (Inr 0, s)" and apiexch = demo_echo
      and net = demo_join,
      OF demo_lookup t demo_join_env(1) refl demo_join_env(2,3) demo_apiserver demo_join_env(4-7) demo_yamux_doc] by blast
  obtain srv g' t g2 where a: "agent_setup \<lparr>connectFlag = url, apiserverAddr = ''kubernetes.default''\<rparr> demo_join demo_pool demo_hub = (Inr srv, g')"
    and y: "yamux_Server (demo_ws True) (UnderlyingConn (demo_ws True) 5) demo_hub = (Inr t, g2)"
    and b: "held g' = (held demo_hub)(demo_ks demo_key := add_mset t (held demo_hub (demo_ks demo_key)))"
    and g: "\<forall>h h0. demo_lookup ''abc'' (Namespace demo_key) (Name demo_key) h = (Inr (demo_cluster ''abc''), h0)
        \<and> t \<in># held h0 (demo_ks demo_key) \<and> t \<noteq> 7 \<longrightarrow>
      gives_access (\<lambda>_. False) (demo_lookup ''abc'') demo_ks demo_yamux (\<lambda>_ _ s. (Inr 0, s)) demo_echo srv ''kubernetes.default'' demo_key h h0"
    using J [rule_format, OF conjI [OF demo_lookup conjI [OF refl demo_reaches]], of demo_hub] demo_upgrade by blast
  have "t \<noteq> 7" using y by (simp add: demo_ws_def)
  with b g have "gives_access (\<lambda>_. False) (demo_lookup ''abc'') demo_ks demo_yamux (\<lambda>_ _ s. (Inr 0, s)) demo_echo srv ''kubernetes.default'' demo_key g' g'"
    by simp
  from demo_echo_access [OF this] a show ?thesis by blast
qed

text \<open>Started in a world in which the cluster can be read and the hub be reached, an agent serves exactly if it is registered.\<close>

lemma agent_rejoins:
  fixes get :: "('m, 'w hub) cluster_get"
  assumes "plain (Token cl)" and "host_ok (PublicAddr C)" and "path_plain path" and "host_ok apiserver"
    and "upgrade_doc ws" and "\<And>c. succeeds (yamux_Server ws c)" and "\<And>c. succeeds (yamux_Client net c)" and "account_mounted ca"
    and "get (Namespace key) (Name key) g = (Inr cl, g0)" and "mgr g0 = mgr g"
    and "reaches_hub net (PublicAddr C) path (connect_handler isnf ws (Some get) (Some (add_session ks)) key) g"
    and "flags = \<lparr>connectFlag = connectURL C path (Token cl), apiserverAddr = apiserver\<rparr>"
  shows "\<exists>ra. handshake ra
    \<and> (\<forall>conn wa g1. Upgrade ws 1024 1024 ra newWriter g0 = (Inr conn, wa, g1) \<longrightarrow>
         (\<exists>c srv' t g2. agent_step flags net ca (agent_start g) c \<and> agMain c = AtServe srv' \<and> sessionOpen c
            \<and> yamux_Server ws (UnderlyingConn ws conn) g1 = (Inr t, g2)
            \<and> held (agWorld c) = (held g)(ks key := add_mset t (held g (ks key)))))
    \<and> (\<forall>e wa g1. Upgrade ws 1024 1024 ra newWriter g0 = (Inl e, wa, g1) \<longrightarrow>
         (\<exists>c msg. agent_step flags net ca (agent_start g) c \<and> agMain c = Ended (Fatal msg) \<and> held (agWorld c) = held g))"
proof -
  obtain ra where ra: "handshake ra"
      "\<forall>conn w g1. Upgrade ws 1024 1024 ra newWriter g0 = (Inr conn, w, g1) \<longrightarrow>
         (\<exists>srv g' t g2. agent_setup flags net ca g = (Inr srv, g') \<and> yamux_Server ws (UnderlyingConn ws conn) g1 = (Inr t, g2)
            \<and> held g' = (held g)(ks key := add_mset t (held g (ks key))))"
      "\<forall>e w g1. Upgrade ws 1024 1024 ra newWriter g0 = (Inl e, w, g1) \<longrightarrow>
         (\<exists>msg g'. agent_setup flags net ca g = (Inl msg, g') \<and> held g' = held g)"
    using agent_joins [where get = get and key = key and flags = flags, OF assms] by blast
  note first = agent_starts [where flags = flags and net = net and ca = ca and g = g]
  show ?thesis
  proof (rule exI [of _ ra], intro conjI ra(1) allI impI)
    fix conn wa g1
    assume "Upgrade ws 1024 1024 ra newWriter g0 = (Inr conn, wa, g1)"
    from ra(2) [rule_format, OF this] obtain srv' g' t g2 where j: "agent_setup flags net ca g = (Inr srv', g')"
        "yamux_Server ws (UnderlyingConn ws conn) g1 = (Inr t, g2)" "held g' = (held g)(ks key := add_mset t (held g (ks key)))" by blast
    from first [THEN conjunct1, rule_format, OF j(1)] obtain c where
      "agent_step flags net ca (agent_start g) c" "agMain c = AtServe srv'" "sessionOpen c" "agWorld c = g'" by blast
    with j(2,3) show "\<exists>c srv' t g2. agent_step flags net ca (agent_start g) c \<and> agMain c = AtServe srv' \<and> sessionOpen c
                  \<and> yamux_Server ws (UnderlyingConn ws conn) g1 = (Inr t, g2)
                  \<and> held (agWorld c) = (held g)(ks key := add_mset t (held g (ks key)))"
      by (intro exI [of _ c] exI [of _ srv'] exI [of _ t] exI [of _ g2]) simp
  next
    fix e wa g1
    assume "Upgrade ws 1024 1024 ra newWriter g0 = (Inl e, wa, g1)"
    from ra(3) [rule_format, OF this] obtain msg g' where j: "agent_setup flags net ca g = (Inl msg, g')" "held g' = held g" by blast
    from first [THEN conjunct2, rule_format, OF j(1)] obtain c where
      "agent_step flags net ca (agent_start g) c" "agMain c = Ended (Fatal msg)" "agWorld c = g'" by blast
    with j(2) show "\<exists>c msg. agent_step flags net ca (agent_start g) c \<and> agMain c = Ended (Fatal msg) \<and> held (agWorld c) = held g"
      by (intro exI [of _ c] exI [of _ msg]) simp
  qed
qed

text \<open>
  C5: A lost agent comes back. Once the session of an agent is gone, only finitely many steps of its process are
  left, whatever comes from outside, and when none is left the process has ended with a failure. Started again with
  the same connect URL, whatever has become of the hub meanwhile, it dials the hub with a handshake and, if the hub's upgrade
  succeeds, serves over a new session that is registered for its cluster; if the upgrade fails, it ends with a failure again and the hub
  has the sessions it had. The hypotheses on hub and libraries are those of \<open>deployed_agent_gives_access\<close>.
\<close>

theorem agent_reconnects:
  fixes get :: "('m, 'w hub) cluster_get"
  assumes "plain (Token cl)" and "host_ok (PublicAddr C)" and "path_plain path" and "host_ok apiserver"
    and "upgrade_doc ws" and "\<And>c. succeeds (yamux_Server ws c)" and "\<And>c. succeeds (yamux_Client net c)" and "account_mounted ca"
    and "flags = \<lparr>connectFlag = connectURL C path (Token cl), apiserverAddr = apiserver\<rparr>"
    and "agent_reachable flags net ca a" and "agMain a = AtServe srv" and "\<not> sessionOpen a" and "agent_run flags net ca n a b"
  shows "n \<le> agent_work a
    \<and> ((\<forall>c. \<not> agent_step flags net ca b c) \<longrightarrow> (\<exists>x. agMain b = Ended x \<and> x \<noteq> Clean))
    \<and> (\<forall>g g0. get (Namespace key) (Name key) g = (Inr cl, g0) \<and> mgr g0 = mgr g
         \<and> reaches_hub net (PublicAddr C) path (connect_handler isnf ws (Some get) (Some (add_session ks)) key) g \<longrightarrow>
         (\<exists>ra. handshake ra
            \<and> (\<forall>conn wa g1. Upgrade ws 1024 1024 ra newWriter g0 = (Inr conn, wa, g1) \<longrightarrow>
                 (\<exists>c srv' t g2. agent_step flags net ca (agent_start g) c \<and> agMain c = AtServe srv' \<and> sessionOpen c
                    \<and> yamux_Server ws (UnderlyingConn ws conn) g1 = (Inr t, g2)
                    \<and> held (agWorld c) = (held g)(ks key := add_mset t (held g (ks key)))))
            \<and> (\<forall>e wa g1. Upgrade ws 1024 1024 ra newWriter g0 = (Inl e, wa, g1) \<longrightarrow>
                 (\<exists>c msg. agent_step flags net ca (agent_start g) c \<and> agMain c = Ended (Fatal msg) \<and> held (agWorld c) = held g))))"
proof -
  note ends = lost_session_ends_agent [OF assms(10-13)]
  show ?thesis
  proof (intro conjI)
    show "n \<le> agent_work a" by (rule ends [THEN conjunct1])
    show "(\<forall>c. \<not> agent_step flags net ca b c) \<longrightarrow> (\<exists>x. agMain b = Ended x \<and> x \<noteq> Clean)" by (rule ends [THEN conjunct2])
  qed (intro allI impI, elim conjE, rule agent_rejoins [where get = get and key = key, OF assms(1-8) _ _ _ assms(9)])
qed

theorem agent_reconnects_witness:
  "\<exists>flags a b x c t. agent_reachable flags demo_join demo_pool a \<and> \<not> sessionOpen a \<and> agent_run flags demo_join demo_pool 1 a b
     \<and> agMain b = Ended x \<and> agent_step flags demo_join demo_pool (agent_start demo_hub) c \<and> held (agWorld c) (demo_ks demo_key) = {#t, 3, 7#}"
proof -
  let ?flags = "\<lparr>connectFlag = connectURL demo_public ''/connect'' (Token (demo_cluster ''abc'')), apiserverAddr = ''kubernetes.default''\<rparr>"
  note env = demo_join_env(1-3) demo_apiserver demo_join_env(4-7)
  obtain srv g' where s: "agent_setup ?flags demo_join demo_pool demo_hub = (Inr srv, g')"
    using agent_joins [where get = "demo_lookup ''abc''" and key = demo_key and ks = demo_ks and isnf = "\<lambda>_. False"
        and g = demo_hub and net = demo_join, OF env demo_lookup refl demo_reaches refl] demo_upgrade by blast
  obtain a b where a: "agent_reachable ?flags demo_join demo_pool a" "agMain a = AtServe srv" "\<not> sessionOpen a"
      "agent_run ?flags demo_join demo_pool 1 a b" "\<forall>c. \<not> agent_step ?flags demo_join demo_pool b c"
    using agent_loses_session [OF s] by blast
  note rejoins = agent_reconnects [where get = "demo_lookup ''abc''" and key = demo_key and ks = demo_ks and isnf = "\<lambda>_. False" and net = demo_join,
      OF env refl a(1-4), THEN conjunct2]
  obtain x where x: "agMain b = Ended x" using rejoins [THEN conjunct1, THEN mp, OF a(5)] by blast
  obtain c t where "agent_step ?flags demo_join demo_pool (agent_start demo_hub) c"
      "held (agWorld c) = (held demo_hub)(demo_ks demo_key := add_mset t (held demo_hub (demo_ks demo_key)))"
    using rejoins [THEN conjunct2, rule_format, OF conjI [OF demo_lookup conjI [OF refl demo_reaches]], of demo_hub] demo_upgrade by blast
  then show ?thesis using a x by (intro exI conjI) (assumption+, simp add: demo_held)
qed

end
